theory Spec2Isabelle
  imports Complex_Main
begin

section \<open>Python values and exceptions\<close>

text \<open>
  The payloads that travel through the service layer (records, filters, options, hook
  results) are JSON-like Python values. Dictionaries keep their insertion order, so
  they are association lists; the keys used by the code are always strings.
\<close>

datatype pyval =
    PNone
  | PBool bool
  | PInt int
  | PStr string
  | PList "pyval list"
  | PTuple "pyval list"
  | PDict "(string \<times> pyval) list"

text \<open>
  The exceptions the modelled code raises or lets through. \<open>CallError\<close> carries the
  message, the errno argument and the extra argument as the source passes them
  (\<open>None\<close> when the argument is left out). \<open>OtherException\<close> stands for any further
  subclass of Python's \<open>Exception\<close> a collaborator may raise.
\<close>

datatype error =
    CallError string "int option" "pyval option"
  | InstanceNotFound string
  | NotImplementedError string
  | IndexError
  | KeyError string
  | TypeError
  | ValueError
  | AttributeError
  | OtherException string

text \<open>Python truthiness, as used by \<open>if x\<close>, \<open>not x\<close> and \<open>x or y\<close>.\<close>

fun truthy :: "pyval \<Rightarrow> bool" where
  "truthy PNone = False"
| "truthy (PBool b) = b"
| "truthy (PInt i) = (i \<noteq> 0)"
| "truthy (PStr s) = (s \<noteq> [])"
| "truthy (PList xs) = (xs \<noteq> [])"
| "truthy (PTuple xs) = (xs \<noteq> [])"
| "truthy (PDict kvs) = (kvs \<noteq> [])"

text \<open>An attribute that holds a string or \<open>None\<close>; both \<open>None\<close> and \<open>''\<close> are falsy.\<close>

fun truthy_str :: "string option \<Rightarrow> bool" where
  "truthy_str None = False"
| "truthy_str (Some s) = (s \<noteq> [])"

fun opt_str :: "string option \<Rightarrow> pyval" where
  "opt_str None = PNone"
| "opt_str (Some s) = PStr s"

subsection \<open>Dictionary operations\<close>

text \<open>\<open>d[k] = v\<close>: an existing key keeps its position, a new key goes last.\<close>

fun dict_set :: "string \<Rightarrow> pyval \<Rightarrow> (string \<times> pyval) list \<Rightarrow> (string \<times> pyval) list" where
  "dict_set k v [] = [(k, v)]"
| "dict_set k v ((k', v') # kvs) =
     (if k' = k then (k, v) # kvs else (k', v') # dict_set k v kvs)"

text \<open>\<open>d.pop(k, None)\<close> with the popped value dropped: no \<open>KeyError\<close> for a missing key.\<close>

definition dict_pop :: "string \<Rightarrow> (string \<times> pyval) list \<Rightarrow> (string \<times> pyval) list" where
  "dict_pop k kvs = filter (\<lambda>kv. fst kv \<noteq> k) kvs"

text \<open>\<open>d[k]\<close>: raises \<open>KeyError\<close> for a missing key.\<close>

definition dict_item :: "(string \<times> pyval) list \<Rightarrow> string \<Rightarrow> error + pyval" where
  "dict_item kvs k = (case map_of kvs k of None \<Rightarrow> Inl (KeyError k) | Some v \<Rightarrow> Inr v)"

text \<open>
  \<open>x[0]\<close>: the first element of a sequence; \<open>IndexError\<close> on an empty one, \<open>KeyError\<close> on
  a dictionary (whose keys are strings), \<open>TypeError\<close> on a value that cannot be
  subscripted.
\<close>

fun py_first :: "pyval \<Rightarrow> error + pyval" where
  "py_first (PList (x # xs)) = Inr x"
| "py_first (PList []) = Inl IndexError"
| "py_first (PTuple (x # xs)) = Inr x"
| "py_first (PTuple []) = Inl IndexError"
| "py_first (PStr (c # cs)) = Inr (PStr [c])"
| "py_first (PStr []) = Inl IndexError"
| "py_first (PDict kvs) = Inl (KeyError ''0'')"
| "py_first PNone = Inl TypeError"
| "py_first (PBool b) = Inl TypeError"
| "py_first (PInt i) = Inl TypeError"

section \<open>Service configuration\<close>

text \<open>
  The \<open>_config\<close> object that \<open>service_config\<close> builds for a service class, restricted
  to the attributes the modelled methods read.
\<close>

record config =
  namespace :: string
  datastore :: "string option"
  datastore_prefix :: "string option"
  datastore_extend :: "string option"
  datastore_extend_context :: "string option"
  datastore_primary_key :: string
  event_send :: bool
  service :: "string option"
  verbose_name :: string

section \<open>The middleware as seen by a service method\<close>

text \<open>
  A service method runs against the rest of the daemon only through the middleware
  object. The state threaded through a method is the world behind the middleware
  (datastore, backend, other services: the type variable \<open>'w\<close>) and the trace of what the
  method asked the middleware to do, oldest action first.
\<close>

datatype action =
    Call string "pyval list"
  | Hook string "pyval list"
  | Event string string "(string \<times> pyval) list"
  | Log string string "pyval list"
  | Acquire string
  | Release string

record 'w mw =
  world :: 'w
  trace :: "action list"

text \<open>
  \<open>middleware.call(name, *args)\<close> and \<open>middleware._call(name, self, method, args)\<close>: the
  callee \<open>f\<close> acts on the world and returns a value or raises; the call is logged.
\<close>

definition mw_call ::
  "(string \<Rightarrow> pyval list \<Rightarrow> 'w \<Rightarrow> (error + 'a) \<times> 'w) \<Rightarrow> string \<Rightarrow> pyval list \<Rightarrow>
     ('w, 'z) mw_scheme \<Rightarrow> (error + 'a) \<times> ('w, 'z) mw_scheme" where
  "mw_call f name args s =
     (case f name args (world s) of
        (r, w) \<Rightarrow> (r, s\<lparr>world := w, trace := trace s @ [Call name args]\<rparr>))"

text \<open>\<open>middleware.call_hook(name, *args)\<close>: runs the registered hooks, which may raise.\<close>

definition mw_call_hook ::
  "(string \<Rightarrow> pyval list \<Rightarrow> 'w \<Rightarrow> (error + unit) \<times> 'w) \<Rightarrow> string \<Rightarrow> pyval list \<Rightarrow>
     ('w, 'z) mw_scheme \<Rightarrow> (error + unit) \<times> ('w, 'z) mw_scheme" where
  "mw_call_hook h name args s =
     (case h name args (world s) of
        (r, w) \<Rightarrow> (r, s\<lparr>world := w, trace := trace s @ [Hook name args]\<rparr>))"

text \<open>\<open>middleware.send_event(name, event_type, **kwargs)\<close>: synchronous, returns nothing.\<close>

definition send_event ::
  "string \<Rightarrow> string \<Rightarrow> (string \<times> pyval) list \<Rightarrow> ('w, 'z) mw_scheme \<Rightarrow> ('w, 'z) mw_scheme" where
  "send_event name event_type kwargs s = s\<lparr>trace := trace s @ [Event name event_type kwargs]\<rparr>"

text \<open>\<open>self.logger.warning(fmt, *args)\<close> and \<open>self.logger.error(fmt, *args)\<close>.\<close>

definition log_msg ::
  "string \<Rightarrow> string \<Rightarrow> pyval list \<Rightarrow> ('w, 'z) mw_scheme \<Rightarrow> ('w, 'z) mw_scheme" where
  "log_msg level fmt args s = s\<lparr>trace := trace s @ [Log level fmt args]\<rparr>"

section \<open>CRUDService\<close>

subsection \<open>query\<close>

text \<open>
  \<open>get_options\<close>: \<open>options or {}\<close>, then three item assignments, which raise \<open>TypeError\<close>
  on a truthy value that is not a dictionary.
\<close>

definition get_options :: "config \<Rightarrow> pyval \<Rightarrow> error + (string \<times> pyval) list" where
  "get_options cfg options =
     (case (if truthy options then options else PDict []) of
        PDict kvs \<Rightarrow>
          Inr (dict_set ''prefix'' (opt_str (datastore_prefix cfg))
                (dict_set ''extend_context'' (opt_str (datastore_extend_context cfg))
                  (dict_set ''extend'' (opt_str (datastore_extend cfg)) kvs)))
      | _ \<Rightarrow> Inl TypeError)"

text \<open>
  \<open>filter_list\<close> of \<open>middlewared.utils\<close> is the parameter \<open>filter_list\<close> (run in a thread
  by \<open>run_in_thread\<close>); \<open>datastore.query\<close> is reached through \<open>middleware.call\<close>, the
  parameter \<open>callee\<close>, and is the collaborator that applies the transform named by the
  \<open>extend\<close> option to every row it returns.
\<close>

definition query ::
  "(string \<Rightarrow> pyval list \<Rightarrow> 'w \<Rightarrow> (error + pyval) \<times> 'w) \<Rightarrow>
   (pyval \<Rightarrow> pyval \<Rightarrow> pyval \<Rightarrow> error + pyval) \<Rightarrow> config \<Rightarrow> pyval \<Rightarrow> pyval \<Rightarrow>
     ('w, 'z) mw_scheme \<Rightarrow> (error + pyval) \<times> ('w, 'z) mw_scheme" where
  "query callee filter_list cfg filters options s =
     (if \<not> truthy_str (datastore cfg)
      then (Inl (NotImplementedError
              (namespace cfg @ ''.query must be implemented or a '' @
               [CHR 0x60] @ ''datastore'' @ [CHR 0x60] @ '' Config attribute provided.'')), s)
      else
        let filters = (if \<not> truthy filters then PList [] else filters) in
        (case get_options cfg options of
           Inl e \<Rightarrow> (Inl e, s)
         | Inr opts \<Rightarrow>
             (case dict_item opts ''force_sql_filters'' of
                Inl e \<Rightarrow> (Inl e, s)
              | Inr force_sql_filters \<Rightarrow>
                  (case dict_item opts ''extend'' of
                     Inl e \<Rightarrow> (Inl e, s)
                   | Inr extend_opt \<Rightarrow>
                       if \<not> truthy force_sql_filters \<and> truthy extend_opt
                       then
                         let datastore_options = dict_pop ''get'' (dict_pop ''count'' opts) in
                         (case mw_call callee ''datastore.query''
                                 [opt_str (datastore cfg), PList [], PDict datastore_options] s of
                            (Inl e, s1) \<Rightarrow> (Inl e, s1)
                          | (Inr result, s1) \<Rightarrow> (filter_list result filters (PDict opts), s1))
                       else
                         mw_call callee ''datastore.query''
                           [opt_str (datastore cfg), filters, PDict opts] s))))"

subsection \<open>create, update, delete\<close>

text \<open>\<open>isinstance(rv, dict) and 'id' in rv\<close>, and the \<open>ADDED\<close>/\<open>CHANGED\<close> event sent then.\<close>

fun rv_id :: "pyval \<Rightarrow> pyval option" where
  "rv_id (PDict kvs) = map_of kvs ''id''"
| "rv_id _ = None"

definition send_rv_event ::
  "config \<Rightarrow> string \<Rightarrow> pyval \<Rightarrow> ('w, 'z) mw_scheme \<Rightarrow> ('w, 'z) mw_scheme" where
  "send_rv_event cfg event_type rv s =
     (if event_send cfg
      then (case rv_id rv of
              Some i \<Rightarrow> send_event (namespace cfg @ ''.query'') event_type
                          [(''id'', i), (''fields'', rv)] s
            | None \<Rightarrow> s)
      else s)"

text \<open>
  The parameter \<open>do_fn\<close> is what \<open>middleware._call\<close> runs (\<open>do_create\<close>, \<open>do_update\<close>,
  \<open>do_delete\<close> of the service); \<open>hooks\<close> is what \<open>call_hook\<close> runs. The \<open>app\<close> argument
  is only passed through to \<open>_call\<close> and is left out.
\<close>

definition create ::
  "(string \<Rightarrow> pyval list \<Rightarrow> 'w \<Rightarrow> (error + pyval) \<times> 'w) \<Rightarrow>
   (string \<Rightarrow> pyval list \<Rightarrow> 'w \<Rightarrow> (error + unit) \<times> 'w) \<Rightarrow> config \<Rightarrow> pyval \<Rightarrow>
     ('w, 'z) mw_scheme \<Rightarrow> (error + pyval) \<times> ('w, 'z) mw_scheme" where
  "create do_fn hooks cfg data s =
     (case mw_call do_fn (namespace cfg @ ''.create'') [data] s of
        (Inl e, s1) \<Rightarrow> (Inl e, s1)
      | (Inr rv, s1) \<Rightarrow>
          (case mw_call_hook hooks (namespace cfg @ ''.post_create'') [rv] s1 of
             (Inl e, s2) \<Rightarrow> (Inl e, s2)
           | (Inr u, s2) \<Rightarrow> (Inr rv, send_rv_event cfg ''ADDED'' rv s2)))"

definition update ::
  "(string \<Rightarrow> pyval list \<Rightarrow> 'w \<Rightarrow> (error + pyval) \<times> 'w) \<Rightarrow>
   (string \<Rightarrow> pyval list \<Rightarrow> 'w \<Rightarrow> (error + unit) \<times> 'w) \<Rightarrow> config \<Rightarrow> pyval \<Rightarrow> pyval \<Rightarrow>
     ('w, 'z) mw_scheme \<Rightarrow> (error + pyval) \<times> ('w, 'z) mw_scheme" where
  "update do_fn hooks cfg ident data s =
     (case mw_call do_fn (namespace cfg @ ''.update'') [ident, data] s of
        (Inl e, s1) \<Rightarrow> (Inl e, s1)
      | (Inr rv, s1) \<Rightarrow>
          (case mw_call_hook hooks (namespace cfg @ ''.post_update'') [rv] s1 of
             (Inl e, s2) \<Rightarrow> (Inl e, s2)
           | (Inr u, s2) \<Rightarrow> (Inr rv, send_rv_event cfg ''CHANGED'' rv s2)))"

definition delete ::
  "(string \<Rightarrow> pyval list \<Rightarrow> 'w \<Rightarrow> (error + pyval) \<times> 'w) \<Rightarrow>
   (string \<Rightarrow> pyval list \<Rightarrow> 'w \<Rightarrow> (error + unit) \<times> 'w) \<Rightarrow> config \<Rightarrow> pyval \<Rightarrow> pyval list \<Rightarrow>
     ('w, 'z) mw_scheme \<Rightarrow> (error + pyval) \<times> ('w, 'z) mw_scheme" where
  "delete do_fn hooks cfg ident args s =
     (case mw_call do_fn (namespace cfg @ ''.delete'') ([ident] @ args) s of
        (Inl e, s1) \<Rightarrow> (Inl e, s1)
      | (Inr rv, s1) \<Rightarrow>
          (case mw_call_hook hooks (namespace cfg @ ''.post_delete'') [rv] s1 of
             (Inl e, s2) \<Rightarrow> (Inl e, s2)
           | (Inr u, s2) \<Rightarrow>
               (Inr rv,
                if event_send cfg
                then send_event (namespace cfg @ ''.query'') ''REMOVED'' [(''id'', ident)]
                       (send_event (namespace cfg @ ''.query'') ''CHANGED''
                          [(''id'', ident), (''cleared'', PBool True)] s2)
                else s2)))"

subsection \<open>get_instance\<close>

text \<open>
  The query goes through \<open>middleware.call\<close> (\<open>call_sync\<close> in the synchronous twin), the
  parameter \<open>callee\<close>. Python's \<open>str()\<close>, which the f-string of the error message applies
  to the id, is the parameter \<open>str_of\<close>.
\<close>

definition get_instance ::
  "(pyval \<Rightarrow> string) \<Rightarrow> (string \<Rightarrow> pyval list \<Rightarrow> 'w \<Rightarrow> (error + pyval) \<times> 'w) \<Rightarrow> config \<Rightarrow>
     pyval \<Rightarrow> pyval \<Rightarrow> ('w, 'z) mw_scheme \<Rightarrow> (error + pyval) \<times> ('w, 'z) mw_scheme" where
  "get_instance str_of callee cfg ident options s =
     (case mw_call callee (namespace cfg @ ''.query'')
             [PList [PList [PStr (datastore_primary_key cfg), PStr ''='', ident]], options] s of
        (Inl e, s1) \<Rightarrow> (Inl e, s1)
      | (Inr instance, s1) \<Rightarrow>
          if \<not> truthy instance
          then (Inl (InstanceNotFound
                  (verbose_name cfg @ '' '' @ str_of ident @ '' does not exist'')), s1)
          else (py_first instance, s1))"

definition get_instance__sync ::
  "(pyval \<Rightarrow> string) \<Rightarrow> (string \<Rightarrow> pyval list \<Rightarrow> 'w \<Rightarrow> (error + pyval) \<times> 'w) \<Rightarrow> config \<Rightarrow>
     pyval \<Rightarrow> pyval \<Rightarrow> ('w, 'z) mw_scheme \<Rightarrow> (error + pyval) \<times> ('w, 'z) mw_scheme" where
  "get_instance__sync str_of callee cfg ident options s =
     (case mw_call callee (namespace cfg @ ''.query'')
             [PList [PList [PStr (datastore_primary_key cfg), PStr ''='', ident]], options] s of
        (Inl e, s1) \<Rightarrow> (Inl e, s1)
      | (Inr instance, s1) \<Rightarrow>
          if \<not> truthy instance
          then (Inl (InstanceNotFound
                  (verbose_name cfg @ '' '' @ str_of ident @ '' does not exist'')), s1)
          else (py_first instance, s1))"

subsection \<open>check_dependencies and get_dependencies\<close>

text \<open>
  \<open>core.get_services\<close> returns, per service name, its \<open>type\<close> (\<open>crud\<close>, \<open>config\<close> or
  \<open>service\<close>) and its \<open>config\<close> dictionary, of which the method reads \<open>datastore\<close> and
  \<open>datastore_prefix\<close>.
\<close>

record service_info =
  stype :: string
  sdatastore :: "string option"
  sprefix :: "string option"

text \<open>One value of the \<open>dependencies\<close> dictionary: \<open>datastore\<close>, \<open>service\<close> and the data keys.\<close>

record dependency =
  dep_datastore :: string
  dep_service :: "string option"
  dep_data :: "(string \<times> pyval) list"

definition dependency_val :: "dependency \<Rightarrow> pyval" where
  "dependency_val d =
     PDict ([(''datastore'', PStr (dep_datastore d)), (''service'', opt_str (dep_service d))]
            @ dep_data d)"

text \<open>Assignment to a key of a dictionary with keys of any type.\<close>

fun alist_set :: "'k \<Rightarrow> 'v \<Rightarrow> ('k \<times> 'v) list \<Rightarrow> ('k \<times> 'v) list" where
  "alist_set k v [] = [(k, v)]"
| "alist_set k v ((k', v') # kvs) =
     (if k' = k then (k, v) # kvs else (k', v') # alist_set k v kvs)"

text \<open>\<open>x[k]\<close> for a string key: only a dictionary has one.\<close>

fun py_item :: "pyval \<Rightarrow> string \<Rightarrow> error + pyval" where
  "py_item (PDict kvs) k = dict_item kvs k"
| "py_item _ k = Inl TypeError"

text \<open>A list comprehension whose element expression may raise.\<close>

fun map_raise :: "('a \<Rightarrow> error + 'b) \<Rightarrow> 'a list \<Rightarrow> error + 'b list" where
  "map_raise f [] = Inr []"
| "map_raise f (x # xs) =
     (case f x of
        Inl e \<Rightarrow> Inl e
      | Inr y \<Rightarrow> (case map_raise f xs of Inl e \<Rightarrow> Inl e | Inr ys \<Rightarrow> Inr (y # ys)))"

text \<open>
  The dictionary comprehension \<open>services\<close>: keyed by datastore, services without a
  (truthy) datastore left out, a later service replacing an earlier one of the same
  datastore.
\<close>

fun services_by_datastore ::
  "(string \<times> service_info) list \<Rightarrow> (string \<times> string \<times> service_info) list \<Rightarrow>
     (string \<times> string \<times> service_info) list" where
  "services_by_datastore [] acc = acc"
| "services_by_datastore ((name, svc) # rest) acc =
     (case sdatastore svc of
        None \<Rightarrow> services_by_datastore rest acc
      | Some ds \<Rightarrow>
          if ds = [] then services_by_datastore rest acc
          else services_by_datastore rest (alist_set ds (name, svc) acc))"

text \<open>\<open>query_col\<close>: the foreign key with the service's datastore prefix cut off.\<close>

definition strip_prefix :: "string option \<Rightarrow> string \<Rightarrow> string" where
  "strip_prefix prefix query_col =
     (case prefix of
        None \<Rightarrow> query_col
      | Some p \<Rightarrow>
          if p \<noteq> [] \<and> take (length p) query_col = p then drop (length p) query_col
          else query_col)"

text \<open>
  The \<open>data\<close> part of a dependency, for the rows \<open>objects\<close> found in \<open>datastore\<close>.
  \<open>svc_query name filters\<close> is \<open>middleware.call(f'{name}.query', filters)\<close>.
\<close>

definition dependency_data ::
  "(string \<Rightarrow> pyval \<Rightarrow> error + pyval) \<Rightarrow> (string \<times> service_info) option \<Rightarrow> string \<Rightarrow>
     pyval list \<Rightarrow> error + (string \<times> pyval) list" where
  "dependency_data svc_query service_opt fk objects =
     (case service_opt of
        None \<Rightarrow> Inr [(''objects'', PList objects)]
      | Some (name, svc) \<Rightarrow>
          let query_col = strip_prefix (sprefix svc) fk;
              data = (if stype svc = ''config'' then [(''key'', PStr query_col)]
                      else [(''objects'', PList objects)])
          in if stype svc = ''crud''
             then (case map_raise (\<lambda>obj. py_item obj ''id'') objects of
                     Inl e \<Rightarrow> Inl e
                   | Inr ids \<Rightarrow>
                       (case svc_query name (PList [PTuple [PStr ''id'', PStr ''in'', PList ids]]) of
                          Inl e \<Rightarrow> Inl e
                        | Inr found \<Rightarrow> Inr [(''objects'', found)]))
             else Inr data)"

text \<open>
  The loop over the back-references \<open>(ds, fk)\<close>. \<open>ds_query ds filters\<close> is
  \<open>middleware.call('datastore.query', ds, filters)\<close>. The collaborators are
  queries: they are functions of their arguments, the world does not change while the
  method runs.
\<close>

fun dependencies_loop ::
  "(string \<Rightarrow> pyval \<Rightarrow> error + pyval list) \<Rightarrow> (string \<Rightarrow> pyval \<Rightarrow> error + pyval) \<Rightarrow>
   (string \<times> string \<times> service_info) list \<Rightarrow> string set \<Rightarrow> pyval \<Rightarrow> (string \<times> string) list \<Rightarrow>
   (string \<times> dependency) list \<Rightarrow> error + (string \<times> dependency) list" where
  "dependencies_loop ds_query svc_query services ignored ident [] dependencies = Inr dependencies"
| "dependencies_loop ds_query svc_query services ignored ident ((ds, fk) # rest) dependencies =
     (if ds \<in> ignored
      then dependencies_loop ds_query svc_query services ignored ident rest dependencies
      else if (case map_of services ds of None \<Rightarrow> False | Some (name, svc) \<Rightarrow> name \<in> ignored)
      then dependencies_loop ds_query svc_query services ignored ident rest dependencies
      else
        (case ds_query ds (PList [PTuple [PStr fk, PStr ''='', ident]]) of
           Inl e \<Rightarrow> Inl e
         | Inr objects \<Rightarrow>
             if objects = []
             then dependencies_loop ds_query svc_query services ignored ident rest dependencies
             else
               (case dependency_data svc_query (map_of services ds) fk objects of
                  Inl e \<Rightarrow> Inl e
                | Inr data \<Rightarrow>
                    dependencies_loop ds_query svc_query services ignored ident rest
                      (alist_set ds
                         \<lparr>dep_datastore = ds,
                          dep_service = map_option fst (map_of services ds),
                          dep_data = data\<rparr>
                         dependencies))))"

text \<open>
  \<open>get_services\<close> is the result of \<open>middleware.call('core.get_services')\<close>, \<open>get_backrefs\<close>
  that of \<open>middleware.call('datastore.get_backrefs', self._config.datastore)\<close>. The
  argument \<open>ignored\<close> is the set after \<open>ignored or set()\<close>.
\<close>

definition get_dependencies ::
  "error + (string \<times> service_info) list \<Rightarrow> error + (string \<times> string) list \<Rightarrow>
   (string \<Rightarrow> pyval \<Rightarrow> error + pyval list) \<Rightarrow> (string \<Rightarrow> pyval \<Rightarrow> error + pyval) \<Rightarrow>
   pyval \<Rightarrow> string set \<Rightarrow> error + (string \<times> dependency) list" where
  "get_dependencies get_services get_backrefs ds_query svc_query ident ignored =
     (case get_services of
        Inl e \<Rightarrow> Inl e
      | Inr svcs \<Rightarrow>
          (case get_backrefs of
             Inl e \<Rightarrow> Inl e
           | Inr backrefs \<Rightarrow>
               dependencies_loop ds_query svc_query (services_by_datastore svcs []) ignored
                 ident backrefs []))"

text \<open>Decimal digits of a natural number, as \<open>str()\<close> prints \<open>index + 1\<close>.\<close>

function str_nat :: "nat \<Rightarrow> string" where
  "str_nat n =
     (if n < 10 then [''0123456789'' ! n]
      else str_nat (n div 10) @ [''0123456789'' ! (n mod 10)])"
  by pat_completeness auto
termination
  by (relation "measure (\<lambda>n. n)") auto

declare str_nat.simps [simp del]

text \<open>
  One line of the error message for the dependency at position \<open>index\<close> (from 0).
  Python's \<open>repr()\<close> of a string is the parameter \<open>repr_of\<close>.
\<close>

definition dependency_line :: "(string \<Rightarrow> string) \<Rightarrow> nat \<Rightarrow> dependency \<Rightarrow> string" where
  "dependency_line repr_of index d =
     (case dep_service d of
        None \<Rightarrow>
          str_nat (index + 1) @ '') '' @ repr_of (dep_datastore d) @ '' Datastore'' @ [CHR 0x0A]
      | Some name \<Rightarrow>
          if name \<noteq> []
          then str_nat (index + 1) @ '') '' @ repr_of name @ '' Service'' @ [CHR 0x0A]
          else str_nat (index + 1) @ '') '' @ repr_of (dep_datastore d) @ '' Datastore'' @ [CHR 0x0A])"

fun dependency_lines :: "(string \<Rightarrow> string) \<Rightarrow> nat \<Rightarrow> dependency list \<Rightarrow> string" where
  "dependency_lines repr_of index [] = []"
| "dependency_lines repr_of index (d # ds) =
     dependency_line repr_of index d @ dependency_lines repr_of (Suc index) ds"

definition EBUSY :: int where
  "EBUSY = 16"

definition check_dependencies ::
  "(string \<Rightarrow> string) \<Rightarrow> error + (string \<times> service_info) list \<Rightarrow> error + (string \<times> string) list \<Rightarrow>
   (string \<Rightarrow> pyval \<Rightarrow> error + pyval list) \<Rightarrow> (string \<Rightarrow> pyval \<Rightarrow> error + pyval) \<Rightarrow>
   pyval \<Rightarrow> string set \<Rightarrow> error + unit" where
  "check_dependencies repr_of get_services get_backrefs ds_query svc_query ident ignored =
     (case get_dependencies get_services get_backrefs ds_query svc_query ident ignored of
        Inl e \<Rightarrow> Inl e
      | Inr dependencies \<Rightarrow>
          if dependencies \<noteq> []
          then Inl (CallError
                  (''This object is being used by following service(s):'' @ [CHR 0x0A] @
                   dependency_lines repr_of 0 (map snd dependencies))
                  (Some EBUSY)
                  (Some (PDict [(''dependencies'',
                           PList (map (\<lambda>kv. dependency_val (snd kv)) dependencies))])))
          else Inr ())"

text \<open>
  A back-reference \<open>(ds, fk)\<close> counts as a dependency of the entry \<open>ident\<close>: neither the
  datastore nor the service registered for it is ignored, and the datastore holds a row
  whose foreign key is \<open>ident\<close>.
\<close>

definition referencing ::
  "(string \<Rightarrow> pyval \<Rightarrow> error + pyval list) \<Rightarrow> (string \<times> string \<times> service_info) list \<Rightarrow>
   string set \<Rightarrow> pyval \<Rightarrow> string \<Rightarrow> string \<Rightarrow> bool" where
  "referencing ds_query services ignored ident ds fk \<longleftrightarrow>
     ds \<notin> ignored \<and>
     (case map_of services ds of None \<Rightarrow> True | Some (name, svc) \<Rightarrow> name \<notin> ignored) \<and>
     (case ds_query ds (PList [PTuple [PStr fk, PStr ''='', ident]]) of
        Inl e \<Rightarrow> False | Inr objects \<Rightarrow> objects \<noteq> [])"

text \<open>The name a dependency goes by in the error message.\<close>

definition dependency_label :: "dependency \<Rightarrow> string" where
  "dependency_label d =
     (case dep_service d of
        None \<Rightarrow> dep_datastore d
      | Some name \<Rightarrow> if name \<noteq> [] then name else dep_datastore d)"

section \<open>ConfigService\<close>

text \<open>
  \<open>_get_or_insert\<close>: the read is \<open>datastore.config\<close>, which raises \<open>IndexError\<close> when the
  table has no row. Only \<open>IndexError\<close> is caught. Taking and leaving the module-level
  \<open>get_or_insert_lock\<close> is recorded in the trace.
\<close>

definition get_or_insert ::
  "(string \<Rightarrow> pyval list \<Rightarrow> 'w \<Rightarrow> (error + pyval) \<times> 'w) \<Rightarrow> pyval \<Rightarrow> pyval \<Rightarrow>
     ('w, 'z) mw_scheme \<Rightarrow> (error + pyval) \<times> ('w, 'z) mw_scheme" where
  "get_or_insert callee ds options s =
     (case mw_call callee ''datastore.config'' [ds, options] s of
        (Inl IndexError, s1) \<Rightarrow>
          (let s2 = s1\<lparr>trace := trace s1 @ [Acquire ''get_or_insert_lock'']\<rparr> in
           case mw_call callee ''datastore.config'' [ds, options] s2 of
             (Inl IndexError, s3) \<Rightarrow>
               (case mw_call callee ''datastore.insert'' [ds, PDict []] s3 of
                  (Inl e, s4) \<Rightarrow>
                    (Inl e, s4\<lparr>trace := trace s4 @ [Release ''get_or_insert_lock'']\<rparr>)
                | (Inr inserted, s4) \<Rightarrow>
                    (case mw_call callee ''datastore.config'' [ds, options] s4 of
                       (r, s5) \<Rightarrow>
                         (r, s5\<lparr>trace := trace s5 @ [Release ''get_or_insert_lock'']\<rparr>)))
           | (r, s3) \<Rightarrow> (r, s3\<lparr>trace := trace s3 @ [Release ''get_or_insert_lock'']\<rparr>))
      | (r, s1) \<Rightarrow> (r, s1))"

definition config_service_config ::
  "(string \<Rightarrow> pyval list \<Rightarrow> 'w \<Rightarrow> (error + pyval) \<times> 'w) \<Rightarrow> config \<Rightarrow>
     ('w, 'z) mw_scheme \<Rightarrow> (error + pyval) \<times> ('w, 'z) mw_scheme" where
  "config_service_config callee cfg s =
     get_or_insert callee (opt_str (datastore cfg))
       (PDict [(''extend'', opt_str (datastore_extend cfg)),
               (''extend_context'', opt_str (datastore_extend_context cfg)),
               (''prefix'', opt_str (datastore_prefix cfg))]) s"

subsection \<open>Concurrent first access\<close>

text \<open>
  Several coroutines run \<open>config\<close>, hence \<open>_get_or_insert\<close>, against one table. The event
  loop switches coroutines only at an \<open>await\<close>, so a caller's program counter names the
  await it is about to make: the first read, the wait for \<open>get_or_insert_lock\<close>, the
  second read, the insert, the third read. Leaving the \<open>async with\<close> block releases the
  lock in the same step as the read that ends the block.
\<close>

datatype pc = Read1 | WaitLock | Read2 | Insert | Read3 | Done | Failed

text \<open>
  Modelled from the spec: the datastore, a collaborator whose code is not part of the
  files at hand. \<open>datastore.config\<close> raises not-found (\<open>IndexError\<close>) exactly when the
  table has no row, and \<open>datastore.insert\<close> adds one row. The state is the number of rows,
  the number of inserts made, the holder of the lock and the callers' program counters.
\<close>

record callers =
  n_rows :: nat
  n_inserts :: nat
  lock_holder :: "nat option"
  pcs :: "pc list"

definition first_access :: "nat \<Rightarrow> callers" where
  "first_access n = \<lparr>n_rows = 0, n_inserts = 0, lock_holder = None, pcs = replicate n Read1\<rparr>"

text \<open>One step of caller \<open>i\<close>; a caller that cannot move (done, or waiting for a held lock) stays.\<close>

definition caller_step :: "nat \<Rightarrow> callers \<Rightarrow> callers" where
  "caller_step i s =
     (if i < length (pcs s)
      then (case pcs s ! i of
              Read1 \<Rightarrow>
                if n_rows s = 0 then s\<lparr>pcs := (pcs s)[i := WaitLock]\<rparr>
                else s\<lparr>pcs := (pcs s)[i := Done]\<rparr>
            | WaitLock \<Rightarrow>
                if lock_holder s = None
                then s\<lparr>lock_holder := Some i, pcs := (pcs s)[i := Read2]\<rparr>
                else s
            | Read2 \<Rightarrow>
                if n_rows s = 0 then s\<lparr>pcs := (pcs s)[i := Insert]\<rparr>
                else s\<lparr>lock_holder := None, pcs := (pcs s)[i := Done]\<rparr>
            | Insert \<Rightarrow>
                s\<lparr>n_rows := n_rows s + 1, n_inserts := n_inserts s + 1, pcs := (pcs s)[i := Read3]\<rparr>
            | Read3 \<Rightarrow>
                if n_rows s = 0 then s\<lparr>lock_holder := None, pcs := (pcs s)[i := Failed]\<rparr>
                else s\<lparr>lock_holder := None, pcs := (pcs s)[i := Done]\<rparr>
            | Done \<Rightarrow> s
            | Failed \<Rightarrow> s)
      else s)"

text \<open>A schedule is the order in which the event loop lets the callers step.\<close>

fun run_schedule :: "nat list \<Rightarrow> callers \<Rightarrow> callers" where
  "run_schedule [] s = s"
| "run_schedule (i # sched) s = run_schedule sched (caller_step i s)"

section \<open>Services on a replicated store\<close>

subsection \<open>Class attributes, instance state and collaborators\<close>

text \<open>The version stamp \<open>{"major": ..., "minor": ...}\<close>.\<close>

record version =
  major :: int
  minor :: int

definition version_val :: "version \<Rightarrow> pyval" where
  "version_val v = PDict [(''major'', PInt (major v)), (''minor'', PInt (minor v))]"

text \<open>
  The class attributes of \<open>TDBWrapConfigService\<close> and \<open>TDBWrapCRUDService\<close>;
  \<open>is_clustered_fn = None\<close> stands for \<open>NotImplemented\<close>.
\<close>

record tdb_class =
  service_version :: version
  tdb_defaults :: pyval
  cluster_healthy_fn :: string
  is_clustered_fn :: "string option"
  time_offset :: real
  tdb_options :: pyval

text \<open>The instance attributes \<open>status\<close> and \<open>last_check\<close> join the middleware state.\<close>

record 'w tdb = "'w mw" +
  status :: pyval
  last_check :: real

text \<open>What \<open>tdb.config\<close> and \<open>tdb.query\<close> return: \<open>{"version": ..., "data": ...}\<close>.\<close>

record tdb_payload =
  pversion :: "version option"
  pdata :: pyval

text \<open>
  The collaborators: \<open>middleware.call\<close> for methods that return a plain value, the same
  for the two reads of the replicated backend, and the clock \<open>time.monotonic()\<close>, which
  is read off the world.
\<close>

record 'w env =
  env_call :: "string \<Rightarrow> pyval list \<Rightarrow> 'w \<Rightarrow> (error + pyval) \<times> 'w"
  env_fetch :: "string \<Rightarrow> pyval list \<Rightarrow> 'w \<Rightarrow> (error + tdb_payload) \<times> 'w"
  env_clock :: "'w \<Rightarrow> real"

subsection \<open>Health probes\<close>

text \<open>\<open>is_clustered\<close>, with \<open>_default_cluster_check\<close> inlined.\<close>

definition is_clustered ::
  "'w env \<Rightarrow> tdb_class \<Rightarrow> 'w tdb \<Rightarrow> (error + pyval) \<times> 'w tdb" where
  "is_clustered env cls s =
     (case is_clustered_fn cls of
        None \<Rightarrow>
          (case mw_call (env_call env) ''smb.get_smb_ha_mode'' [] s of
             (Inl e, s1) \<Rightarrow> (Inl e, s1)
           | (Inr ha_mode, s1) \<Rightarrow> (Inr (PBool (ha_mode = PStr ''CLUSTERED'')), s1))
      | Some fn \<Rightarrow> mw_call (env_call env) fn [] s)"

text \<open>\<open>cluster_healthy\<close>: the cached status, or a probe whose failure counts as unhealthy.\<close>

definition cluster_healthy ::
  "'w env \<Rightarrow> config \<Rightarrow> tdb_class \<Rightarrow> 'w tdb \<Rightarrow> pyval \<times> 'w tdb" where
  "cluster_healthy env cfg cls s =
     (let now = env_clock env (world s) in
      if last_check s + time_offset cls > now then (status s, s)
      else
        (case mw_call (env_call env) (cluster_healthy_fn cls) [] s of
           (Inl e, s1) \<Rightarrow>
             (PBool False,
              (log_msg ''warning'' ''%s: cluster health check [%s] failed.''
                 [PStr (namespace cfg), PStr (cluster_healthy_fn cls)] s1)
                \<lparr>status := PBool False, last_check := now\<rparr>)
         | (Inr st, s1) \<Rightarrow> (st, s1\<lparr>status := st, last_check := now\<rparr>)))"

text \<open>
  \<open>db_healthy\<close>. The two classes differ in the name they pass to \<open>tdb.health\<close>: the
  Config class passes \<open>_config.service\<close>, the CRUD class \<open>_config.namespace\<close> (the
  parameter \<open>name\<close>).
\<close>

definition db_healthy ::
  "'w env \<Rightarrow> config \<Rightarrow> tdb_class \<Rightarrow> pyval \<Rightarrow> 'w tdb \<Rightarrow> bool \<times> 'w tdb" where
  "db_healthy env cfg cls name s =
     (case mw_call (env_call env) ''tdb.health''
             [PDict [(''name'', name), (''tdb-options'', tdb_options cls)]] s of
        (Inl e, s1) \<Rightarrow>
          (False, log_msg ''warning'' ''%s: ctdb volume health status check failed.''
                    [opt_str (service cfg)] s1)
      | (Inr health, s1) \<Rightarrow>
          if health = PStr ''OK'' then (True, s1)
          else (False, log_msg ''warning'' ''%s: health status is [%s] returning default value''
                         [opt_str (service cfg), health] s1))"

text \<open>
  The condition \<open>not await self.cluster_healthy() and not await self.db_healthy()\<close> of the
  read paths: \<open>db_healthy\<close> runs only if \<open>cluster_healthy\<close> returned a falsy value.
\<close>

definition reads_unhealthy ::
  "'w env \<Rightarrow> config \<Rightarrow> tdb_class \<Rightarrow> pyval \<Rightarrow> 'w tdb \<Rightarrow> bool \<times> 'w tdb" where
  "reads_unhealthy env cfg cls name s =
     (case cluster_healthy env cfg cls s of
        (h, s1) \<Rightarrow>
          if truthy h then (False, s1)
          else (case db_healthy env cfg cls name s1 of (ok, s2) \<Rightarrow> (\<not> ok, s2)))"

subsection \<open>TDBWrapConfigService\<close>

text \<open>
  The tail shared by the read and the write path: the data is returned as it is, or
  passed through the extend transform when one is registered.
\<close>

definition through_extend ::
  "'w env \<Rightarrow> config \<Rightarrow> pyval \<Rightarrow> 'w tdb \<Rightarrow> (error + pyval) \<times> 'w tdb" where
  "through_extend env cfg data s =
     (case datastore_extend cfg of
        None \<Rightarrow> (Inr data, s)
      | Some ext \<Rightarrow> if ext = [] then (Inr data, s) else mw_call (env_call env) ext [data] s)"

text \<open>
  \<open>config\<close>, in two parts: \<open>tdbwrap_config_read\<close> is the body after the health gate (from
  the \<open>tdb.config\<close> call on), \<open>tdbwrap_config\<close> the whole method. In this model of
  immutable values \<open>copy.deepcopy(self.tdb_defaults)\<close> is the value \<open>tdb_defaults\<close>.
\<close>

definition tdbwrap_config_read ::
  "'w env \<Rightarrow> config \<Rightarrow> tdb_class \<Rightarrow> 'w tdb \<Rightarrow> (error + pyval) \<times> 'w tdb" where
  "tdbwrap_config_read env cfg cls s =
     (case mw_call (env_fetch env) ''tdb.config''
             [PDict [(''name'', opt_str (service cfg)), (''tdb-options'', tdb_options cls)]] s of
        (Inl e, s1) \<Rightarrow> (Inl e, s1)
      | (Inr tdb_config, s1) \<Rightarrow>
          let data = (if pdata tdb_config = PNone then tdb_defaults cls else pdata tdb_config)
          in if pversion tdb_config \<noteq> None \<and> Some (service_version cls) \<noteq> pversion tdb_config
             then through_extend env cfg (tdb_defaults cls)
                    (log_msg ''error''
                       (''%s: Service version mismatch. Service update migration is required. '' @
                        ''Returning default values.'')
                       [PStr (namespace cfg)] s1)
             else through_extend env cfg data s1)"

definition tdbwrap_config ::
  "'w env \<Rightarrow> config \<Rightarrow> tdb_class \<Rightarrow> 'w tdb \<Rightarrow> (error + pyval) \<times> 'w tdb" where
  "tdbwrap_config env cfg cls s =
     (case is_clustered env cls s of
        (Inl e, s1) \<Rightarrow> (Inl e, s1)
      | (Inr clustered, s1) \<Rightarrow>
          if \<not> truthy clustered then config_service_config (env_call env) cfg s1
          else
            (case reads_unhealthy env cfg cls (opt_str (service cfg)) s1 of
               (True, s2) \<Rightarrow> (Inr (tdb_defaults cls), s2)
             | (False, s2) \<Rightarrow> tdbwrap_config_read env cfg cls s2))"

text \<open>Decimal digits of an integer, as an f-string prints it.\<close>

definition str_int :: "int \<Rightarrow> string" where
  "str_int i = (if i < 0 then ''-'' @ str_nat (nat (- i)) else str_nat (nat i))"

text \<open>\<open>new.update(data)\<close>: only a dictionary has the method.\<close>

definition py_dict_update :: "pyval \<Rightarrow> (string \<times> pyval) list \<Rightarrow> error + pyval" where
  "py_dict_update new data =
     (case new of
        PDict kvs \<Rightarrow> Inr (PDict (fold (\<lambda>kv. dict_set (fst kv) (snd kv)) data kvs))
      | _ \<Rightarrow> Inl AttributeError)"

definition unhealthy_error :: error where
  "unhealthy_error =
     CallError ''Clustered configuration may not be altered while cluster is unhealthy.'' None None"

text \<open>
  \<open>direct_update\<close> of the Config class; \<open>data\<close> is the dictionary of fields. The message
  of the version error subscripts \<open>version\<close>, which raises \<open>TypeError\<close> when the backend
  stored no version.
\<close>

definition tdbwrap_config_direct_update ::
  "'w env \<Rightarrow> config \<Rightarrow> tdb_class \<Rightarrow> (string \<times> pyval) list \<Rightarrow> 'w tdb \<Rightarrow>
     (error + pyval) \<times> 'w tdb" where
  "tdbwrap_config_direct_update env cfg cls data s =
     (case is_clustered env cls s of
        (Inl e, s1) \<Rightarrow> (Inl e, s1)
      | (Inr clustered, s1) \<Rightarrow>
          if \<not> truthy clustered
          then
            (case mw_call (env_call env) ''datastore.update''
                    [opt_str (datastore cfg),
                     (case map_of data ''id'' of None \<Rightarrow> PInt 1 | Some i \<Rightarrow> i),
                     PDict (dict_pop ''id'' data),
                     PDict [(''prefix'', opt_str (datastore_prefix cfg))]] s1 of
               (Inl e, s2) \<Rightarrow> (Inl e, s2)
             | (Inr updated, s2) \<Rightarrow> tdbwrap_config env cfg cls s2)
          else
            (case cluster_healthy env cfg cls s1 of
               (h, s2) \<Rightarrow>
                 if \<not> truthy h then (Inl unhealthy_error, s2)
                 else
                   (case mw_call (env_fetch env) ''tdb.config''
                           [PDict [(''name'', opt_str (service cfg)),
                                   (''tdb-options'', tdb_options cls)]] s2 of
                      (Inl e, s3) \<Rightarrow> (Inl e, s3)
                    | (Inr old, s3) \<Rightarrow>
                        (case py_dict_update
                                (if pdata old = PNone then tdb_defaults cls else pdata old) data of
                           Inl e \<Rightarrow> (Inl e, s3)
                         | Inr new \<Rightarrow>
                             (case mw_call (env_call env) ''tdb.config_update''
                                     [PDict [(''name'', opt_str (service cfg)),
                                             (''payload'',
                                              PDict [(''version'', version_val (service_version cls)),
                                                     (''data'', new)]),
                                             (''tdb-options'', tdb_options cls)]] s3 of
                                (Inl ValueError, s4) \<Rightarrow>
                                  (case pversion old of
                                     None \<Rightarrow> (Inl TypeError, s4)
                                   | Some v \<Rightarrow>
                                       (Inl (CallError
                                          (namespace cfg @ '': service version mismatch. '' @
                                           ''Node: '' @ str_int (major (service_version cls)) @ ''.'' @
                                           str_int (minor (service_version cls)) @
                                           ''cluster: '' @ str_int (major v) @ ''.'' @
                                           str_int (minor v))
                                          None None), s4))
                              | (Inl e, s4) \<Rightarrow> (Inl e, s4)
                              | (Inr written, s4) \<Rightarrow>
                                  (case mw_call (env_fetch env) ''tdb.config''
                                          [PDict [(''name'', opt_str (service cfg)),
                                                  (''tdb-options'', tdb_options cls)]] s4 of
                                     (Inl e, s5) \<Rightarrow> (Inl e, s5)
                                   | (Inr tdb_config, s5) \<Rightarrow>
                                       through_extend env cfg (pdata tdb_config) s5))))))"

subsection \<open>TDBWrapCRUDService\<close>

text \<open>What a \<open>for\<close> loop iterates over: the elements, the keys of a dictionary, the characters.\<close>

fun py_iter :: "pyval \<Rightarrow> error + pyval list" where
  "py_iter (PList xs) = Inr xs"
| "py_iter (PTuple xs) = Inr xs"
| "py_iter (PDict kvs) = Inr (map (\<lambda>kv. PStr (fst kv)) kvs)"
| "py_iter (PStr cs) = Inr (map (\<lambda>c. PStr [c]) cs)"
| "py_iter PNone = Inl TypeError"
| "py_iter (PBool b) = Inl TypeError"
| "py_iter (PInt i) = Inl TypeError"

text \<open>
  \<open>insert_defaults\<close>: one \<open>SET\<close> operation per default entry, keyed by namespace and id,
  sent in one \<open>tdb.batch_ops\<close> call. Python's \<open>str()\<close> is the parameter \<open>str_of\<close>.
\<close>

definition default_op :: "(pyval \<Rightarrow> string) \<Rightarrow> config \<Rightarrow> pyval \<Rightarrow> error + pyval" where
  "default_op str_of cfg entry =
     (case py_item entry ''id'' of
        Inl e \<Rightarrow> Inl e
      | Inr i \<Rightarrow>
          (case entry of
             PDict kvs \<Rightarrow>
               Inr (PDict [(''action'', PStr ''SET''),
                           (''key'', PStr (namespace cfg @ ''_'' @ str_of i)),
                           (''val'', PDict (dict_pop ''id'' kvs))])
           | _ \<Rightarrow> Inl AttributeError))"

definition insert_defaults ::
  "'w env \<Rightarrow> (pyval \<Rightarrow> string) \<Rightarrow> config \<Rightarrow> tdb_class \<Rightarrow> 'w tdb \<Rightarrow> (error + unit) \<times> 'w tdb" where
  "insert_defaults env str_of cfg cls s =
     (case py_iter (tdb_defaults cls) of
        Inl e \<Rightarrow> (Inl e, s)
      | Inr entries \<Rightarrow>
          (case map_raise (default_op str_of cfg) entries of
             Inl e \<Rightarrow> (Inl e, s)
           | Inr payload \<Rightarrow>
               (case mw_call (env_call env) ''tdb.batch_ops''
                       [PDict [(''name'', PStr (namespace cfg)), (''ops'', PList payload),
                               (''tdb-options'', tdb_options cls)]] s of
                  (Inl e, s1) \<Rightarrow> (Inl e, s1)
                | (Inr done, s1) \<Rightarrow> (Inr (), s1))))"

text \<open>The loop that passes every stored entry through the extend transform.\<close>

fun extend_all ::
  "'w env \<Rightarrow> string \<Rightarrow> pyval list \<Rightarrow> 'w tdb \<Rightarrow> (error + pyval list) \<times> 'w tdb" where
  "extend_all env ext [] s = (Inr [], s)"
| "extend_all env ext (entry # entries) s =
     (case mw_call (env_call env) ext [entry] s of
        (Inl e, s1) \<Rightarrow> (Inl e, s1)
      | (Inr extended, s1) \<Rightarrow>
          (case extend_all env ext entries s1 of
             (Inl e, s2) \<Rightarrow> (Inl e, s2)
           | (Inr rest, s2) \<Rightarrow> (Inr (extended # rest), s2)))"

text \<open>
  \<open>query\<close>, in two parts: \<open>tdbwrap_query_read\<close> is the body after the health gate (from
  the \<open>tdb.query\<close> call on), \<open>tdbwrap_query\<close> the whole method.
\<close>

definition tdbwrap_query_read ::
  "'w env \<Rightarrow> (pyval \<Rightarrow> pyval \<Rightarrow> pyval \<Rightarrow> error + pyval) \<Rightarrow> (pyval \<Rightarrow> string) \<Rightarrow> config \<Rightarrow>
   tdb_class \<Rightarrow> pyval \<Rightarrow> pyval \<Rightarrow> 'w tdb \<Rightarrow> (error + pyval) \<times> 'w tdb" where
  "tdbwrap_query_read env filter_list str_of cfg cls filters options s =
     (case mw_call (env_fetch env) ''tdb.query''
             [PDict [(''name'', PStr (namespace cfg)), (''tdb-options'', tdb_options cls)]] s of
        (Inl e, s1) \<Rightarrow> (Inl e, s1)
      | (Inr res, s1) \<Rightarrow>
          if pdata res = PNone then (Inr (tdb_defaults cls), s1)
          else if pversion res \<noteq> None \<and> Some (service_version cls) \<noteq> pversion res
          then (Inr (tdb_defaults cls),
                log_msg ''error''
                  (''%s: Service version mismatch. Service update migration is required. '' @
                   ''Returning default values.'')
                  [PStr (namespace cfg)] s1)
          else
            (case datastore_extend cfg of
               None \<Rightarrow> (filter_list (pdata res) filters options, s1)
             | Some ext \<Rightarrow>
                 if ext = [] then (filter_list (pdata res) filters options, s1)
                 else
                   (case py_iter (pdata res) of
                      Inl e \<Rightarrow> (Inl e, s1)
                    | Inr entries \<Rightarrow>
                        (case extend_all env ext entries s1 of
                           (Inl e, s2) \<Rightarrow> (Inl e, s2)
                         | (Inr to_filter, s2) \<Rightarrow>
                             if to_filter = [] \<and> truthy (tdb_defaults cls)
                             then
                               (case insert_defaults env str_of cfg cls s2 of
                                  (Inl e, s3) \<Rightarrow> (Inl e, s3)
                                | (Inr u, s3) \<Rightarrow>
                                    (filter_list (tdb_defaults cls) filters options, s3))
                             else (filter_list (PList to_filter) filters options, s2)))))"

definition tdbwrap_query ::
  "'w env \<Rightarrow> (pyval \<Rightarrow> pyval \<Rightarrow> pyval \<Rightarrow> error + pyval) \<Rightarrow> (pyval \<Rightarrow> string) \<Rightarrow> config \<Rightarrow>
   tdb_class \<Rightarrow> pyval \<Rightarrow> pyval \<Rightarrow> 'w tdb \<Rightarrow> (error + pyval) \<times> 'w tdb" where
  "tdbwrap_query env filter_list str_of cfg cls filters options s =
     (case is_clustered env cls s of
        (Inl e, s1) \<Rightarrow> (Inl e, s1)
      | (Inr clustered, s1) \<Rightarrow>
          if \<not> truthy clustered then query (env_call env) filter_list cfg filters options s1
          else
            (case reads_unhealthy env cfg cls (PStr (namespace cfg)) s1 of
               (True, s2) \<Rightarrow> (Inr (tdb_defaults cls), s2)
             | (False, s2) \<Rightarrow>
                 tdbwrap_query_read env filter_list str_of cfg cls filters options s2))"

text \<open>The version error of the CRUD class names the node's version only.\<close>

definition node_version_error :: "config \<Rightarrow> tdb_class \<Rightarrow> error" where
  "node_version_error cfg cls =
     CallError (namespace cfg @ '': service version mismatch. '' @
                ''Node: '' @ str_int (major (service_version cls)) @ ''.'' @
                str_int (minor (service_version cls))) None None"

definition tdbwrap_direct_create ::
  "'w env \<Rightarrow> config \<Rightarrow> tdb_class \<Rightarrow> pyval \<Rightarrow> 'w tdb \<Rightarrow> (error + pyval) \<times> 'w tdb" where
  "tdbwrap_direct_create env cfg cls data s =
     (case is_clustered env cls s of
        (Inl e, s1) \<Rightarrow> (Inl e, s1)
      | (Inr clustered, s1) \<Rightarrow>
          if \<not> truthy clustered
          then mw_call (env_call env) ''datastore.insert''
                 [opt_str (datastore cfg), data,
                  PDict [(''prefix'', opt_str (datastore_prefix cfg))]] s1
          else
            (case cluster_healthy env cfg cls s1 of
               (h, s2) \<Rightarrow>
                 if \<not> truthy h then (Inl unhealthy_error, s2)
                 else
                   (case mw_call (env_call env) ''tdb.create''
                           [PDict [(''name'', PStr (namespace cfg)),
                                   (''payload'',
                                    PDict [(''version'', version_val (service_version cls)),
                                           (''data'', data)]),
                                   (''tdb-options'', tdb_options cls)]] s2 of
                      (Inl ValueError, s3) \<Rightarrow> (Inl (node_version_error cfg cls), s3)
                    | (r, s3) \<Rightarrow> (r, s3))))"

definition tdbwrap_direct_update ::
  "'w env \<Rightarrow> config \<Rightarrow> tdb_class \<Rightarrow> pyval \<Rightarrow> pyval \<Rightarrow> 'w tdb \<Rightarrow> (error + pyval) \<times> 'w tdb" where
  "tdbwrap_direct_update env cfg cls ident data s =
     (case is_clustered env cls s of
        (Inl e, s1) \<Rightarrow> (Inl e, s1)
      | (Inr clustered, s1) \<Rightarrow>
          if \<not> truthy clustered
          then mw_call (env_call env) ''datastore.update''
                 [opt_str (datastore cfg), ident, data,
                  PDict [(''prefix'', opt_str (datastore_prefix cfg))]] s1
          else
            (case cluster_healthy env cfg cls s1 of
               (h, s2) \<Rightarrow>
                 if \<not> truthy h then (Inl unhealthy_error, s2)
                 else
                   (case mw_call (env_call env) ''tdb.update''
                           [PDict [(''name'', PStr (namespace cfg)),
                                   (''id'', ident),
                                   (''payload'',
                                    PDict [(''version'', version_val (service_version cls)),
                                           (''data'', data)]),
                                   (''tdb-options'', tdb_options cls)]] s2 of
                      (Inl ValueError, s3) \<Rightarrow> (Inl (node_version_error cfg cls), s3)
                    | (r, s3) \<Rightarrow> (r, s3))))"

definition tdbwrap_direct_delete ::
  "'w env \<Rightarrow> config \<Rightarrow> tdb_class \<Rightarrow> pyval \<Rightarrow> 'w tdb \<Rightarrow> (error + pyval) \<times> 'w tdb" where
  "tdbwrap_direct_delete env cfg cls ident s =
     (case is_clustered env cls s of
        (Inl e, s1) \<Rightarrow> (Inl e, s1)
      | (Inr clustered, s1) \<Rightarrow>
          if \<not> truthy clustered
          then mw_call (env_call env) ''datastore.delete'' [opt_str (datastore cfg), ident] s1
          else
            (case cluster_healthy env cfg cls s1 of
               (h, s2) \<Rightarrow>
                 if \<not> truthy h then (Inl unhealthy_error, s2)
                 else
                   mw_call (env_call env) ''tdb.delete''
                     [PDict [(''name'', PStr (namespace cfg)),
                             (''id'', ident),
                             (''tdb-options'', tdb_options cls)]] s2))"

section \<open>Jobs\<close>

subsection \<open>The job decorator\<close>

text \<open>
  \<open>job(...)\<close> records its arguments on the method as the dictionary \<open>_job\<close>. The lock is
  a constant string or a callable on the job's arguments; \<open>lock_queue_size = None\<close> means
  an unbounded wait queue; \<open>pipes or []\<close> turns a missing list into the empty one.
\<close>

datatype lock_spec = LockName string | LockFn "pyval list \<Rightarrow> string"

record job_options =
  lock :: "lock_spec option"
  lock_queue_size :: "int option"
  logs :: bool
  process :: bool
  pipes :: "string list"
  check_pipes :: bool
  transient :: bool
  description :: "(pyval list \<Rightarrow> string) option"
  abortable :: bool

definition job ::
  "lock_spec option \<Rightarrow> int option \<Rightarrow> bool \<Rightarrow> bool \<Rightarrow> string list option \<Rightarrow> bool \<Rightarrow> bool \<Rightarrow>
   (pyval list \<Rightarrow> string) option \<Rightarrow> bool \<Rightarrow> job_options" where
  "job lock_arg lock_queue_size_arg logs_arg process_arg pipes_arg check_pipes_arg transient_arg
       description_arg abortable_arg =
     \<lparr>lock = lock_arg,
      lock_queue_size = lock_queue_size_arg,
      logs = logs_arg,
      process = process_arg,
      pipes = (case pipes_arg of None \<Rightarrow> [] | Some ps \<Rightarrow> ps),
      check_pipes = check_pipes_arg,
      transient = transient_arg,
      description = description_arg,
      abortable = abortable_arg\<rparr>"

subsection \<open>Admission of a job\<close>

text \<open>
  Modelled from the spec: the job scheduler (\<open>middlewared.job\<close>), which reads the
  \<open>_job\<close> options and is not part of the files at hand. A job has an id, a lock name and
  a state; a lock has a holder and a FIFO wait queue of job ids, and is created free on
  first reference.
\<close>

datatype job_state = WAITING | RUNNING | SUCCESS | FAILED | ABORTED

record job_entry =
  job_id :: nat
  job_method :: string
  job_args :: "pyval list"
  job_lock :: "string option"
  job_state :: job_state

record lock_entry =
  holder :: "nat option"
  wait_queue :: "nat list"

record scheduler =
  next_id :: nat
  job_table :: "job_entry list"
  lock_table :: "string \<Rightarrow> lock_entry"

definition empty_scheduler :: scheduler where
  "empty_scheduler =
     \<lparr>next_id = 1, job_table = [], lock_table = (\<lambda>l. \<lparr>holder = None, wait_queue = []\<rparr>)\<rparr>"

text \<open>The lock a call of the method asks for.\<close>

definition lock_name :: "job_options \<Rightarrow> pyval list \<Rightarrow> string option" where
  "lock_name opts args =
     (case lock opts of
        None \<Rightarrow> None
      | Some (LockName l) \<Rightarrow> Some l
      | Some (LockFn f) \<Rightarrow> Some (f args))"

definition new_job :: "string \<Rightarrow> pyval list \<Rightarrow> string option \<Rightarrow> job_state \<Rightarrow> scheduler \<Rightarrow> scheduler" where
  "new_job method args l st sched =
     sched\<lparr>next_id := next_id sched + 1,
           job_table := job_table sched @
             [\<lparr>job_id = next_id sched, job_method = method, job_args = args, job_lock = l,
               job_state = st\<rparr>]\<rparr>"

text \<open>
  Modelled from the spec: a job with no lock runs at once; a job whose lock is free
  claims it and runs; a job whose lock is held and whose wait queue has reached the
  declared maximum length is not created, and the id of the job at the tail of the
  queue is returned; otherwise the job is created waiting, at the end of the queue. The
  spec names no id for a full queue that is empty (maximum length 0): then no id is
  returned.
\<close>

definition submit ::
  "job_options \<Rightarrow> string \<Rightarrow> pyval list \<Rightarrow> scheduler \<Rightarrow> nat option \<times> scheduler" where
  "submit opts method args sched =
     (case lock_name opts args of
        None \<Rightarrow> (Some (next_id sched), new_job method args None RUNNING sched)
      | Some l \<Rightarrow>
          (case holder (lock_table sched l) of
             None \<Rightarrow>
               (Some (next_id sched),
                (new_job method args (Some l) RUNNING sched)
                  \<lparr>lock_table := (lock_table sched)
                     (l := (lock_table sched l)\<lparr>holder := Some (next_id sched)\<rparr>)\<rparr>)
           | Some h \<Rightarrow>
               if (case lock_queue_size opts of
                     None \<Rightarrow> False
                   | Some n \<Rightarrow> n \<le> int (length (wait_queue (lock_table sched l))))
               then (case wait_queue (lock_table sched l) of
                       [] \<Rightarrow> (None, sched)
                     | q # qs \<Rightarrow> (Some (last (q # qs)), sched))
               else
                 (Some (next_id sched),
                  (new_job method args (Some l) WAITING sched)
                    \<lparr>lock_table := (lock_table sched)
                       (l := (lock_table sched l)
                          \<lparr>wait_queue := wait_queue (lock_table sched l) @ [next_id sched]\<rparr>)\<rparr>)))"

section \<open>Objects and deep copies\<close>

text \<open>
  The sections above treat a payload as an immutable value. Whether a call hands out an
  object that it shares with the class attribute \<open>tdb_defaults\<close> is a question about
  objects, so this section adds the store of mutable objects. A list or a dictionary is
  an object at an address; a tuple, like a number or a string, cannot be written to and
  is a value. The heap is the list of the objects allocated so far, the address of an
  object being its index; allocation appends.
\<close>

datatype hval = HNone | HBool bool | HInt int | HStr string | HTup "hval list" | HRef nat

datatype hobj = HList "hval list" | HDict "(string \<times> hval) list"

type_synonym heap = "hobj list"

text \<open>
  The value that \<open>v\<close> denotes in the heap, read to a bounded depth: \<open>None\<close> when the depth
  is used up, as it is for a structure that contains itself, or when an address is not
  allocated. \<open>value_of\<close> reads to a depth beyond the number of objects of the heap.
\<close>

fun content :: "nat \<Rightarrow> heap \<Rightarrow> hval \<Rightarrow> pyval option" where
  "content fuel h HNone = Some PNone"
| "content fuel h (HBool b) = Some (PBool b)"
| "content fuel h (HInt i) = Some (PInt i)"
| "content fuel h (HStr s) = Some (PStr s)"
| "content fuel h (HTup vs) = map_option PTuple (those (map (content fuel h) vs))"
| "content 0 h (HRef a) = None"
| "content (Suc fuel) h (HRef a) =
     (if a < length h
      then (case h ! a of
              HList vs \<Rightarrow> map_option PList (those (map (content fuel h) vs))
            | HDict kvs \<Rightarrow>
                map_option PDict
                  (those (map (\<lambda>kv. map_option (Pair (fst kv)) (content fuel h (snd kv))) kvs)))
      else None)"

definition value_of :: "heap \<Rightarrow> hval \<Rightarrow> pyval option" where
  "value_of h v = content (Suc (length h)) h v"

text \<open>
  \<open>store\<close> builds a value out of new objects, the parts before the whole, as the
  evaluation of a list or dictionary display does.
\<close>

fun store :: "pyval \<Rightarrow> heap \<Rightarrow> hval \<times> heap"
  and store_list :: "pyval list \<Rightarrow> heap \<Rightarrow> hval list \<times> heap"
  and store_items :: "(string \<times> pyval) list \<Rightarrow> heap \<Rightarrow> (string \<times> hval) list \<times> heap" where
  "store PNone h = (HNone, h)"
| "store (PBool b) h = (HBool b, h)"
| "store (PInt i) h = (HInt i, h)"
| "store (PStr s) h = (HStr s, h)"
| "store (PList xs) h =
     (case store_list xs h of (vs, h1) \<Rightarrow> (HRef (length h1), h1 @ [HList vs]))"
| "store (PTuple xs) h =
     (case store_list xs h of (vs, h1) \<Rightarrow> (HTup vs, h1))"
| "store (PDict kvs) h =
     (case store_items kvs h of (kvs', h1) \<Rightarrow> (HRef (length h1), h1 @ [HDict kvs']))"
| "store_list [] h = ([], h)"
| "store_list (x # xs) h =
     (case store x h of (v, h1) \<Rightarrow>
        (case store_list xs h1 of (vs, h2) \<Rightarrow> (v # vs, h2)))"
| "store_items [] h = ([], h)"
| "store_items (kx # kvs) h =
     (case store (snd kx) h of (v, h1) \<Rightarrow>
        (case store_items kvs h1 of (kvs', h2) \<Rightarrow> ((fst kx, v) # kvs', h2)))"

text \<open>
  \<open>copy.deepcopy\<close> of the standard library, on a structure without cycles: the value
  is read and built again out of new objects; \<open>None\<close> when the structure has no value.
  An object that occurs twice in the original is built once per occurrence here, where
  the library builds it once and shares the copy; the value of the copy and the
  addresses it reaches do not depend on this.
\<close>

definition deepcopy :: "heap \<Rightarrow> hval \<Rightarrow> (hval \<times> heap) option" where
  "deepcopy h v = map_option (\<lambda>t. store t h) (value_of h v)"

subsection \<open>The reads of a replicated store, with their objects\<close>

text \<open>
  \<open>config\<close> of \<open>TDBWrapConfigService\<close> and \<open>query\<close> of \<open>TDBWrapCRUDService\<close> on a
  clustered store, from the health gate on, with the heap threaded through. What the
  probes and the backend read answered is the parameter \<open>gate\<close>: \<open>Unhealthy\<close> when both
  probes fail, \<open>Fetched version data\<close> for the items \<open>version\<close> and \<open>data\<close> of the
  backend's answer, the stamp being \<open>None\<close> when it is falsy; the heap is the one the
  method has before it after these calls. \<open>sv\<close> is \<open>service_version\<close> and \<open>defaults\<close> is
  the object the attribute \<open>tdb_defaults\<close> refers to. The extend method of \<open>config\<close>, and
  the tail of \<open>query\<close> after the version check, are functions on the heap.
\<close>

datatype fetched = Unhealthy | Fetched "version option" hval

definition config_objects ::
  "version \<Rightarrow> hval \<Rightarrow> (hval \<Rightarrow> heap \<Rightarrow> (error + hval) \<times> heap) option \<Rightarrow> fetched \<Rightarrow> heap
   \<Rightarrow> ((error + hval) \<times> heap) option" where
  "config_objects sv defaults extend_fn gate h =
     (case gate of
        Unhealthy \<Rightarrow> map_option (\<lambda>(v, h1). (Inr v, h1)) (deepcopy h defaults)
      | Fetched ver data \<Rightarrow>
          (case (if data = HNone then deepcopy h defaults else Some (data, h)) of
             None \<Rightarrow> None
           | Some (data1, h1) \<Rightarrow>
               (case (if ver \<noteq> None \<and> Some sv \<noteq> ver then deepcopy h1 defaults
                      else Some (data1, h1)) of
                  None \<Rightarrow> None
                | Some (data2, h2) \<Rightarrow>
                    (case extend_fn of
                       None \<Rightarrow> Some (Inr data2, h2)
                     | Some f \<Rightarrow> Some (f data2 h2)))))"

definition query_objects ::
  "version \<Rightarrow> hval \<Rightarrow> (hval \<Rightarrow> heap \<Rightarrow> (error + hval) \<times> heap) \<Rightarrow> fetched \<Rightarrow> heap
   \<Rightarrow> ((error + hval) \<times> heap) option" where
  "query_objects sv defaults rest gate h =
     (case gate of
        Unhealthy \<Rightarrow> map_option (\<lambda>(v, h1). (Inr v, h1)) (deepcopy h defaults)
      | Fetched ver data \<Rightarrow>
          if data = HNone then map_option (\<lambda>(v, h1). (Inr v, h1)) (deepcopy h defaults)
          else if ver \<noteq> None \<and> Some sv \<noteq> ver
          then map_option (\<lambda>(v, h1). (Inr v, h1)) (deepcopy h defaults)
          else Some (rest data h))"

section \<open>Auxiliary notions for the statements\<close>

text \<open>
  The options dictionary after \<open>get_options\<close>, for a caller's dictionary \<open>kvs\<close>.
\<close>

definition query_options :: "config \<Rightarrow> (string \<times> pyval) list \<Rightarrow> (string \<times> pyval) list" where
  "query_options cfg kvs =
     dict_set ''prefix'' (opt_str (datastore_prefix cfg))
       (dict_set ''extend_context'' (opt_str (datastore_extend_context cfg))
         (dict_set ''extend'' (opt_str (datastore_extend cfg)) kvs))"

text \<open>A service configuration used in the worked examples.\<close>

definition sample_config :: config where
  "sample_config =
     \<lparr>namespace = ''user'', datastore = Some ''account.bsdusers'',
      datastore_prefix = Some ''bsdusr_'', datastore_extend = Some ''user.user_extend'',
      datastore_extend_context = None, datastore_primary_key = ''id'', event_send = True,
      service = None, verbose_name = ''User''\<rparr>"

text \<open>
  A run of \<open>cluster_healthy\<close> calls: before each call the world moves on by one of the
  functions \<open>fs\<close> (time passes, the cluster changes). \<open>probe_times\<close> lists the clock
  readings of those calls that invoke the health predicate.
\<close>

fun probe_times ::
  "'w env \<Rightarrow> config \<Rightarrow> tdb_class \<Rightarrow> ('w \<Rightarrow> 'w) list \<Rightarrow> 'w tdb \<Rightarrow> real list" where
  "probe_times env cfg cls [] s = []"
| "probe_times env cfg cls (f # fs) s =
     (if last_check s + time_offset cls > env_clock env (f (world s)) then []
      else [env_clock env (f (world s))]) @
     probe_times env cfg cls fs (snd (cluster_healthy env cfg cls (s\<lparr>world := f (world s)\<rparr>)))"

text \<open>
  A replicated store for the worked examples: the cluster-health predicate raises, the
  local replica is not \<open>OK\<close>, the backend holds data written by version 0.2.
\<close>

definition sample_tdb_class :: tdb_class where
  "sample_tdb_class =
     \<lparr>service_version = \<lparr>major = 0, minor = 1\<rparr>,
      tdb_defaults = PDict [(''enabled'', PBool False)],
      cluster_healthy_fn = ''ctdb.general.healthy'',
      is_clustered_fn = None,
      time_offset = 30,
      tdb_options = PDict [(''cluster'', PBool True), (''tdb_type'', PStr ''CONFIG''),
                           (''read_backoff'', PInt 1),
                           (''service_version'', version_val \<lparr>major = 0, minor = 1\<rparr>)]\<rparr>"

definition down_env :: "real env" where
  "down_env =
     \<lparr>env_call = (\<lambda>name args w.
        (if name = ''smb.get_smb_ha_mode'' then Inr (PStr ''CLUSTERED'')
         else if name = ''tdb.health'' then Inr (PStr ''PARTITIONED'')
         else Inl (OtherException ''no reply''), w)),
      env_fetch = (\<lambda>name args w.
        (Inr \<lparr>pversion = Some \<lparr>major = 0, minor = 2\<rparr>,
              pdata = PDict [(''enabled'', PBool True)]\<rparr>, w)),
      env_clock = (\<lambda>w. w)\<rparr>"

text \<open>
  The actions of the health gate: the topology probe, the cluster-health probe and the
  warning logged when that probe raises. None of them is a write to a backend.
\<close>

definition is_clustered_probe :: "tdb_class \<Rightarrow> action" where
  "is_clustered_probe cls =
     Call (case is_clustered_fn cls of None \<Rightarrow> ''smb.get_smb_ha_mode'' | Some fn \<Rightarrow> fn) []"

definition health_actions :: "config \<Rightarrow> tdb_class \<Rightarrow> action set" where
  "health_actions cfg cls =
     {is_clustered_probe cls,
      Call (cluster_healthy_fn cls) [],
      Log ''warning'' ''%s: cluster health check [%s] failed.''
        [PStr (namespace cfg), PStr (cluster_healthy_fn cls)]}"

text \<open>The error logged by the read paths when the stored version differs.\<close>

definition version_mismatch_log :: "config \<Rightarrow> action" where
  "version_mismatch_log cfg =
     Log ''error''
       (''%s: Service version mismatch. Service update migration is required. '' @
        ''Returning default values.'')
       [PStr (namespace cfg)]"

text \<open>
  A healthy clustered backend for the worked examples: it holds data stamped with
  version 0.2 and rejects writes with \<open>ValueError\<close>; the registered extend transform
  wraps its argument.
\<close>

definition mismatch_env :: "real env" where
  "mismatch_env =
     \<lparr>env_call = (\<lambda>name args w.
        (if name = ''smb.get_smb_ha_mode'' then Inr (PStr ''CLUSTERED'')
         else if name = ''ctdb.general.healthy'' then Inr (PBool True)
         else if name = ''user.user_extend'' then Inr (PDict [(''extended'', PList args)])
         else if name = ''tdb.config_update'' \<or> name = ''tdb.update'' then Inl ValueError
         else Inl (OtherException ''no reply''), w)),
      env_fetch = (\<lambda>name args w.
        (Inr \<lparr>pversion = Some \<lparr>major = 0, minor = 2\<rparr>,
              pdata = PDict [(''enabled'', PBool True)]\<rparr>, w)),
      env_clock = (\<lambda>w. w)\<rparr>"

text \<open>
  The invariant of concurrent first access: rows come from inserts only and there is at
  most one; a caller is between taking and leaving the lock exactly when it holds the
  lock; a caller about to insert sees an empty table; a caller past the insert, or
  done, sees one row; no caller fails.
\<close>

fun in_lock :: "pc \<Rightarrow> bool" where
  "in_lock Read2 = True"
| "in_lock Insert = True"
| "in_lock Read3 = True"
| "in_lock _ = False"

definition callers_inv :: "callers \<Rightarrow> bool" where
  "callers_inv s \<longleftrightarrow>
     n_rows s = n_inserts s \<and> n_inserts s \<le> 1 \<and>
     (\<forall>i < length (pcs s).
        (in_lock (pcs s ! i) \<longleftrightarrow> lock_holder s = Some i) \<and>
        (pcs s ! i = Insert \<longrightarrow> n_rows s = 0) \<and>
        (pcs s ! i = Read3 \<longrightarrow> n_rows s = 1) \<and>
        (pcs s ! i = Done \<longrightarrow> n_rows s = 1) \<and>
        pcs s ! i \<noteq> Failed) \<and>
     (\<forall>h. lock_holder s = Some h \<longrightarrow> h < length (pcs s))"

text \<open>The job options of the scenario: lock \<open>disk:sda\<close>, wait queue of length 1.\<close>

definition disk_job :: job_options where
  "disk_job = job (Some (LockName ''disk:sda'')) (Some 1) False False None True False None False"

text \<open>
  The notions of the statements about deep copies. \<open>fresh_val n v\<close>: every address in
  \<open>v\<close> was allocated at or after \<open>n\<close>. \<open>closed_from n h\<close>: the objects of \<open>h\<close> from
  address \<open>n\<close> on refer to one another only. \<open>fresh_copy h t v h'\<close>: in the heap \<open>h'\<close>,
  which keeps every object of \<open>h\<close> as it was, \<open>v\<close> denotes \<open>t\<close> and reaches only objects
  allocated after \<open>h\<close>.
\<close>

fun obj_values :: "hobj \<Rightarrow> hval list" where
  "obj_values (HList vs) = vs"
| "obj_values (HDict kvs) = map snd kvs"

fun fresh_val :: "nat \<Rightarrow> hval \<Rightarrow> bool" where
  "fresh_val n (HRef a) = (n \<le> a)"
| "fresh_val n (HTup vs) = (\<forall>v \<in> set vs. fresh_val n v)"
| "fresh_val n v = True"

definition closed_from :: "nat \<Rightarrow> heap \<Rightarrow> bool" where
  "closed_from n h \<longleftrightarrow>
     (\<forall>a \<in> {n..<length h}. \<forall>u \<in> set (obj_values (h ! a)). fresh_val n u)"

definition fresh_copy :: "heap \<Rightarrow> pyval \<Rightarrow> hval \<Rightarrow> heap \<Rightarrow> bool" where
  "fresh_copy h t v h' \<longleftrightarrow>
     take (length h) h' = h \<and> value_of h' v = Some t \<and> fresh_val (length h) v \<and>
     closed_from (length h) h'"

text \<open>The three cases in which a read falls back to the default payload.\<close>

definition falls_back :: "version \<Rightarrow> fetched \<Rightarrow> bool" where
  "falls_back sv gate =
     (case gate of
        Unhealthy \<Rightarrow> True
      | Fetched ver data \<Rightarrow> data = HNone \<or> (ver \<noteq> None \<and> Some sv \<noteq> ver))"

text \<open>
  \<open>older_refs h\<close>: every object refers to objects allocated before it, as in a structure
  built from its parts.
\<close>

fun below :: "nat \<Rightarrow> hval \<Rightarrow> bool" where
  "below n (HRef a) = (a < n)"
| "below n (HTup vs) = (\<forall>v \<in> set vs. below n v)"
| "below n v = True"

definition older_refs :: "heap \<Rightarrow> bool" where
  "older_refs h \<longleftrightarrow>
     (\<forall>a \<in> {0..<length h}. \<forall>u \<in> set (obj_values (h ! a)). below a u)"

text \<open>
  A heap for the worked examples: the defaults of a service at address 1, with a list
  inside, and stored data at address 2; and an extend method that adds a key to the
  dictionary it is given.
\<close>

definition sample_heap :: heap where
  "sample_heap =
     [HList [HStr ''ntp''],
      HDict [(''enabled'', HBool False), (''servers'', HRef 0), (''port'', HTup [HInt 1, HInt 2])],
      HDict [(''enabled'', HBool True)]]"

definition sample_defaults :: pyval where
  "sample_defaults =
     PDict [(''enabled'', PBool False), (''servers'', PList [PStr ''ntp'']),
            (''port'', PTuple [PInt 1, PInt 2])]"

definition add_key :: "hval \<Rightarrow> heap \<Rightarrow> (error + hval) \<times> heap" where
  "add_key v h =
     (case v of
        HRef a \<Rightarrow>
          (case h ! a of
             HDict kvs \<Rightarrow> (Inr v, h[a := HDict (kvs @ [(''state'', HStr ''STOPPED'')])])
           | _ \<Rightarrow> (Inl TypeError, h))
      | _ \<Rightarrow> (Inl TypeError, h))"

section \<open>Verified properties\<close>

subsection \<open>Dictionaries\<close>

lemma map_of_alist_set: "map_of (alist_set k v kvs) = (map_of kvs)(k \<mapsto> v)"
  by (induction kvs) (auto simp: fun_eq_iff)

lemma dom_alist_set: "dom (map_of (alist_set k v kvs)) = insert k (dom (map_of kvs))"
  by (simp add: map_of_alist_set)

lemma set_alist_set: "set (alist_set k v kvs) \<subseteq> insert (k, v) (set kvs)"
  by (induction kvs) (auto split: if_splits)

lemma map_of_dict_set: "map_of (dict_set k v kvs) = (map_of kvs)(k \<mapsto> v)"
  by (induction kvs) (auto simp: fun_eq_iff)

lemma map_of_dict_pop: "map_of (dict_pop k kvs) = (map_of kvs)(k := None)"
  by (induction kvs) (auto simp: dict_pop_def fun_eq_iff)

lemma truthy_opt_str: "truthy (opt_str x) = truthy_str x"
  by (cases x) auto

subsection \<open>Dependency-guarded deletion\<close>

lemma dependencies_loop_step:
  "dependencies_loop ds_query svc_query services ignored ident ((ds, fk) # rest) deps = Inr out \<Longrightarrow>
   (\<not> referencing ds_query services ignored ident ds fk \<and>
      dependencies_loop ds_query svc_query services ignored ident rest deps = Inr out) \<or>
   (referencing ds_query services ignored ident ds fk \<and>
      (\<exists>data.
         dependencies_loop ds_query svc_query services ignored ident rest
           (alist_set ds \<lparr>dep_datastore = ds, dep_service = map_option fst (map_of services ds),
                           dep_data = data\<rparr> deps) = Inr out))"
  by (auto simp: referencing_def split: if_splits sum.splits option.splits)

lemma dependencies_loop_keys:
  "dependencies_loop ds_query svc_query services ignored ident brs deps = Inr out \<Longrightarrow>
   dom (map_of out) =
     dom (map_of deps) \<union> {ds. \<exists>fk. (ds, fk) \<in> set brs \<and> referencing ds_query services ignored ident ds fk}"
proof (induction brs arbitrary: deps)
  case Nil
  then show ?case by simp
next
  case (Cons br brs)
  obtain ds fk where br: "br = (ds, fk)" by (cases br)
  from Cons.prems[unfolded br] dependencies_loop_step
  consider
    (skip) "\<not> referencing ds_query services ignored ident ds fk"
      "dependencies_loop ds_query svc_query services ignored ident brs deps = Inr out"
  | (add) d where "referencing ds_query services ignored ident ds fk"
      "dependencies_loop ds_query svc_query services ignored ident brs (alist_set ds d deps) = Inr out"
    by blast
  then show ?case
  proof cases
    case skip
    from Cons.IH[OF skip(2)] skip(1) show ?thesis unfolding br by auto
  next
    case add
    from Cons.IH[OF add(2)] add(1) show ?thesis unfolding br
      by (auto simp: dom_alist_set)
  qed
qed

lemma dependencies_loop_values:
  "dependencies_loop ds_query svc_query services ignored ident brs deps = Inr out \<Longrightarrow>
   \<forall>(ds, d) \<in> set deps. dep_datastore d = ds \<and> dep_service d = map_option fst (map_of services ds) \<Longrightarrow>
   \<forall>(ds, d) \<in> set out. dep_datastore d = ds \<and> dep_service d = map_option fst (map_of services ds)"
proof (induction brs arbitrary: deps)
  case Nil
  then show ?case by simp
next
  case (Cons br brs)
  obtain ds fk where br: "br = (ds, fk)" by (cases br)
  from Cons.prems(1)[unfolded br] dependencies_loop_step
  consider
    (skip) "dependencies_loop ds_query svc_query services ignored ident brs deps = Inr out"
  | (add) data where
      "dependencies_loop ds_query svc_query services ignored ident brs
         (alist_set ds \<lparr>dep_datastore = ds, dep_service = map_option fst (map_of services ds),
                         dep_data = data\<rparr> deps) = Inr out"
    by blast
  then show ?case
  proof cases
    case skip
    then show ?thesis using Cons.IH Cons.prems(2) by blast
  next
    case add
    have "\<forall>(ds', d) \<in> set (alist_set ds \<lparr>dep_datastore = ds,
              dep_service = map_option fst (map_of services ds), dep_data = data\<rparr> deps).
            dep_datastore d = ds' \<and> dep_service d = map_option fst (map_of services ds')"
      using Cons.prems(2) set_alist_set by fastforce
    then show ?thesis using Cons.IH[OF add] by blast
  qed
qed

lemma dependency_line_names:
  "\<exists>pre post. dependency_line repr_of i d = pre @ repr_of (dependency_label d) @ post"
proof (cases "dep_service d")
  case None
  then have "dependency_line repr_of i d =
      (str_nat (i + 1) @ '') '') @ repr_of (dependency_label d) @ ('' Datastore'' @ [CHR 0x0A])"
    by (simp add: dependency_line_def dependency_label_def)
  then show ?thesis by blast
next
  case (Some name)
  show ?thesis
  proof (cases "name = []")
    case True
    with Some have "dependency_line repr_of i d =
        (str_nat (i + 1) @ '') '') @ repr_of (dependency_label d) @ ('' Datastore'' @ [CHR 0x0A])"
      by (simp add: dependency_line_def dependency_label_def)
    then show ?thesis by blast
  next
    case False
    with Some have "dependency_line repr_of i d =
        (str_nat (i + 1) @ '') '') @ repr_of (dependency_label d) @ ('' Service'' @ [CHR 0x0A])"
      by (simp add: dependency_line_def dependency_label_def)
    then show ?thesis by blast
  qed
qed

lemma dependency_lines_names:
  "d \<in> set ds \<Longrightarrow>
   \<exists>pre post. dependency_lines repr_of i ds = pre @ repr_of (dependency_label d) @ post"
proof (induction ds arbitrary: i)
  case Nil
  then show ?case by simp
next
  case (Cons x xs)
  show ?case
  proof (cases "d = x")
    case True
    obtain pre post where "dependency_line repr_of i x = pre @ repr_of (dependency_label x) @ post"
      using dependency_line_names by blast
    then have "dependency_lines repr_of i (x # xs) =
        pre @ repr_of (dependency_label d) @ (post @ dependency_lines repr_of (Suc i) xs)"
      using True by simp
    then show ?thesis by blast
  next
    case False
    with Cons.prems have "d \<in> set xs" by simp
    from Cons.IH[OF this] obtain pre post where
      "dependency_lines repr_of (Suc i) xs = pre @ repr_of (dependency_label d) @ post"
      by blast
    then have "dependency_lines repr_of i (x # xs) =
        (dependency_line repr_of i x @ pre) @ repr_of (dependency_label d) @ post"
      by simp
    then show ?thesis by blast
  qed
qed

text \<open>
  Claim C6. When no collaborator raises, \<open>get_dependencies\<close> returns one dependency for
  exactly those datastores that hold a foreign-key back-reference to the entry's
  datastore, are not in the ignore-set, have no registered service in the ignore-set,
  and hold at least one row referencing the id; each dependency carries its datastore and
  the name of the service registered for it. \<open>check_dependencies\<close> returns normally if and
  only if there is no such dependency; otherwise it raises \<open>CallError\<close> with errno
  \<open>EBUSY\<close>, the list of dependencies as extra data, and a message that has one numbered
  line per dependency, naming its service (its datastore when no service is registered
  for it).
\<close>

theorem dependency_guard:
  assumes svcs: "get_services = Inr svcs" and brs: "get_backrefs = Inr brs"
    and deps: "get_dependencies get_services get_backrefs ds_query svc_query ident ignored = Inr deps"
  shows
    "dom (map_of deps) =
       {ds. \<exists>fk. (ds, fk) \<in> set brs \<and>
              referencing ds_query (services_by_datastore svcs []) ignored ident ds fk} \<and>
     (\<forall>(ds, d) \<in> set deps.
        dep_datastore d = ds \<and>
        dep_service d = map_option fst (map_of (services_by_datastore svcs []) ds)) \<and>
     (check_dependencies repr_of get_services get_backrefs ds_query svc_query ident ignored = Inr ()
        \<longleftrightarrow> deps = []) \<and>
     (deps \<noteq> [] \<longrightarrow>
        check_dependencies repr_of get_services get_backrefs ds_query svc_query ident ignored =
          Inl (CallError
                 (''This object is being used by following service(s):'' @ [CHR 0x0A] @
                  dependency_lines repr_of 0 (map snd deps))
                 (Some EBUSY)
                 (Some (PDict [(''dependencies'', PList (map (\<lambda>kv. dependency_val (snd kv)) deps))])))) \<and>
     (\<forall>(ds, d) \<in> set deps.
        \<exists>pre post. dependency_lines repr_of 0 (map snd deps) =
                      pre @ repr_of (dependency_label d) @ post)"
proof -
  from deps svcs brs have loop:
    "dependencies_loop ds_query svc_query (services_by_datastore svcs []) ignored ident brs [] = Inr deps"
    by (simp add: get_dependencies_def)
  have keys: "dom (map_of deps) =
       {ds. \<exists>fk. (ds, fk) \<in> set brs \<and>
              referencing ds_query (services_by_datastore svcs []) ignored ident ds fk}"
    using dependencies_loop_keys[OF loop] by simp
  have vals: "\<forall>(ds, d) \<in> set deps.
        dep_datastore d = ds \<and>
        dep_service d = map_option fst (map_of (services_by_datastore svcs []) ds)"
    using dependencies_loop_values[OF loop] by simp
  have ok: "check_dependencies repr_of get_services get_backrefs ds_query svc_query ident ignored = Inr ()
        \<longleftrightarrow> deps = []"
    using deps by (simp add: check_dependencies_def)
  have err: "deps \<noteq> [] \<longrightarrow>
        check_dependencies repr_of get_services get_backrefs ds_query svc_query ident ignored =
          Inl (CallError
                 (''This object is being used by following service(s):'' @ [CHR 0x0A] @
                  dependency_lines repr_of 0 (map snd deps))
                 (Some EBUSY)
                 (Some (PDict [(''dependencies'', PList (map (\<lambda>kv. dependency_val (snd kv)) deps))])))"
    using deps by (simp add: check_dependencies_def)
  have names: "\<forall>(ds, d) \<in> set deps.
        \<exists>pre post. dependency_lines repr_of 0 (map snd deps) =
                      pre @ repr_of (dependency_label d) @ post"
  proof -
    have "\<exists>pre post. dependency_lines repr_of 0 (map snd deps) =
                      pre @ repr_of (dependency_label d) @ post"
      if "(ds, d) \<in> set deps" for ds d
    proof -
      from that have "d \<in> set (map snd deps)" by force
      then show ?thesis by (rule dependency_lines_names)
    qed
    then show ?thesis by blast
  qed
  from keys vals ok err names show ?thesis by blast
qed

theorem dependency_guard_witness:
  "get_dependencies
     (Inr [(''sharing.smb'', \<lparr>stype = ''crud'', sdatastore = Some ''sharing.cifs_share'',
                               sprefix = Some ''cifs_''\<rparr>)])
     (Inr [(''sharing.cifs_share'', ''cifs_pool''), (''tasks.snapshot'', ''task_pool'')])
     (\<lambda>ds flt. Inr [PDict [(''id'', PInt 3)]])
     (\<lambda>name flt. Inr (PList [PDict [(''id'', PInt 3), (''name'', PStr ''share'')]]))
     (PInt 1) {''tasks.snapshot''} =
   Inr [(''sharing.cifs_share'',
         \<lparr>dep_datastore = ''sharing.cifs_share'', dep_service = Some ''sharing.smb'',
          dep_data = [(''objects'', PList [PDict [(''id'', PInt 3), (''name'', PStr ''share'')]])]\<rparr>)] \<and>
   check_dependencies (\<lambda>s. [CHR 0x27] @ s @ [CHR 0x27])
     (Inr [(''sharing.smb'', \<lparr>stype = ''crud'', sdatastore = Some ''sharing.cifs_share'',
                               sprefix = Some ''cifs_''\<rparr>)])
     (Inr [(''sharing.cifs_share'', ''cifs_pool''), (''tasks.snapshot'', ''task_pool'')])
     (\<lambda>ds flt. Inr [PDict [(''id'', PInt 3)]])
     (\<lambda>name flt. Inr (PList [PDict [(''id'', PInt 3), (''name'', PStr ''share'')]]))
     (PInt 1) {''tasks.snapshot''} =
   Inl (CallError
          (''This object is being used by following service(s):'' @ [CHR 0x0A] @
           ''1) '' @ [CHR 0x27] @ ''sharing.smb'' @ [CHR 0x27] @ '' Service'' @ [CHR 0x0A])
          (Some 16)
          (Some (PDict [(''dependencies'',
             PList [PDict [(''datastore'', PStr ''sharing.cifs_share''),
                           (''service'', PStr ''sharing.smb''),
                           (''objects'', PList [PDict [(''id'', PInt 3), (''name'', PStr ''share'')]])]])])))"
proof -
  have deps: "get_dependencies
     (Inr [(''sharing.smb'', \<lparr>stype = ''crud'', sdatastore = Some ''sharing.cifs_share'',
                               sprefix = Some ''cifs_''\<rparr>)])
     (Inr [(''sharing.cifs_share'', ''cifs_pool''), (''tasks.snapshot'', ''task_pool'')])
     (\<lambda>ds flt. Inr [PDict [(''id'', PInt 3)]])
     (\<lambda>name flt. Inr (PList [PDict [(''id'', PInt 3), (''name'', PStr ''share'')]]))
     (PInt 1) {''tasks.snapshot''} =
   Inr [(''sharing.cifs_share'',
         \<lparr>dep_datastore = ''sharing.cifs_share'', dep_service = Some ''sharing.smb'',
          dep_data = [(''objects'', PList [PDict [(''id'', PInt 3), (''name'', PStr ''share'')]])]\<rparr>)]"
    by (simp add: get_dependencies_def dependency_data_def dict_item_def)
  from dependency_guard[OF refl refl deps, of "\<lambda>s. [CHR 0x27] @ s @ [CHR 0x27]"] deps
  show ?thesis
    by (simp add: dependency_line_def dependency_val_def EBUSY_def str_nat.simps)
qed

subsection \<open>Filtering policy of query\<close>

lemma get_options_dict:
  "kvs \<noteq> [] \<Longrightarrow> get_options cfg (PDict kvs) = Inr (query_options cfg kvs)"
  by (simp add: get_options_def query_options_def)

lemma query_options_lookup:
  "map_of (query_options cfg kvs) ''extend'' = Some (opt_str (datastore_extend cfg))"
  "k \<noteq> ''extend'' \<Longrightarrow> k \<noteq> ''extend_context'' \<Longrightarrow> k \<noteq> ''prefix'' \<Longrightarrow>
     map_of (query_options cfg kvs) k = map_of kvs k"
  by (simp_all add: query_options_def map_of_dict_set)

text \<open>
  Claim C4. For a service with a backing datastore and a caller's options dictionary that
  carries \<open>force_sql_filters\<close>: if an extend transform is registered and
  \<open>force_sql_filters\<close> is falsy, \<open>query\<close> makes one \<open>datastore.query\<close> call with the empty
  filter list and with options that have lost \<open>get\<close> and \<open>count\<close> but carry the \<open>extend\<close>
  transform (which the datastore applies to every row), and hands the rows to
  \<open>filter_list\<close> together with the caller's filters and the options that still hold the
  caller's \<open>get\<close> and \<open>count\<close>; otherwise it makes one \<open>datastore.query\<close> call with the
  caller's filters and options and returns its result. Absent filters are passed as the
  empty list.
\<close>

theorem query_filtering_policy:
  assumes ds: "truthy_str (datastore cfg)"
    and f: "map_of kvs ''force_sql_filters'' = Some f"
  shows
    "(truthy_str (datastore_extend cfg) \<and> \<not> truthy f \<longrightarrow>
        query callee filter_list cfg filters (PDict kvs) s =
          (case callee ''datastore.query''
                  [opt_str (datastore cfg), PList [],
                   PDict (dict_pop ''get'' (dict_pop ''count'' (query_options cfg kvs)))] (world s) of
             (r, w1) \<Rightarrow>
               (case r of
                  Inl e \<Rightarrow> Inl e
                | Inr rows \<Rightarrow>
                    filter_list rows (if truthy filters then filters else PList [])
                      (PDict (query_options cfg kvs)),
                s\<lparr>world := w1,
                  trace := trace s @
                    [Call ''datastore.query''
                       [opt_str (datastore cfg), PList [],
                        PDict (dict_pop ''get'' (dict_pop ''count'' (query_options cfg kvs)))]]\<rparr>))) \<and>
     (\<not> truthy_str (datastore_extend cfg) \<or> truthy f \<longrightarrow>
        query callee filter_list cfg filters (PDict kvs) s =
          (case callee ''datastore.query''
                  [opt_str (datastore cfg), if truthy filters then filters else PList [],
                   PDict (query_options cfg kvs)] (world s) of
             (r, w1) \<Rightarrow>
               (r, s\<lparr>world := w1,
                     trace := trace s @
                       [Call ''datastore.query''
                          [opt_str (datastore cfg), if truthy filters then filters else PList [],
                           PDict (query_options cfg kvs)]]\<rparr>))) \<and>
     map_of (dict_pop ''get'' (dict_pop ''count'' (query_options cfg kvs))) ''get'' = None \<and>
     map_of (dict_pop ''get'' (dict_pop ''count'' (query_options cfg kvs))) ''count'' = None \<and>
     map_of (dict_pop ''get'' (dict_pop ''count'' (query_options cfg kvs))) ''extend'' =
       Some (opt_str (datastore_extend cfg)) \<and>
     map_of (query_options cfg kvs) ''get'' = map_of kvs ''get'' \<and>
     map_of (query_options cfg kvs) ''count'' = map_of kvs ''count''"
proof -
  from f have ne: "kvs \<noteq> []" by auto
  have fo: "dict_item (query_options cfg kvs) ''force_sql_filters'' = Inr f"
    using f by (simp add: dict_item_def query_options_lookup)
  have ex: "dict_item (query_options cfg kvs) ''extend'' = Inr (opt_str (datastore_extend cfg))"
    by (simp add: dict_item_def query_options_lookup)
  have inproc: "truthy_str (datastore_extend cfg) \<and> \<not> truthy f \<longrightarrow>
        query callee filter_list cfg filters (PDict kvs) s =
          (case callee ''datastore.query''
                  [opt_str (datastore cfg), PList [],
                   PDict (dict_pop ''get'' (dict_pop ''count'' (query_options cfg kvs)))] (world s) of
             (r, w1) \<Rightarrow>
               (case r of
                  Inl e \<Rightarrow> Inl e
                | Inr rows \<Rightarrow>
                    filter_list rows (if truthy filters then filters else PList [])
                      (PDict (query_options cfg kvs)),
                s\<lparr>world := w1,
                  trace := trace s @
                    [Call ''datastore.query''
                       [opt_str (datastore cfg), PList [],
                        PDict (dict_pop ''get'' (dict_pop ''count'' (query_options cfg kvs)))]]\<rparr>))"
    using ds ne
    by (simp add: query_def get_options_dict fo ex truthy_opt_str mw_call_def
        split: prod.splits sum.splits)
  have push: "\<not> truthy_str (datastore_extend cfg) \<or> truthy f \<longrightarrow>
        query callee filter_list cfg filters (PDict kvs) s =
          (case callee ''datastore.query''
                  [opt_str (datastore cfg), if truthy filters then filters else PList [],
                   PDict (query_options cfg kvs)] (world s) of
             (r, w1) \<Rightarrow>
               (r, s\<lparr>world := w1,
                     trace := trace s @
                       [Call ''datastore.query''
                          [opt_str (datastore cfg), if truthy filters then filters else PList [],
                           PDict (query_options cfg kvs)]]\<rparr>))"
    using ds ne
    by (auto simp add: query_def get_options_dict fo ex truthy_opt_str mw_call_def
        split: prod.splits sum.splits)
  have lookups:
    "map_of (dict_pop ''get'' (dict_pop ''count'' (query_options cfg kvs))) ''get'' = None"
    "map_of (dict_pop ''get'' (dict_pop ''count'' (query_options cfg kvs))) ''count'' = None"
    "map_of (dict_pop ''get'' (dict_pop ''count'' (query_options cfg kvs))) ''extend'' =
       Some (opt_str (datastore_extend cfg))"
    "map_of (query_options cfg kvs) ''get'' = map_of kvs ''get''"
    "map_of (query_options cfg kvs) ''count'' = map_of kvs ''count''"
    by (simp_all add: map_of_dict_pop query_options_lookup)
  from inproc push lookups show ?thesis by blast
qed

theorem query_filtering_policy_witness:
  "truthy_str (datastore sample_config) \<and>
   query (\<lambda>name args w. (Inr (PList [PDict [(''id'', PInt 1), (''locked'', PBool True)],
                                        PDict [(''id'', PInt 2), (''locked'', PBool False)]]), w))
         (\<lambda>rows flt opts. Inr (PList [rows, flt]))
         sample_config (PList [PList [PStr ''locked'', PStr ''='', PBool True]])
         (PDict [(''force_sql_filters'', PBool False), (''get'', PBool True)])
         \<lparr>world = (), trace = []\<rparr> =
     (Inr (PList [PList [PDict [(''id'', PInt 1), (''locked'', PBool True)],
                         PDict [(''id'', PInt 2), (''locked'', PBool False)]],
                  PList [PList [PStr ''locked'', PStr ''='', PBool True]]]),
      \<lparr>world = (),
       trace = [Call ''datastore.query''
                  [PStr ''account.bsdusers'', PList [],
                   PDict [(''force_sql_filters'', PBool False),
                          (''extend'', PStr ''user.user_extend''),
                          (''extend_context'', PNone),
                          (''prefix'', PStr ''bsdusr_'')]]]\<rparr>) \<and>
   query (\<lambda>name args w. (Inr (PList [PDict [(''id'', PInt 1)]]), w))
         (\<lambda>rows flt opts. Inr (PList [rows, flt]))
         sample_config (PList [PList [PStr ''id'', PStr ''='', PInt 1]])
         (PDict [(''force_sql_filters'', PBool True), (''get'', PBool True)])
         \<lparr>world = (), trace = []\<rparr> =
     (Inr (PList [PDict [(''id'', PInt 1)]]),
      \<lparr>world = (),
       trace = [Call ''datastore.query''
                  [PStr ''account.bsdusers'', PList [PList [PStr ''id'', PStr ''='', PInt 1]],
                   PDict [(''force_sql_filters'', PBool True), (''get'', PBool True),
                          (''extend'', PStr ''user.user_extend''),
                          (''extend_context'', PNone),
                          (''prefix'', PStr ''bsdusr_'')]]]\<rparr>)"
proof -
  have ds: "truthy_str (datastore sample_config)"
    by (simp add: sample_config_def)
  have q1: "query (\<lambda>name args w. (Inr (PList [PDict [(''id'', PInt 1), (''locked'', PBool True)],
                                        PDict [(''id'', PInt 2), (''locked'', PBool False)]]), w))
         (\<lambda>rows flt opts. Inr (PList [rows, flt]))
         sample_config (PList [PList [PStr ''locked'', PStr ''='', PBool True]])
         (PDict [(''force_sql_filters'', PBool False), (''get'', PBool True)])
         \<lparr>world = (), trace = []\<rparr> =
     (Inr (PList [PList [PDict [(''id'', PInt 1), (''locked'', PBool True)],
                         PDict [(''id'', PInt 2), (''locked'', PBool False)]],
                  PList [PList [PStr ''locked'', PStr ''='', PBool True]]]),
      \<lparr>world = (),
       trace = [Call ''datastore.query''
                  [PStr ''account.bsdusers'', PList [],
                   PDict [(''force_sql_filters'', PBool False),
                          (''extend'', PStr ''user.user_extend''),
                          (''extend_context'', PNone),
                          (''prefix'', PStr ''bsdusr_'')]]]\<rparr>)"
    using query_filtering_policy[OF ds,
        where kvs = "[(''force_sql_filters'', PBool False), (''get'', PBool True)]"
        and f = "PBool False"
        and callee = "\<lambda>name args w. (Inr (PList [PDict [(''id'', PInt 1), (''locked'', PBool True)],
                                        PDict [(''id'', PInt 2), (''locked'', PBool False)]]), w)"
        and filter_list = "\<lambda>rows flt opts. Inr (PList [rows, flt])"
        and filters = "PList [PList [PStr ''locked'', PStr ''='', PBool True]]"
        and s = "\<lparr>world = (), trace = []\<rparr>"]
    by (simp add: sample_config_def query_options_def dict_pop_def)
  have q2: "query (\<lambda>name args w. (Inr (PList [PDict [(''id'', PInt 1)]]), w))
         (\<lambda>rows flt opts. Inr (PList [rows, flt]))
         sample_config (PList [PList [PStr ''id'', PStr ''='', PInt 1]])
         (PDict [(''force_sql_filters'', PBool True), (''get'', PBool True)])
         \<lparr>world = (), trace = []\<rparr> =
     (Inr (PList [PDict [(''id'', PInt 1)]]),
      \<lparr>world = (),
       trace = [Call ''datastore.query''
                  [PStr ''account.bsdusers'', PList [PList [PStr ''id'', PStr ''='', PInt 1]],
                   PDict [(''force_sql_filters'', PBool True), (''get'', PBool True),
                          (''extend'', PStr ''user.user_extend''),
                          (''extend_context'', PNone),
                          (''prefix'', PStr ''bsdusr_'')]]]\<rparr>)"
    using query_filtering_policy[OF ds,
        where kvs = "[(''force_sql_filters'', PBool True), (''get'', PBool True)]"
        and f = "PBool True"
        and callee = "\<lambda>name args w. (Inr (PList [PDict [(''id'', PInt 1)]]), w)"
        and filter_list = "\<lambda>rows flt opts. Inr (PList [rows, flt])"
        and filters = "PList [PList [PStr ''id'', PStr ''='', PInt 1]]"
        and s = "\<lparr>world = (), trace = []\<rparr>"]
    by (simp add: sample_config_def query_options_def dict_pop_def)
  from ds q1 q2 show ?thesis by blast
qed

subsection \<open>Hooks and change notifications\<close>

text \<open>
  Claim C1. With event sending enabled, each of \<open>create\<close>, \<open>update\<close> and \<open>delete\<close> first
  runs its \<open>do_*\<close> method; if that raises, the error is returned and nothing else happens.
  Otherwise the matching \<open>post_*\<close> hook runs on the world the method left behind. If the
  hook raises, its error is returned, no event is sent, and the world is the one left by
  the method and the hook: nothing is undone. Only if the hook returns is the change
  event sent, after the hook: \<open>ADDED\<close> or \<open>CHANGED\<close> when the result is a dictionary with
  an \<open>id\<close>, and \<open>CHANGED\<close> (cleared) followed by \<open>REMOVED\<close> for a deletion.
\<close>

theorem crud_notification_after_post_hook:
  assumes "event_send cfg"
  shows
    "(do_fn (namespace cfg @ ''.create'') [d] (world s) = (Inl e, w1) \<longrightarrow>
        create do_fn hooks cfg d s =
          (Inl e, s\<lparr>world := w1, trace := trace s @ [Call (namespace cfg @ ''.create'') [d]]\<rparr>)) \<and>
     (do_fn (namespace cfg @ ''.create'') [d] (world s) = (Inr rv, w1) \<and>
      hooks (namespace cfg @ ''.post_create'') [rv] w1 = (Inl e, w2) \<longrightarrow>
        create do_fn hooks cfg d s =
          (Inl e, s\<lparr>world := w2,
                    trace := trace s @ [Call (namespace cfg @ ''.create'') [d],
                                        Hook (namespace cfg @ ''.post_create'') [rv]]\<rparr>)) \<and>
     (do_fn (namespace cfg @ ''.create'') [d] (world s) = (Inr rv, w1) \<and>
      hooks (namespace cfg @ ''.post_create'') [rv] w1 = (Inr u, w2) \<longrightarrow>
        create do_fn hooks cfg d s =
          (Inr rv, s\<lparr>world := w2,
                     trace := trace s @ [Call (namespace cfg @ ''.create'') [d],
                                         Hook (namespace cfg @ ''.post_create'') [rv]] @
                              (case rv_id rv of
                                 Some i \<Rightarrow> [Event (namespace cfg @ ''.query'') ''ADDED''
                                              [(''id'', i), (''fields'', rv)]]
                               | None \<Rightarrow> [])\<rparr>)) \<and>
     (do_fn (namespace cfg @ ''.update'') [i, d] (world s) = (Inl e, w1) \<longrightarrow>
        update do_fn hooks cfg i d s =
          (Inl e, s\<lparr>world := w1, trace := trace s @ [Call (namespace cfg @ ''.update'') [i, d]]\<rparr>)) \<and>
     (do_fn (namespace cfg @ ''.update'') [i, d] (world s) = (Inr rv, w1) \<and>
      hooks (namespace cfg @ ''.post_update'') [rv] w1 = (Inl e, w2) \<longrightarrow>
        update do_fn hooks cfg i d s =
          (Inl e, s\<lparr>world := w2,
                    trace := trace s @ [Call (namespace cfg @ ''.update'') [i, d],
                                        Hook (namespace cfg @ ''.post_update'') [rv]]\<rparr>)) \<and>
     (do_fn (namespace cfg @ ''.update'') [i, d] (world s) = (Inr rv, w1) \<and>
      hooks (namespace cfg @ ''.post_update'') [rv] w1 = (Inr u, w2) \<longrightarrow>
        update do_fn hooks cfg i d s =
          (Inr rv, s\<lparr>world := w2,
                     trace := trace s @ [Call (namespace cfg @ ''.update'') [i, d],
                                         Hook (namespace cfg @ ''.post_update'') [rv]] @
                              (case rv_id rv of
                                 Some j \<Rightarrow> [Event (namespace cfg @ ''.query'') ''CHANGED''
                                              [(''id'', j), (''fields'', rv)]]
                               | None \<Rightarrow> [])\<rparr>)) \<and>
     (do_fn (namespace cfg @ ''.delete'') (i # args) (world s) = (Inl e, w1) \<longrightarrow>
        delete do_fn hooks cfg i args s =
          (Inl e, s\<lparr>world := w1,
                    trace := trace s @ [Call (namespace cfg @ ''.delete'') (i # args)]\<rparr>)) \<and>
     (do_fn (namespace cfg @ ''.delete'') (i # args) (world s) = (Inr rv, w1) \<and>
      hooks (namespace cfg @ ''.post_delete'') [rv] w1 = (Inl e, w2) \<longrightarrow>
        delete do_fn hooks cfg i args s =
          (Inl e, s\<lparr>world := w2,
                    trace := trace s @ [Call (namespace cfg @ ''.delete'') (i # args),
                                        Hook (namespace cfg @ ''.post_delete'') [rv]]\<rparr>)) \<and>
     (do_fn (namespace cfg @ ''.delete'') (i # args) (world s) = (Inr rv, w1) \<and>
      hooks (namespace cfg @ ''.post_delete'') [rv] w1 = (Inr u, w2) \<longrightarrow>
        delete do_fn hooks cfg i args s =
          (Inr rv, s\<lparr>world := w2,
                     trace := trace s @ [Call (namespace cfg @ ''.delete'') (i # args),
                                         Hook (namespace cfg @ ''.post_delete'') [rv],
                                         Event (namespace cfg @ ''.query'') ''CHANGED''
                                           [(''id'', i), (''cleared'', PBool True)],
                                         Event (namespace cfg @ ''.query'') ''REMOVED''
                                           [(''id'', i)]]\<rparr>))"
  using assms
  by (simp add: create_def update_def delete_def mw_call_def mw_call_hook_def
      send_rv_event_def send_event_def split: option.splits)

theorem crud_notification_after_post_hook_witness:
  "event_send sample_config \<and>
   create (\<lambda>name args w. (Inr (PDict [(''id'', PInt 1)]), w @ args))
          (\<lambda>name args w. (Inl (OtherException ''hook failed''), w))
          sample_config (PDict [(''name'', PStr ''a'')]) \<lparr>world = [], trace = []\<rparr> =
     (Inl (OtherException ''hook failed''),
      \<lparr>world = [PDict [(''name'', PStr ''a'')]],
       trace = [Call ''user.create'' [PDict [(''name'', PStr ''a'')]],
                Hook ''user.post_create'' [PDict [(''id'', PInt 1)]]]\<rparr>) \<and>
   create (\<lambda>name args w. (Inr (PDict [(''id'', PInt 1)]), w @ args))
          (\<lambda>name args w. (Inr (), w))
          sample_config (PDict [(''name'', PStr ''a'')]) \<lparr>world = [], trace = []\<rparr> =
     (Inr (PDict [(''id'', PInt 1)]),
      \<lparr>world = [PDict [(''name'', PStr ''a'')]],
       trace = [Call ''user.create'' [PDict [(''name'', PStr ''a'')]],
                Hook ''user.post_create'' [PDict [(''id'', PInt 1)]],
                Event ''user.query'' ''ADDED''
                  [(''id'', PInt 1), (''fields'', PDict [(''id'', PInt 1)])]]\<rparr>) \<and>
   delete (\<lambda>name args w. (Inl (OtherException ''busy''), w))
          (\<lambda>name args w. (Inr (), w))
          sample_config (PInt 1) [] \<lparr>world = [PDict [(''id'', PInt 1)]], trace = []\<rparr> =
     (Inl (OtherException ''busy''),
      \<lparr>world = [PDict [(''id'', PInt 1)]], trace = [Call ''user.delete'' [PInt 1]]\<rparr>)"
proof -
  have es: "event_send sample_config"
    by (simp add: sample_config_def)
  have ns: "namespace sample_config = ''user''"
    by (simp add: sample_config_def)
  note post = crud_notification_after_post_hook[OF es]
  have c1: "create (\<lambda>name args w. (Inr (PDict [(''id'', PInt 1)]), w @ args))
          (\<lambda>name args w. (Inl (OtherException ''hook failed''), w))
          sample_config (PDict [(''name'', PStr ''a'')]) \<lparr>world = [], trace = []\<rparr> =
     (Inl (OtherException ''hook failed''),
      \<lparr>world = [PDict [(''name'', PStr ''a'')]],
       trace = [Call ''user.create'' [PDict [(''name'', PStr ''a'')]],
                Hook ''user.post_create'' [PDict [(''id'', PInt 1)]]]\<rparr>)"
    using post[where do_fn = "\<lambda>name args w. (Inr (PDict [(''id'', PInt 1)]), w @ args)"
        and d = "PDict [(''name'', PStr ''a'')]" and s = "\<lparr>world = [], trace = []\<rparr>"
        and rv = "PDict [(''id'', PInt 1)]"
        and hooks = "\<lambda>name args w. (Inl (OtherException ''hook failed''), w)"
        and e = "OtherException ''hook failed''" and ?w1.0 = "[PDict [(''name'', PStr ''a'')]]"
        and ?w2.0 = "[PDict [(''name'', PStr ''a'')]]"]
    by (simp add: ns)
  have c2: "create (\<lambda>name args w. (Inr (PDict [(''id'', PInt 1)]), w @ args))
          (\<lambda>name args w. (Inr (), w))
          sample_config (PDict [(''name'', PStr ''a'')]) \<lparr>world = [], trace = []\<rparr> =
     (Inr (PDict [(''id'', PInt 1)]),
      \<lparr>world = [PDict [(''name'', PStr ''a'')]],
       trace = [Call ''user.create'' [PDict [(''name'', PStr ''a'')]],
                Hook ''user.post_create'' [PDict [(''id'', PInt 1)]],
                Event ''user.query'' ''ADDED''
                  [(''id'', PInt 1), (''fields'', PDict [(''id'', PInt 1)])]]\<rparr>)"
    using post[where do_fn = "\<lambda>name args w. (Inr (PDict [(''id'', PInt 1)]), w @ args)"
        and d = "PDict [(''name'', PStr ''a'')]" and s = "\<lparr>world = [], trace = []\<rparr>"
        and rv = "PDict [(''id'', PInt 1)]"
        and hooks = "\<lambda>name args w. (Inr (), w)"
        and u = "()" and ?w1.0 = "[PDict [(''name'', PStr ''a'')]]"
        and ?w2.0 = "[PDict [(''name'', PStr ''a'')]]"]
    by (simp add: ns)
  have c3: "delete (\<lambda>name args w. (Inl (OtherException ''busy''), w))
          (\<lambda>name args w. (Inr (), w))
          sample_config (PInt 1) [] \<lparr>world = [PDict [(''id'', PInt 1)]], trace = []\<rparr> =
     (Inl (OtherException ''busy''),
      \<lparr>world = [PDict [(''id'', PInt 1)]], trace = [Call ''user.delete'' [PInt 1]]\<rparr>)"
    using post[where do_fn = "\<lambda>name args w. (Inl (OtherException ''busy''), w)"
        and s = "\<lparr>world = [PDict [(''id'', PInt 1)]], trace = []\<rparr>"
        and e = "OtherException ''busy''" and ?w1.0 = "[PDict [(''id'', PInt 1)]]"
        and hooks = "\<lambda>name args w. (Inr (), w)" and i = "PInt 1" and args = "[]"]
    by (simp add: ns)
  from es c1 c2 c3 show ?thesis by blast
qed

subsection \<open>get_instance\<close>

text \<open>
  Claim C8. \<open>get_instance\<close> makes one call of the service's \<open>query\<close> with the single
  filter \<open>[primary key, '=', id]\<close> and the caller's options. An error of the query is
  passed on; an empty (falsy) result raises \<open>InstanceNotFound\<close> with the message
  \<open>verbose_name id does not exist\<close>; a non-empty list gives its first record, as
  \<open>query\<close> returned it. \<open>get_instance__sync\<close> does the same.
\<close>

theorem get_instance_by_primary_key:
  assumes "callee (namespace cfg @ ''.query'')
             [PList [PList [PStr (datastore_primary_key cfg), PStr ''='', i]], options] (world s)
           = (r, w1)"
  shows
    "(r = Inl e \<longrightarrow>
        get_instance str_of callee cfg i options s =
          (Inl e, s\<lparr>world := w1, trace := trace s @ [Call (namespace cfg @ ''.query'')
             [PList [PList [PStr (datastore_primary_key cfg), PStr ''='', i]], options]]\<rparr>)) \<and>
     (r = Inr v \<and> \<not> truthy v \<longrightarrow>
        get_instance str_of callee cfg i options s =
          (Inl (InstanceNotFound (verbose_name cfg @ '' '' @ str_of i @ '' does not exist'')),
           s\<lparr>world := w1, trace := trace s @ [Call (namespace cfg @ ''.query'')
             [PList [PList [PStr (datastore_primary_key cfg), PStr ''='', i]], options]]\<rparr>)) \<and>
     (r = Inr (PList (x # xs)) \<longrightarrow>
        get_instance str_of callee cfg i options s =
          (Inr x, s\<lparr>world := w1, trace := trace s @ [Call (namespace cfg @ ''.query'')
             [PList [PList [PStr (datastore_primary_key cfg), PStr ''='', i]], options]]\<rparr>)) \<and>
     get_instance__sync str_of callee cfg i options s = get_instance str_of callee cfg i options s"
  using assms by (simp add: get_instance_def get_instance__sync_def mw_call_def)

theorem get_instance_by_primary_key_witness:
  "get_instance (\<lambda>v. if v = PInt 7 then ''7'' else ''?'')
     (\<lambda>name args w. (Inr (PList (filter (\<lambda>row. args = [PList [PList [PStr ''id'', PStr ''='', the (rv_id row)]], PNone]) w)), w))
     sample_config (PInt 7) PNone
     \<lparr>world = [PDict [(''id'', PInt 3), (''name'', PStr ''a'')]], trace = []\<rparr> =
   (Inl (InstanceNotFound ''User 7 does not exist''),
    \<lparr>world = [PDict [(''id'', PInt 3), (''name'', PStr ''a'')]],
     trace = [Call ''user.query'' [PList [PList [PStr ''id'', PStr ''='', PInt 7]], PNone]]\<rparr>) \<and>
   get_instance (\<lambda>v. if v = PInt 7 then ''7'' else ''?'')
     (\<lambda>name args w. (Inr (PList (filter (\<lambda>row. args = [PList [PList [PStr ''id'', PStr ''='', the (rv_id row)]], PNone]) w)), w))
     sample_config (PInt 3) PNone
     \<lparr>world = [PDict [(''id'', PInt 3), (''name'', PStr ''a'')]], trace = []\<rparr> =
   (Inr (PDict [(''id'', PInt 3), (''name'', PStr ''a'')]),
    \<lparr>world = [PDict [(''id'', PInt 3), (''name'', PStr ''a'')]],
     trace = [Call ''user.query'' [PList [PList [PStr ''id'', PStr ''='', PInt 3]], PNone]]\<rparr>)"
  using get_instance_by_primary_key[where callee = "\<lambda>name args w. (Inr (PList (filter (\<lambda>row. args = [PList [PList [PStr ''id'', PStr ''='', the (rv_id row)]], PNone]) w)), w)" and cfg = sample_config
        and i = "PInt 7" and options = PNone and s = "\<lparr>world = [PDict [(''id'', PInt 3), (''name'', PStr ''a'')]], trace = []\<rparr>"
        and r = "Inr (PList [])" and ?w1.0 = "[PDict [(''id'', PInt 3), (''name'', PStr ''a'')]]" and v = "PList []" and str_of = "\<lambda>v. if v = PInt 7 then ''7'' else ''?''"]
      get_instance_by_primary_key[where callee = "\<lambda>name args w. (Inr (PList (filter (\<lambda>row. args = [PList [PList [PStr ''id'', PStr ''='', the (rv_id row)]], PNone]) w)), w)" and cfg = sample_config
        and i = "PInt 3" and options = PNone and s = "\<lparr>world = [PDict [(''id'', PInt 3), (''name'', PStr ''a'')]], trace = []\<rparr>"
        and r = "Inr (PList [PDict [(''id'', PInt 3), (''name'', PStr ''a'')]])" and ?w1.0 = "[PDict [(''id'', PInt 3), (''name'', PStr ''a'')]]"
        and x = "PDict [(''id'', PInt 3), (''name'', PStr ''a'')]" and xs = "[]"
        and str_of = "\<lambda>v. if v = PInt 7 then ''7'' else ''?''"]
  by (simp add: sample_config_def)

subsection \<open>Health gating of the replicated store\<close>

lemma cluster_healthy_cached:
  "env_clock env (world s) < last_check s + time_offset cls \<Longrightarrow>
   cluster_healthy env cfg cls s = (status s, s)"
  by (simp add: cluster_healthy_def)

lemma cluster_healthy_probe_raises:
  "\<not> env_clock env (world s) < last_check s + time_offset cls \<Longrightarrow>
   env_call env (cluster_healthy_fn cls) [] (world s) = (Inl e, w1) \<Longrightarrow>
   cluster_healthy env cfg cls s =
     (PBool False,
      s\<lparr>world := w1,
        trace := trace s @ [Call (cluster_healthy_fn cls) [],
                            Log ''warning'' ''%s: cluster health check [%s] failed.''
                              [PStr (namespace cfg), PStr (cluster_healthy_fn cls)]],
        status := PBool False, last_check := env_clock env (world s)\<rparr>)"
  by (simp add: cluster_healthy_def mw_call_def log_msg_def)

lemma cluster_healthy_probe_returns:
  "\<not> env_clock env (world s) < last_check s + time_offset cls \<Longrightarrow>
   env_call env (cluster_healthy_fn cls) [] (world s) = (Inr st, w1) \<Longrightarrow>
   cluster_healthy env cfg cls s =
     (st, s\<lparr>world := w1, trace := trace s @ [Call (cluster_healthy_fn cls) []],
            status := st, last_check := env_clock env (world s)\<rparr>)"
  by (simp add: cluster_healthy_def mw_call_def)

lemma cluster_healthy_last_check:
  "last_check (snd (cluster_healthy env cfg cls s)) =
     (if env_clock env (world s) < last_check s + time_offset cls then last_check s
      else env_clock env (world s))"
  by (simp add: cluster_healthy_def mw_call_def log_msg_def Let_def split: prod.splits sum.splits)

lemma probe_times_spaced:
  "successively (\<lambda>a b. a + time_offset cls \<le> b) (last_check s # probe_times env cfg cls fs s)"
proof (induction fs arbitrary: s)
  case Nil
  then show ?case by simp
next
  case (Cons f fs)
  let ?s = "s\<lparr>world := f (world s)\<rparr>"
  let ?s' = "snd (cluster_healthy env cfg cls ?s)"
  have IH: "successively (\<lambda>a b. a + time_offset cls \<le> b) (last_check ?s' # probe_times env cfg cls fs ?s')"
    by (rule Cons.IH)
  show ?case
  proof (cases "env_clock env (f (world s)) < last_check s + time_offset cls")
    case True
    then have "last_check ?s' = last_check s"
      by (simp add: cluster_healthy_last_check)
    with IH True show ?thesis by simp
  next
    case False
    then have "last_check ?s' = env_clock env (f (world s))"
      by (simp add: cluster_healthy_last_check)
    with IH False show ?thesis by simp
  qed
qed

lemma mw_call_trace: "trace (snd (mw_call f n a s)) = trace s @ [Call n a]"
  by (simp add: mw_call_def split: prod.splits)

lemma mw_call_cases:
  obtains r s' where "mw_call f n a s = (r, s')" "trace s' = trace s @ [Call n a]"
  using mw_call_trace[of f n a s] by (cases "mw_call f n a s") auto

lemma through_extend_trace:
  "\<exists>rest. trace (snd (through_extend env cfg d s)) = trace s @ rest"
  by (auto simp: through_extend_def mw_call_trace split: option.splits)

lemma extend_all_trace:
  "\<exists>rest. trace (snd (extend_all env ext es s)) = trace s @ rest"
proof (induction es arbitrary: s)
  case Nil
  then show ?case by simp
next
  case (Cons x xs)
  obtain r s1 where c: "mw_call (env_call env) ext [x] s = (r, s1)"
    and t: "trace s1 = trace s @ [Call ext [x]]"
    by (rule mw_call_cases)
  from Cons.IH[of s1] obtain rest where
    rest: "trace (snd (extend_all env ext xs s1)) = trace s1 @ rest" by blast
  show ?case
  proof (cases r)
    case (Inl e)
    with c t show ?thesis by simp
  next
    case (Inr v)
    with c t rest show ?thesis
      by (cases "extend_all env ext xs s1") (auto split: sum.splits)
  qed
qed

lemma insert_defaults_trace:
  "\<exists>rest. trace (snd (insert_defaults env str_of cfg cls s)) = trace s @ rest"
  by (auto simp: insert_defaults_def mw_call_def split: sum.splits prod.splits)

lemma db_healthy_trace:
  "\<exists>rest. trace (snd (db_healthy env cfg cls name s)) =
     trace s @ Call ''tdb.health'' [PDict [(''name'', name), (''tdb-options'', tdb_options cls)]] # rest"
  by (auto simp: db_healthy_def mw_call_def log_msg_def split: sum.splits prod.splits)

lemma config_read_trace:
  "\<exists>rest. trace (snd (tdbwrap_config_read env cfg cls s)) =
     trace s @ Call ''tdb.config''
       [PDict [(''name'', opt_str (service cfg)), (''tdb-options'', tdb_options cls)]] # rest"
proof -
  let ?args = "[PDict [(''name'', opt_str (service cfg)), (''tdb-options'', tdb_options cls)]]"
  obtain r s1 where c: "mw_call (env_fetch env) ''tdb.config'' ?args s = (r, s1)"
    and t: "trace s1 = trace s @ [Call ''tdb.config'' ?args]"
    by (rule mw_call_cases)
  show ?thesis
  proof (cases r)
    case (Inl e)
    with c t show ?thesis by (simp add: tdbwrap_config_read_def)
  next
    case (Inr p)
    obtain r1 where r1: "trace (snd (through_extend env cfg (tdb_defaults cls)
        (log_msg ''error''
           (''%s: Service version mismatch. Service update migration is required. '' @
            ''Returning default values.'') [PStr (namespace cfg)] s1))) =
        trace (log_msg ''error''
           (''%s: Service version mismatch. Service update migration is required. '' @
            ''Returning default values.'') [PStr (namespace cfg)] s1) @ r1"
      using through_extend_trace by blast
    obtain r2 where r2: "trace (snd (through_extend env cfg
        (if pdata p = PNone then tdb_defaults cls else pdata p) s1)) = trace s1 @ r2"
      using through_extend_trace by blast
    from c t Inr r1 r2 show ?thesis
      by (simp add: tdbwrap_config_read_def Let_def log_msg_def)
  qed
qed

lemma query_read_trace:
  "\<exists>rest. trace (snd (tdbwrap_query_read env filter_list str_of cfg cls filters options s)) =
     trace s @ Call ''tdb.query''
       [PDict [(''name'', PStr (namespace cfg)), (''tdb-options'', tdb_options cls)]] # rest"
proof -
  let ?args = "[PDict [(''name'', PStr (namespace cfg)), (''tdb-options'', tdb_options cls)]]"
  obtain r s1 where c: "mw_call (env_fetch env) ''tdb.query'' ?args s = (r, s1)"
    and t: "trace s1 = trace s @ [Call ''tdb.query'' ?args]"
    by (rule mw_call_cases)
  show ?thesis
  proof (cases r)
    case (Inl e)
    with c t show ?thesis by (simp add: tdbwrap_query_read_def)
  next
    case (Inr p)
    have ext: "\<exists>rest. trace (snd (case extend_all env ext entries s1 of
                           (Inl e, s2) \<Rightarrow> (Inl e, s2)
                         | (Inr to_filter, s2) \<Rightarrow>
                             if to_filter = [] \<and> truthy (tdb_defaults cls)
                             then
                               (case insert_defaults env str_of cfg cls s2 of
                                  (Inl e, s3) \<Rightarrow> (Inl e, s3)
                                | (Inr u, s3) \<Rightarrow>
                                    (filter_list (tdb_defaults cls) filters options, s3))
                             else (filter_list (PList to_filter) filters options, s2))) =
              trace s1 @ rest" for ext entries
    proof -
      obtain r2 s2 where e: "extend_all env ext entries s1 = (r2, s2)"
        by (cases "extend_all env ext entries s1")
      with extend_all_trace[of env ext entries s1] obtain a where
        a: "trace s2 = trace s1 @ a" by auto
      obtain r3 s3 where i: "insert_defaults env str_of cfg cls s2 = (r3, s3)"
        by (cases "insert_defaults env str_of cfg cls s2")
      with insert_defaults_trace[of env str_of cfg cls s2] obtain b where
        b: "trace s3 = trace s2 @ b" by auto
      from e a i b show ?thesis
        by (auto split: sum.splits)
    qed
    from c t Inr show ?thesis
      using ext by (auto simp add: tdbwrap_query_read_def log_msg_def split: option.splits sum.splits)
  qed
qed

lemma reads_unhealthy_cases:
  assumes "cluster_healthy env cfg cls s = (h, s1)"
  shows "(truthy h \<longrightarrow> reads_unhealthy env cfg cls name s = (False, s1)) \<and>
         (\<not> truthy h \<longrightarrow>
            (\<exists>rest. trace (snd (reads_unhealthy env cfg cls name s)) =
               trace s1 @ Call ''tdb.health''
                 [PDict [(''name'', name), (''tdb-options'', tdb_options cls)]] # rest))"
  using assms db_healthy_trace[of env cfg cls name s1]
  by (auto simp: reads_unhealthy_def split: prod.splits)

lemma trace_append_exI:
  "trace s2 = trace s1 @ a # r1 \<Longrightarrow> \<exists>r2. trace s3 = trace s2 @ r2 \<Longrightarrow>
   \<exists>rest. trace s3 = trace s1 @ a # rest"
  by auto

lemma config_primary_healthy_trace:
  assumes "is_clustered env cls s = (Inr ic, s1)" and "truthy ic"
    and "cluster_healthy env cfg cls s1 = (h, s2)" and "truthy h"
  shows "\<exists>rest. trace (snd (tdbwrap_config env cfg cls s)) =
     trace s2 @ Call ''tdb.config''
       [PDict [(''name'', opt_str (service cfg)), (''tdb-options'', tdb_options cls)]] # rest"
  using assms config_read_trace[of env cfg cls s2]
  by (simp add: tdbwrap_config_def reads_unhealthy_def)

lemma config_primary_unhealthy_trace:
  assumes "is_clustered env cls s = (Inr ic, s1)" and "truthy ic"
    and "cluster_healthy env cfg cls s1 = (h, s2)" and "\<not> truthy h"
  shows "\<exists>rest. trace (snd (tdbwrap_config env cfg cls s)) =
     trace s2 @ Call ''tdb.health''
       [PDict [(''name'', opt_str (service cfg)), (''tdb-options'', tdb_options cls)]] # rest"
proof -
  obtain u s3 where d: "reads_unhealthy env cfg cls (opt_str (service cfg)) s1 = (u, s3)"
    by (cases "reads_unhealthy env cfg cls (opt_str (service cfg)) s1")
  from reads_unhealthy_cases[OF assms(3), of "opt_str (service cfg)"] assms(4) d obtain r0 where
    r0: "trace s3 = trace s2 @ Call ''tdb.health''
       [PDict [(''name'', opt_str (service cfg)), (''tdb-options'', tdb_options cls)]] # r0"
    by auto
  show ?thesis
  proof (cases u)
    case True
    with assms d r0 show ?thesis by (simp add: tdbwrap_config_def)
  next
    case False
    have "\<exists>r2. trace (snd (tdbwrap_config_read env cfg cls s3)) = trace s3 @ r2"
      using config_read_trace[of env cfg cls s3] by blast
    from trace_append_exI[OF r0 this] assms d False show ?thesis
      by (simp add: tdbwrap_config_def)
  qed
qed

lemma query_primary_healthy_trace:
  assumes "is_clustered env cls s = (Inr ic, s1)" and "truthy ic"
    and "cluster_healthy env cfg cls s1 = (h, s2)" and "truthy h"
  shows "\<exists>rest. trace (snd (tdbwrap_query env filter_list str_of cfg cls filters options s)) =
     trace s2 @ Call ''tdb.query''
       [PDict [(''name'', PStr (namespace cfg)), (''tdb-options'', tdb_options cls)]] # rest"
  using assms query_read_trace[of env filter_list str_of cfg cls filters options s2]
  by (simp add: tdbwrap_query_def reads_unhealthy_def)

lemma query_primary_unhealthy_trace:
  assumes "is_clustered env cls s = (Inr ic, s1)" and "truthy ic"
    and "cluster_healthy env cfg cls s1 = (h, s2)" and "\<not> truthy h"
  shows "\<exists>rest. trace (snd (tdbwrap_query env filter_list str_of cfg cls filters options s)) =
     trace s2 @ Call ''tdb.health''
       [PDict [(''name'', PStr (namespace cfg)), (''tdb-options'', tdb_options cls)]] # rest"
proof -
  obtain u s3 where d: "reads_unhealthy env cfg cls (PStr (namespace cfg)) s1 = (u, s3)"
    by (cases "reads_unhealthy env cfg cls (PStr (namespace cfg)) s1")
  from reads_unhealthy_cases[OF assms(3), of "PStr (namespace cfg)"] assms(4) d obtain r0 where
    r0: "trace s3 = trace s2 @ Call ''tdb.health''
       [PDict [(''name'', PStr (namespace cfg)), (''tdb-options'', tdb_options cls)]] # r0"
    by auto
  show ?thesis
  proof (cases u)
    case True
    with assms d r0 show ?thesis by (simp add: tdbwrap_query_def)
  next
    case False
    have "\<exists>r2. trace (snd (tdbwrap_query_read env filter_list str_of cfg cls filters options s3)) =
        trace s3 @ r2"
      using query_read_trace[of env filter_list str_of cfg cls filters options s3] by blast
    from trace_append_exI[OF r0 this] assms d False show ?thesis
      by (simp add: tdbwrap_query_def)
  qed
qed

text \<open>
  Claim C7. A \<open>cluster_healthy\<close> call made while the clock reads less than
  \<open>last_check + time_offset\<close> returns the cached status and changes nothing: the health
  predicate is not invoked. Otherwise the predicate is invoked once, its result (or
  \<open>False\<close> when it raises, with a warning logged) is returned and cached, and
  \<open>last_check\<close> becomes the clock reading of this call; so in any run of calls, two
  successive invocations of the predicate are at least \<open>time_offset\<close> apart. On the read
  paths \<open>config\<close> and \<open>query\<close> of a clustered store, the action that follows the primary
  probe is the backend read when the probe reported healthy, and the \<open>tdb.health\<close> probe of
  the local replica when it reported unhealthy.
\<close>

theorem health_probe_cached_per_interval:
  "(env_clock env (world s) < last_check s + time_offset cls \<longrightarrow>
      cluster_healthy env cfg cls s = (status s, s)) \<and>
   (\<not> env_clock env (world s) < last_check s + time_offset cls \<and>
    env_call env (cluster_healthy_fn cls) [] (world s) = (Inl e, w1) \<longrightarrow>
      cluster_healthy env cfg cls s =
        (PBool False,
         s\<lparr>world := w1,
           trace := trace s @ [Call (cluster_healthy_fn cls) [],
                               Log ''warning'' ''%s: cluster health check [%s] failed.''
                                 [PStr (namespace cfg), PStr (cluster_healthy_fn cls)]],
           status := PBool False, last_check := env_clock env (world s)\<rparr>)) \<and>
   (\<not> env_clock env (world s) < last_check s + time_offset cls \<and>
    env_call env (cluster_healthy_fn cls) [] (world s) = (Inr st, w1) \<longrightarrow>
      cluster_healthy env cfg cls s =
        (st, s\<lparr>world := w1, trace := trace s @ [Call (cluster_healthy_fn cls) []],
               status := st, last_check := env_clock env (world s)\<rparr>)) \<and>
   successively (\<lambda>a b. a + time_offset cls \<le> b) (probe_times env cfg cls fs s) \<and>
   (is_clustered env cls s0 = (Inr ic, s1) \<and> truthy ic \<and>
    cluster_healthy env cfg cls s1 = (h, s2) \<and> truthy h \<longrightarrow>
      (\<exists>rest. trace (snd (tdbwrap_config env cfg cls s0)) =
         trace s2 @ Call ''tdb.config''
           [PDict [(''name'', opt_str (service cfg)), (''tdb-options'', tdb_options cls)]] # rest) \<and>
      (\<exists>rest. trace (snd (tdbwrap_query env filter_list str_of cfg cls filters options s0)) =
         trace s2 @ Call ''tdb.query''
           [PDict [(''name'', PStr (namespace cfg)), (''tdb-options'', tdb_options cls)]] # rest)) \<and>
   (is_clustered env cls s0 = (Inr ic, s1) \<and> truthy ic \<and>
    cluster_healthy env cfg cls s1 = (h, s2) \<and> \<not> truthy h \<longrightarrow>
      (\<exists>rest. trace (snd (tdbwrap_config env cfg cls s0)) =
         trace s2 @ Call ''tdb.health''
           [PDict [(''name'', opt_str (service cfg)), (''tdb-options'', tdb_options cls)]] # rest) \<and>
      (\<exists>rest. trace (snd (tdbwrap_query env filter_list str_of cfg cls filters options s0)) =
         trace s2 @ Call ''tdb.health''
           [PDict [(''name'', PStr (namespace cfg)), (''tdb-options'', tdb_options cls)]] # rest))"
proof -
  have a: "env_clock env (world s) < last_check s + time_offset cls \<longrightarrow>
      cluster_healthy env cfg cls s = (status s, s)"
    by (simp add: cluster_healthy_cached)
  have b: "\<not> env_clock env (world s) < last_check s + time_offset cls \<and>
    env_call env (cluster_healthy_fn cls) [] (world s) = (Inl e, w1) \<longrightarrow>
      cluster_healthy env cfg cls s =
        (PBool False,
         s\<lparr>world := w1,
           trace := trace s @ [Call (cluster_healthy_fn cls) [],
                               Log ''warning'' ''%s: cluster health check [%s] failed.''
                                 [PStr (namespace cfg), PStr (cluster_healthy_fn cls)]],
           status := PBool False, last_check := env_clock env (world s)\<rparr>)"
    using cluster_healthy_probe_raises[of env s cls e w1 cfg] by blast
  have c: "\<not> env_clock env (world s) < last_check s + time_offset cls \<and>
    env_call env (cluster_healthy_fn cls) [] (world s) = (Inr st, w1) \<longrightarrow>
      cluster_healthy env cfg cls s =
        (st, s\<lparr>world := w1, trace := trace s @ [Call (cluster_healthy_fn cls) []],
               status := st, last_check := env_clock env (world s)\<rparr>)"
    using cluster_healthy_probe_returns[of env s cls st w1 cfg] by blast
  have d: "successively (\<lambda>a b. a + time_offset cls \<le> b) (probe_times env cfg cls fs s)"
    using probe_times_spaced[of cls s env cfg fs] by (cases "probe_times env cfg cls fs s") simp_all
  have e: "is_clustered env cls s0 = (Inr ic, s1) \<and> truthy ic \<and>
    cluster_healthy env cfg cls s1 = (h, s2) \<and> truthy h \<longrightarrow>
      (\<exists>rest. trace (snd (tdbwrap_config env cfg cls s0)) =
         trace s2 @ Call ''tdb.config''
           [PDict [(''name'', opt_str (service cfg)), (''tdb-options'', tdb_options cls)]] # rest) \<and>
      (\<exists>rest. trace (snd (tdbwrap_query env filter_list str_of cfg cls filters options s0)) =
         trace s2 @ Call ''tdb.query''
           [PDict [(''name'', PStr (namespace cfg)), (''tdb-options'', tdb_options cls)]] # rest)"
    using config_primary_healthy_trace[of env cls s0 ic s1 cfg h s2]
      query_primary_healthy_trace[of env cls s0 ic s1 cfg h s2 filter_list str_of filters options]
    by blast
  have f: "is_clustered env cls s0 = (Inr ic, s1) \<and> truthy ic \<and>
    cluster_healthy env cfg cls s1 = (h, s2) \<and> \<not> truthy h \<longrightarrow>
      (\<exists>rest. trace (snd (tdbwrap_config env cfg cls s0)) =
         trace s2 @ Call ''tdb.health''
           [PDict [(''name'', opt_str (service cfg)), (''tdb-options'', tdb_options cls)]] # rest) \<and>
      (\<exists>rest. trace (snd (tdbwrap_query env filter_list str_of cfg cls filters options s0)) =
         trace s2 @ Call ''tdb.health''
           [PDict [(''name'', PStr (namespace cfg)), (''tdb-options'', tdb_options cls)]] # rest)"
    using config_primary_unhealthy_trace[of env cls s0 ic s1 cfg h s2]
      query_primary_unhealthy_trace[of env cls s0 ic s1 cfg h s2 filter_list str_of filters options]
    by blast
  show ?thesis
    by (rule conjI[OF a conjI[OF b conjI[OF c conjI[OF d conjI[OF e f]]]]])
qed

theorem health_probe_cached_per_interval_witness:
  "cluster_healthy down_env sample_config sample_tdb_class
     \<lparr>world = 100, trace = [], status = PNone, last_check = 0\<rparr> =
     (PBool False,
      \<lparr>world = 100,
       trace = [Call ''ctdb.general.healthy'' [],
                Log ''warning'' ''%s: cluster health check [%s] failed.''
                  [PStr ''user'', PStr ''ctdb.general.healthy'']],
       status = PBool False, last_check = 100\<rparr>) \<and>
   cluster_healthy down_env sample_config sample_tdb_class
     \<lparr>world = 110, trace = [], status = PBool False, last_check = 100\<rparr> =
     (PBool False, \<lparr>world = 110, trace = [], status = PBool False, last_check = 100\<rparr>) \<and>
   (\<exists>rest. trace (snd (tdbwrap_config down_env sample_config sample_tdb_class
                          \<lparr>world = 110, trace = [], status = PBool False, last_check = 100\<rparr>)) =
      [Call ''smb.get_smb_ha_mode'' [],
       Call ''tdb.health'' [PDict [(''name'', PNone),
                                   (''tdb-options'', tdb_options sample_tdb_class)]]] @ rest)"
proof -
  have p1: "cluster_healthy down_env sample_config sample_tdb_class
     \<lparr>world = 100, trace = [], status = PNone, last_check = 0\<rparr> =
     (PBool False,
      \<lparr>world = 100,
       trace = [Call ''ctdb.general.healthy'' [],
                Log ''warning'' ''%s: cluster health check [%s] failed.''
                  [PStr ''user'', PStr ''ctdb.general.healthy'']],
       status = PBool False, last_check = 100\<rparr>)"
    using health_probe_cached_per_interval[where env = down_env and cls = sample_tdb_class
        and cfg = sample_config
        and s = "\<lparr>world = 100, trace = [], status = PNone, last_check = 0\<rparr>"
        and e = "OtherException ''no reply''" and ?w1.0 = 100]
    by (simp add: down_env_def sample_tdb_class_def sample_config_def)
  have p2: "cluster_healthy down_env sample_config sample_tdb_class
     \<lparr>world = 110, trace = [], status = PBool False, last_check = 100\<rparr> =
     (PBool False, \<lparr>world = 110, trace = [], status = PBool False, last_check = 100\<rparr>)"
    using health_probe_cached_per_interval[where env = down_env and cls = sample_tdb_class
        and cfg = sample_config
        and s = "\<lparr>world = 110, trace = [], status = PBool False, last_check = 100\<rparr>"]
    by (simp add: down_env_def sample_tdb_class_def)
  have ic: "is_clustered down_env sample_tdb_class
      \<lparr>world = 110, trace = [], status = PBool False, last_check = 100\<rparr> =
      (Inr (PBool True),
       \<lparr>world = 110, trace = [Call ''smb.get_smb_ha_mode'' []], status = PBool False,
        last_check = 100\<rparr>)"
    by (simp add: is_clustered_def mw_call_def down_env_def sample_tdb_class_def)
  have ch: "cluster_healthy down_env sample_config sample_tdb_class
      \<lparr>world = 110, trace = [Call ''smb.get_smb_ha_mode'' []], status = PBool False,
        last_check = 100\<rparr> =
      (PBool False,
       \<lparr>world = 110, trace = [Call ''smb.get_smb_ha_mode'' []], status = PBool False,
        last_check = 100\<rparr>)"
    by (simp add: cluster_healthy_def down_env_def sample_tdb_class_def)
  have p3: "\<exists>rest. trace (snd (tdbwrap_config down_env sample_config sample_tdb_class
                          \<lparr>world = 110, trace = [], status = PBool False, last_check = 100\<rparr>)) =
      [Call ''smb.get_smb_ha_mode'' [],
       Call ''tdb.health'' [PDict [(''name'', PNone),
                                   (''tdb-options'', tdb_options sample_tdb_class)]]] @ rest"
    using health_probe_cached_per_interval[where env = down_env and cls = sample_tdb_class
        and cfg = sample_config
        and ?s0.0 = "\<lparr>world = 110, trace = [], status = PBool False, last_check = 100\<rparr>"
        and ic = "PBool True"
        and ?s1.0 = "\<lparr>world = 110, trace = [Call ''smb.get_smb_ha_mode'' []], status = PBool False,
        last_check = 100\<rparr>"
        and h = "PBool False"
        and ?s2.0 = "\<lparr>world = 110, trace = [Call ''smb.get_smb_ha_mode'' []], status = PBool False,
        last_check = 100\<rparr>"] ic ch
    by (simp add: sample_config_def)
  from p1 p2 p3 show ?thesis by blast
qed

subsection \<open>Degraded replicated store: reads fall back, writes are refused\<close>

lemma is_clustered_trace:
  "is_clustered env cls s = (r, s1) \<Longrightarrow> trace s1 = trace s @ [is_clustered_probe cls]"
  by (auto simp: is_clustered_def is_clustered_probe_def mw_call_def
      split: option.splits prod.splits sum.splits)

lemma cluster_healthy_trace:
  "cluster_healthy env cfg cls s = (h, s1) \<Longrightarrow>
   \<exists>acts. trace s1 = trace s @ acts \<and> set acts \<subseteq> health_actions cfg cls"
  by (auto simp: cluster_healthy_def health_actions_def mw_call_def log_msg_def Let_def
      split: if_splits prod.splits sum.splits)

lemma gate_trace:
  assumes "is_clustered env cls s = (r, s1)" and "cluster_healthy env cfg cls s1 = (h, s2)"
  shows "\<exists>acts. trace s2 = trace s @ acts \<and> set acts \<subseteq> health_actions cfg cls"
proof -
  from cluster_healthy_trace[OF assms(2)] obtain acts where
    a: "trace s2 = trace s1 @ acts" "set acts \<subseteq> health_actions cfg cls" by blast
  from is_clustered_trace[OF assms(1)] a
  have "trace s2 = trace s @ (is_clustered_probe cls # acts)"
    and "set (is_clustered_probe cls # acts) \<subseteq> health_actions cfg cls"
    by (auto simp: health_actions_def)
  then show ?thesis by blast
qed

text \<open>
  Claim C2. On a clustered store whose primary probe (\<open>cluster_healthy\<close>) reports
  unhealthy: if the local-replica probe (\<open>db_healthy\<close>) reports unhealthy too, \<open>config\<close>
  and \<open>query\<close> return the default payload \<open>tdb_defaults\<close> and do not raise; and
  \<open>direct_update\<close> of the Config class and \<open>direct_create\<close>, \<open>direct_update\<close>,
  \<open>direct_delete\<close> of the CRUD class raise the \<open>CallError\<close> "Clustered configuration may
  not be altered while cluster is unhealthy." right after the primary probe: the only
  actions they add to the trace are those of the health gate, so nothing is written.
\<close>

theorem degraded_reads_default_writes_refused:
  assumes clustered: "is_clustered env cls s = (Inr ic, s1)" "truthy ic"
    and primary: "cluster_healthy env cfg cls s1 = (h, s2)" "\<not> truthy h"
  shows
    "(db_healthy env cfg cls (opt_str (service cfg)) s2 = (False, s3) \<longrightarrow>
        tdbwrap_config env cfg cls s = (Inr (tdb_defaults cls), s3)) \<and>
     (db_healthy env cfg cls (PStr (namespace cfg)) s2 = (False, s3) \<longrightarrow>
        tdbwrap_query env filter_list str_of cfg cls filters options s =
          (Inr (tdb_defaults cls), s3)) \<and>
     tdbwrap_config_direct_update env cfg cls upd s =
       (Inl (CallError ''Clustered configuration may not be altered while cluster is unhealthy.''
               None None), s2) \<and>
     tdbwrap_direct_create env cfg cls data s =
       (Inl (CallError ''Clustered configuration may not be altered while cluster is unhealthy.''
               None None), s2) \<and>
     tdbwrap_direct_update env cfg cls ident data s =
       (Inl (CallError ''Clustered configuration may not be altered while cluster is unhealthy.''
               None None), s2) \<and>
     tdbwrap_direct_delete env cfg cls ident s =
       (Inl (CallError ''Clustered configuration may not be altered while cluster is unhealthy.''
               None None), s2) \<and>
     (\<exists>acts. trace s2 = trace s @ acts \<and> set acts \<subseteq> health_actions cfg cls)"
proof -
  have r1: "db_healthy env cfg cls (opt_str (service cfg)) s2 = (False, s3) \<longrightarrow>
        tdbwrap_config env cfg cls s = (Inr (tdb_defaults cls), s3)"
    using assms by (simp add: tdbwrap_config_def reads_unhealthy_def)
  have r2: "db_healthy env cfg cls (PStr (namespace cfg)) s2 = (False, s3) \<longrightarrow>
        tdbwrap_query env filter_list str_of cfg cls filters options s =
          (Inr (tdb_defaults cls), s3)"
    using assms by (simp add: tdbwrap_query_def reads_unhealthy_def)
  have w1: "tdbwrap_config_direct_update env cfg cls upd s =
       (Inl (CallError ''Clustered configuration may not be altered while cluster is unhealthy.''
               None None), s2)"
    using assms by (simp add: tdbwrap_config_direct_update_def unhealthy_error_def)
  have w2: "tdbwrap_direct_create env cfg cls data s =
       (Inl (CallError ''Clustered configuration may not be altered while cluster is unhealthy.''
               None None), s2)"
    using assms by (simp add: tdbwrap_direct_create_def unhealthy_error_def)
  have w3: "tdbwrap_direct_update env cfg cls ident data s =
       (Inl (CallError ''Clustered configuration may not be altered while cluster is unhealthy.''
               None None), s2)"
    using assms by (simp add: tdbwrap_direct_update_def unhealthy_error_def)
  have w4: "tdbwrap_direct_delete env cfg cls ident s =
       (Inl (CallError ''Clustered configuration may not be altered while cluster is unhealthy.''
               None None), s2)"
    using assms by (simp add: tdbwrap_direct_delete_def unhealthy_error_def)
  have t: "\<exists>acts. trace s2 = trace s @ acts \<and> set acts \<subseteq> health_actions cfg cls"
    using gate_trace[OF clustered(1) primary(1)] .
  show ?thesis
    by (rule conjI[OF r1 conjI[OF r2 conjI[OF w1 conjI[OF w2 conjI[OF w3 conjI[OF w4 t]]]]]])
qed

theorem degraded_reads_default_writes_refused_witness:
  "tdbwrap_config down_env sample_config sample_tdb_class
     \<lparr>world = 100, trace = [], status = PNone, last_check = 0\<rparr> =
     (Inr (PDict [(''enabled'', PBool False)]),
      \<lparr>world = 100,
       trace = [Call ''smb.get_smb_ha_mode'' [],
                Call ''ctdb.general.healthy'' [],
                Log ''warning'' ''%s: cluster health check [%s] failed.''
                  [PStr ''user'', PStr ''ctdb.general.healthy''],
                Call ''tdb.health'' [PDict [(''name'', PNone),
                                            (''tdb-options'', tdb_options sample_tdb_class)]],
                Log ''warning'' ''%s: health status is [%s] returning default value''
                  [PNone, PStr ''PARTITIONED'']],
       status = PBool False, last_check = 100\<rparr>) \<and>
   tdbwrap_config_direct_update down_env sample_config sample_tdb_class
     [(''enabled'', PBool True)]
     \<lparr>world = 100, trace = [], status = PNone, last_check = 0\<rparr> =
     (Inl (CallError ''Clustered configuration may not be altered while cluster is unhealthy.''
             None None),
      \<lparr>world = 100,
       trace = [Call ''smb.get_smb_ha_mode'' [],
                Call ''ctdb.general.healthy'' [],
                Log ''warning'' ''%s: cluster health check [%s] failed.''
                  [PStr ''user'', PStr ''ctdb.general.healthy'']],
       status = PBool False, last_check = 100\<rparr>)"
proof -
  let ?s = "\<lparr>world = 100::real, trace = [], status = PNone, last_check = 0\<rparr>"
  let ?s1 = "\<lparr>world = 100::real, trace = [Call ''smb.get_smb_ha_mode'' []], status = PNone,
              last_check = 0\<rparr>"
  let ?s2 = "\<lparr>world = 100::real,
       trace = [Call ''smb.get_smb_ha_mode'' [],
                Call ''ctdb.general.healthy'' [],
                Log ''warning'' ''%s: cluster health check [%s] failed.''
                  [PStr ''user'', PStr ''ctdb.general.healthy'']],
       status = PBool False, last_check = 100\<rparr>"
  let ?s3 = "\<lparr>world = 100::real,
       trace = [Call ''smb.get_smb_ha_mode'' [],
                Call ''ctdb.general.healthy'' [],
                Log ''warning'' ''%s: cluster health check [%s] failed.''
                  [PStr ''user'', PStr ''ctdb.general.healthy''],
                Call ''tdb.health'' [PDict [(''name'', PNone),
                                            (''tdb-options'', tdb_options sample_tdb_class)]],
                Log ''warning'' ''%s: health status is [%s] returning default value''
                  [PNone, PStr ''PARTITIONED'']],
       status = PBool False, last_check = 100\<rparr>"
  have ic: "is_clustered down_env sample_tdb_class ?s = (Inr (PBool True), ?s1)"
    by (simp add: is_clustered_def mw_call_def down_env_def sample_tdb_class_def)
  have ch: "cluster_healthy down_env sample_config sample_tdb_class ?s1 = (PBool False, ?s2)"
    by (simp add: cluster_healthy_def mw_call_def log_msg_def down_env_def sample_tdb_class_def
        sample_config_def)
  have db: "db_healthy down_env sample_config sample_tdb_class (opt_str (service sample_config)) ?s2
      = (False, ?s3)"
    by (simp add: db_healthy_def mw_call_def log_msg_def down_env_def sample_config_def)
  have tr: "truthy (PBool True)" and fa: "\<not> truthy (PBool False)" by simp_all
  from degraded_reads_default_writes_refused[OF ic tr ch fa, where ?s3.0 = ?s3
      and upd = "[(''enabled'', PBool True)]"] db
  show ?thesis
    by (simp add: sample_tdb_class_def)
qed

subsection \<open>Version mismatch on the replicated store\<close>

lemma through_extend_none:
  "\<not> truthy_str (datastore_extend cfg) \<Longrightarrow> through_extend env cfg d s = (Inr d, s)"
  by (cases "datastore_extend cfg") (simp_all add: through_extend_def)

lemma config_read_version_mismatch:
  assumes "env_fetch env ''tdb.config''
             [PDict [(''name'', opt_str (service cfg)), (''tdb-options'', tdb_options cls)]]
             (world s) = (Inr p, w1)"
    and "pversion p = Some v" and "v \<noteq> service_version cls"
  shows "tdbwrap_config_read env cfg cls s =
     through_extend env cfg (tdb_defaults cls)
       (s\<lparr>world := w1,
          trace := trace s @
            [Call ''tdb.config''
               [PDict [(''name'', opt_str (service cfg)), (''tdb-options'', tdb_options cls)]],
             version_mismatch_log cfg]\<rparr>)"
  using assms
  by (auto simp: tdbwrap_config_read_def mw_call_def log_msg_def version_mismatch_log_def Let_def)

lemma query_read_version_mismatch:
  assumes "env_fetch env ''tdb.query''
             [PDict [(''name'', PStr (namespace cfg)), (''tdb-options'', tdb_options cls)]]
             (world s) = (Inr p, w1)"
    and "pversion p = Some v" and "v \<noteq> service_version cls"
  shows "tdbwrap_query_read env filter_list str_of cfg cls filters options s =
     (Inr (tdb_defaults cls),
      s\<lparr>world := w1,
        trace := trace s @
          [Call ''tdb.query''
             [PDict [(''name'', PStr (namespace cfg)), (''tdb-options'', tdb_options cls)]]] @
          (if pdata p = PNone then [] else [version_mismatch_log cfg])\<rparr>)"
  using assms
  by (auto simp: tdbwrap_query_read_def mw_call_def log_msg_def version_mismatch_log_def)

lemma config_direct_update_rejected:
  assumes "is_clustered env cls s = (Inr ic, s1)" and "truthy ic"
    and "cluster_healthy env cfg cls s1 = (h, s2)" and "truthy h"
    and "env_fetch env ''tdb.config''
             [PDict [(''name'', opt_str (service cfg)), (''tdb-options'', tdb_options cls)]]
             (world s2) = (Inr p, w3)"
    and "pversion p = Some v"
    and "py_dict_update (if pdata p = PNone then tdb_defaults cls else pdata p) upd = Inr new"
    and "env_call env ''tdb.config_update''
             [PDict [(''name'', opt_str (service cfg)),
                     (''payload'', PDict [(''version'', version_val (service_version cls)),
                                          (''data'', new)]),
                     (''tdb-options'', tdb_options cls)]] w3 = (Inl ValueError, w4)"
  shows "tdbwrap_config_direct_update env cfg cls upd s =
     (Inl (CallError
             (namespace cfg @ '': service version mismatch. '' @
              ''Node: '' @ str_int (major (service_version cls)) @ ''.'' @
              str_int (minor (service_version cls)) @
              ''cluster: '' @ str_int (major v) @ ''.'' @ str_int (minor v))
             None None),
      s2\<lparr>world := w4,
         trace := trace s2 @
           [Call ''tdb.config''
              [PDict [(''name'', opt_str (service cfg)), (''tdb-options'', tdb_options cls)]],
            Call ''tdb.config_update''
              [PDict [(''name'', opt_str (service cfg)),
                      (''payload'', PDict [(''version'', version_val (service_version cls)),
                                           (''data'', new)]),
                      (''tdb-options'', tdb_options cls)]]]\<rparr>)"
  using assms
  by (simp add: tdbwrap_config_direct_update_def mw_call_def)

lemma mismatch_gate:
  "is_clustered mismatch_env sample_tdb_class
     \<lparr>world = 100, trace = [], status = PNone, last_check = 0\<rparr> =
     (Inr (PBool True),
      \<lparr>world = 100, trace = [Call ''smb.get_smb_ha_mode'' []], status = PNone, last_check = 0\<rparr>)"
  "cluster_healthy mismatch_env sample_config sample_tdb_class
     \<lparr>world = 100, trace = [Call ''smb.get_smb_ha_mode'' []], status = PNone, last_check = 0\<rparr> =
     (PBool True,
      \<lparr>world = 100, trace = [Call ''smb.get_smb_ha_mode'' [], Call ''ctdb.general.healthy'' []],
       status = PBool True, last_check = 100\<rparr>)"
  by (simp_all add: is_clustered_def cluster_healthy_def mw_call_def mismatch_env_def
      sample_tdb_class_def)

text \<open>
  The write paths of the CRUD class never read the stored stamp; on a rejected write
  their error gives the version of the node.
\<close>

lemma crud_direct_update_names_local_version:
  "fst (tdbwrap_direct_update mismatch_env sample_config sample_tdb_class (PInt 1)
          (PDict [(''enabled'', PBool True)])
          \<lparr>world = 100, trace = [], status = PNone, last_check = 0\<rparr>) =
     Inl (CallError ''user: service version mismatch. Node: 0.1'' None None)"
  by (simp add: tdbwrap_direct_update_def mismatch_gate)
    (simp add: node_version_error_def mw_call_def mismatch_env_def sample_config_def
      sample_tdb_class_def str_int_def str_nat.simps)

text \<open>
  Claim C3. When the stored version stamp differs from \<open>service_version\<close>, a read on a
  clustered, healthy backend logs an error and returns the default payload instead of
  the stored data. \<open>config\<close> of a Config service that registers an extend method departs
  from this: it logs \<open>Returning default values.\<close> and then returns what the extend method
  makes of the default payload. The class documents \<open>tdb_defaults\<close> as the value returned
  on a version mismatch, and the unhealthy branch of the same method and \<open>query\<close> of the
  CRUD class return it as it is. The run below is \<open>config\<close> of a service of version 0.1
  with defaults \<open>{'enabled': False}\<close>, on a backend that holds \<open>{'enabled': True}\<close>
  stamped 0.2; the extend method wraps its argument.
\<close>

theorem config_version_mismatch_returns_extended:
  "tdbwrap_config mismatch_env sample_config sample_tdb_class
     \<lparr>world = 100, trace = [], status = PNone, last_check = 0\<rparr> =
     (Inr (PDict [(''extended'', PList [PDict [(''enabled'', PBool False)]])]),
      \<lparr>world = 100,
       trace =
         [Call ''smb.get_smb_ha_mode'' [],
          Call ''ctdb.general.healthy'' [],
          Call ''tdb.config''
            [PDict [(''name'', PNone), (''tdb-options'', tdb_options sample_tdb_class)]],
          Log ''error''
            (''%s: Service version mismatch. Service update migration is required. '' @
             ''Returning default values.'')
            [PStr ''user''],
          Call ''user.user_extend'' [PDict [(''enabled'', PBool False)]]],
       status = PBool True, last_check = 100\<rparr>) \<and>
   tdb_defaults sample_tdb_class = PDict [(''enabled'', PBool False)] \<and>
   PDict [(''extended'', PList [PDict [(''enabled'', PBool False)]])] \<noteq>
     tdb_defaults sample_tdb_class"
proof -
  have r: "tdbwrap_config mismatch_env sample_config sample_tdb_class
     \<lparr>world = 100, trace = [], status = PNone, last_check = 0\<rparr> =
     (Inr (PDict [(''extended'', PList [PDict [(''enabled'', PBool False)]])]),
      \<lparr>world = 100,
       trace =
         [Call ''smb.get_smb_ha_mode'' [],
          Call ''ctdb.general.healthy'' [],
          Call ''tdb.config''
            [PDict [(''name'', PNone), (''tdb-options'', tdb_options sample_tdb_class)]],
          Log ''error''
            (''%s: Service version mismatch. Service update migration is required. '' @
             ''Returning default values.'')
            [PStr ''user''],
          Call ''user.user_extend'' [PDict [(''enabled'', PBool False)]]],
       status = PBool True, last_check = 100\<rparr>)"
    by (simp add: tdbwrap_config_def reads_unhealthy_def mismatch_gate tdbwrap_config_read_def)
      (simp add: through_extend_def log_msg_def mw_call_def mismatch_env_def sample_config_def
        sample_tdb_class_def)
  show ?thesis
    by (rule conjI [OF r]) (simp add: sample_tdb_class_def)
qed

subsection \<open>Double-checked insert-or-fetch\<close>

lemma callers_inv_init: "callers_inv (first_access n)"
  by (simp add: callers_inv_def first_access_def)

lemma caller_step_length: "length (pcs (caller_step i s)) = length (pcs s)"
  by (simp add: caller_step_def split: pc.splits)

lemma callers_mutex:
  assumes "callers_inv s" and "i < length (pcs s)" and "j < length (pcs s)"
    and "in_lock (pcs s ! i)" and "in_lock (pcs s ! j)"
  shows "i = j"
proof -
  from assms have "lock_holder s = Some i" and "lock_holder s = Some j"
    by (auto simp: callers_inv_def)
  then show ?thesis by simp
qed

lemma caller_step_inv: "callers_inv s \<Longrightarrow> callers_inv (caller_step i s)"
proof (cases "i < length (pcs s)")
  case False
  assume "callers_inv s"
  with False show ?thesis by (simp add: caller_step_def)
next
  case True
  assume inv: "callers_inv s"
  show ?thesis
  proof (cases "pcs s ! i")
    case Read1
    with inv True show ?thesis
      by (auto simp: callers_inv_def caller_step_def nth_list_update)
  next
    case WaitLock
    with inv True show ?thesis
      by (auto simp: callers_inv_def caller_step_def nth_list_update)
  next
    case Read2
    with inv True show ?thesis
      by (auto simp: callers_inv_def caller_step_def nth_list_update)
  next
    case Insert
    have other: "pcs s ! j \<noteq> Insert" if "j < length (pcs s)" and "j \<noteq> i" for j
      using callers_mutex[OF inv that(1) True] that(2) Insert by auto
    from inv True Insert have "n_rows s = 0" and "n_inserts s = 0"
      by (auto simp: callers_inv_def)
    with inv True Insert other show ?thesis
      by (auto simp: callers_inv_def caller_step_def nth_list_update)
  next
    case Read3
    with inv True show ?thesis
      by (auto simp: callers_inv_def caller_step_def nth_list_update)
  next
    case Done
    with inv True show ?thesis by (simp add: caller_step_def)
  next
    case Failed
    with inv True show ?thesis by (simp add: caller_step_def)
  qed
qed

lemma run_schedule_inv: "callers_inv s \<Longrightarrow> callers_inv (run_schedule sched s)"
  by (induction sched arbitrary: s) (auto intro: caller_step_inv)

lemma run_schedule_first_access: "callers_inv (run_schedule sched (first_access n))"
  by (rule run_schedule_inv) (rule callers_inv_init)

lemma callers_inv_done:
  assumes "callers_inv s" and "Done \<in> set (pcs s)"
  shows "n_inserts s = 1"
proof -
  from assms(2) obtain i where "i < length (pcs s)" and "pcs s ! i = Done"
    by (auto simp: in_set_conv_nth)
  with assms(1) show ?thesis by (auto simp: callers_inv_def)
qed

lemma callers_inv_not_failed:
  assumes "callers_inv s"
  shows "Failed \<notin> set (pcs s)"
proof
  assume "Failed \<in> set (pcs s)"
  then obtain i where "i < length (pcs s)" and "pcs s ! i = Failed"
    by (auto simp: in_set_conv_nth)
  with assms show False by (auto simp: callers_inv_def)
qed

lemma get_or_insert_found:
  "callee ''datastore.config'' [ds, opts] (world s) = (r, w1) \<Longrightarrow> r \<noteq> Inl IndexError \<Longrightarrow>
   get_or_insert callee ds opts s =
     (r, s\<lparr>world := w1, trace := trace s @ [Call ''datastore.config'' [ds, opts]]\<rparr>)"
  by (cases r; cases "projl r")
    (simp_all add: get_or_insert_def mw_call_def)

lemma get_or_insert_found_under_lock:
  "callee ''datastore.config'' [ds, opts] (world s) = (Inl IndexError, w1) \<Longrightarrow>
   callee ''datastore.config'' [ds, opts] w1 = (r, w2) \<Longrightarrow> r \<noteq> Inl IndexError \<Longrightarrow>
   get_or_insert callee ds opts s =
     (r, s\<lparr>world := w2,
            trace := trace s @ [Call ''datastore.config'' [ds, opts],
                                Acquire ''get_or_insert_lock'',
                                Call ''datastore.config'' [ds, opts],
                                Release ''get_or_insert_lock'']\<rparr>)"
  by (cases r; cases "projl r")
    (simp_all add: get_or_insert_def mw_call_def)

lemma get_or_insert_inserts:
  "callee ''datastore.config'' [ds, opts] (world s) = (Inl IndexError, w1) \<Longrightarrow>
   callee ''datastore.config'' [ds, opts] w1 = (Inl IndexError, w2) \<Longrightarrow>
   callee ''datastore.insert'' [ds, PDict []] w2 = (Inr x, w3) \<Longrightarrow>
   callee ''datastore.config'' [ds, opts] w3 = (r, w4) \<Longrightarrow>
   get_or_insert callee ds opts s =
     (r, s\<lparr>world := w4,
            trace := trace s @ [Call ''datastore.config'' [ds, opts],
                                Acquire ''get_or_insert_lock'',
                                Call ''datastore.config'' [ds, opts],
                                Call ''datastore.insert'' [ds, PDict []],
                                Call ''datastore.config'' [ds, opts],
                                Release ''get_or_insert_lock'']\<rparr>)"
  by (simp add: get_or_insert_def mw_call_def)

text \<open>
  Claim C5. \<open>_get_or_insert\<close> returns the result of the first read unless that read
  raises not-found; then it takes the process-wide lock and reads again, returning that
  result unless it is not-found again; only then does it insert an empty row, read a
  third time and return that result, releasing the lock on every way out. For any
  number \<open>n\<close> of callers starting together on an empty table and any schedule of their
  steps: at most one insert is ever made, the table's rows are exactly the inserted
  ones, no caller fails, and as soon as one caller has returned exactly one insert has
  been made.
\<close>

theorem first_access_inserts_one_row:
  "(callee ''datastore.config'' [ds, opts] (world s) = (r, w1) \<and> r \<noteq> Inl IndexError \<longrightarrow>
      get_or_insert callee ds opts s =
        (r, s\<lparr>world := w1, trace := trace s @ [Call ''datastore.config'' [ds, opts]]\<rparr>)) \<and>
   (callee ''datastore.config'' [ds, opts] (world s) = (Inl IndexError, w1) \<and>
    callee ''datastore.config'' [ds, opts] w1 = (r, w2) \<and> r \<noteq> Inl IndexError \<longrightarrow>
      get_or_insert callee ds opts s =
        (r, s\<lparr>world := w2,
               trace := trace s @ [Call ''datastore.config'' [ds, opts],
                                   Acquire ''get_or_insert_lock'',
                                   Call ''datastore.config'' [ds, opts],
                                   Release ''get_or_insert_lock'']\<rparr>)) \<and>
   (callee ''datastore.config'' [ds, opts] (world s) = (Inl IndexError, w1) \<and>
    callee ''datastore.config'' [ds, opts] w1 = (Inl IndexError, w2) \<and>
    callee ''datastore.insert'' [ds, PDict []] w2 = (Inr x, w3) \<and>
    callee ''datastore.config'' [ds, opts] w3 = (r, w4) \<longrightarrow>
      get_or_insert callee ds opts s =
        (r, s\<lparr>world := w4,
               trace := trace s @ [Call ''datastore.config'' [ds, opts],
                                   Acquire ''get_or_insert_lock'',
                                   Call ''datastore.config'' [ds, opts],
                                   Call ''datastore.insert'' [ds, PDict []],
                                   Call ''datastore.config'' [ds, opts],
                                   Release ''get_or_insert_lock'']\<rparr>)) \<and>
   n_inserts (run_schedule sched (first_access n)) \<le> 1 \<and>
   n_rows (run_schedule sched (first_access n)) = n_inserts (run_schedule sched (first_access n)) \<and>
   (Done \<in> set (pcs (run_schedule sched (first_access n))) \<longrightarrow>
      n_inserts (run_schedule sched (first_access n)) = 1) \<and>
   Failed \<notin> set (pcs (run_schedule sched (first_access n)))"
proof -
  have inv: "callers_inv (run_schedule sched (first_access n))"
    by (rule run_schedule_first_access)
  have a: "callee ''datastore.config'' [ds, opts] (world s) = (r, w1) \<and> r \<noteq> Inl IndexError \<longrightarrow>
      get_or_insert callee ds opts s =
        (r, s\<lparr>world := w1, trace := trace s @ [Call ''datastore.config'' [ds, opts]]\<rparr>)"
    using get_or_insert_found[of callee ds opts s r w1] by blast
  have b: "callee ''datastore.config'' [ds, opts] (world s) = (Inl IndexError, w1) \<and>
    callee ''datastore.config'' [ds, opts] w1 = (r, w2) \<and> r \<noteq> Inl IndexError \<longrightarrow>
      get_or_insert callee ds opts s =
        (r, s\<lparr>world := w2,
               trace := trace s @ [Call ''datastore.config'' [ds, opts],
                                   Acquire ''get_or_insert_lock'',
                                   Call ''datastore.config'' [ds, opts],
                                   Release ''get_or_insert_lock'']\<rparr>)"
    using get_or_insert_found_under_lock[of callee ds opts s w1 r w2] by blast
  have c: "callee ''datastore.config'' [ds, opts] (world s) = (Inl IndexError, w1) \<and>
    callee ''datastore.config'' [ds, opts] w1 = (Inl IndexError, w2) \<and>
    callee ''datastore.insert'' [ds, PDict []] w2 = (Inr x, w3) \<and>
    callee ''datastore.config'' [ds, opts] w3 = (r, w4) \<longrightarrow>
      get_or_insert callee ds opts s =
        (r, s\<lparr>world := w4,
               trace := trace s @ [Call ''datastore.config'' [ds, opts],
                                   Acquire ''get_or_insert_lock'',
                                   Call ''datastore.config'' [ds, opts],
                                   Call ''datastore.insert'' [ds, PDict []],
                                   Call ''datastore.config'' [ds, opts],
                                   Release ''get_or_insert_lock'']\<rparr>)"
    using get_or_insert_inserts[of callee ds opts s w1 w2 x w3 r w4] by blast
  have d: "n_inserts (run_schedule sched (first_access n)) \<le> 1"
    and e: "n_rows (run_schedule sched (first_access n)) = n_inserts (run_schedule sched (first_access n))"
    using inv by (simp_all add: callers_inv_def)
  have f: "Done \<in> set (pcs (run_schedule sched (first_access n))) \<longrightarrow>
      n_inserts (run_schedule sched (first_access n)) = 1"
    using callers_inv_done[OF inv] by blast
  have g: "Failed \<notin> set (pcs (run_schedule sched (first_access n)))"
    using callers_inv_not_failed[OF inv] .
  show ?thesis
    by (rule conjI[OF a conjI[OF b conjI[OF c conjI[OF d conjI[OF e conjI[OF f g]]]]]])
qed

lemma three_callers_run:
  "run_schedule [0, 1, 2, 0, 1, 0, 0, 0, 1, 1, 2, 2] (first_access 3) =
     \<lparr>n_rows = 1, n_inserts = 1, lock_holder = None, pcs = [Done, Done, Done]\<rparr>"
  by (simp add: first_access_def caller_step_def numeral_3_eq_3)

theorem first_access_inserts_one_row_witness:
  "pcs (run_schedule [0, 1, 2, 0, 1, 0, 0, 0, 1, 1, 2, 2] (first_access 3)) = [Done, Done, Done] \<and>
   n_inserts (run_schedule [0, 1, 2, 0, 1, 0, 0, 0, 1, 1, 2, 2] (first_access 3)) = 1 \<and>
   n_rows (run_schedule [0, 1, 2, 0, 1, 0, 0, 0, 1, 1, 2, 2] (first_access 3)) = 1"
proof -
  note main = first_access_inserts_one_row[where sched = "[0, 1, 2, 0, 1, 0, 0, 0, 1, 1, 2, 2]"
      and n = 3]
  have p: "pcs (run_schedule [0, 1, 2, 0, 1, 0, 0, 0, 1, 1, 2, 2] (first_access 3)) =
      [Done, Done, Done]"
    unfolding three_callers_run by simp
  have e: "n_rows (run_schedule [0, 1, 2, 0, 1, 0, 0, 0, 1, 1, 2, 2] (first_access 3)) =
      n_inserts (run_schedule [0, 1, 2, 0, 1, 0, 0, 0, 1, 1, 2, 2] (first_access 3))"
    by (rule main[THEN conjunct2, THEN conjunct2, THEN conjunct2, THEN conjunct2, THEN conjunct1])
  have f: "Done \<in> set (pcs (run_schedule [0, 1, 2, 0, 1, 0, 0, 0, 1, 1, 2, 2] (first_access 3))) \<longrightarrow>
      n_inserts (run_schedule [0, 1, 2, 0, 1, 0, 0, 0, 1, 1, 2, 2] (first_access 3)) = 1"
    by (rule main[THEN conjunct2, THEN conjunct2, THEN conjunct2, THEN conjunct2, THEN conjunct2,
          THEN conjunct1])
  have "Done \<in> set (pcs (run_schedule [0, 1, 2, 0, 1, 0, 0, 0, 1, 1, 2, 2] (first_access 3)))"
    unfolding p by simp
  with f have i: "n_inserts (run_schedule [0, 1, 2, 0, 1, 0, 0, 0, 1, 1, 2, 2] (first_access 3)) = 1"
    by (rule mp)
  from p i e show ?thesis by simp
qed

subsection \<open>Admission control of the job scheduler\<close>

text \<open>
  Claim C9. When a job holds the lock \<open>l\<close> and the wait queue of \<open>l\<close> holds as many jobs
  as the method's \<open>lock_queue_size\<close> allows, submitting one more job for \<open>l\<close> leaves the
  scheduler as it is (no job is created) and, the queue being non-empty, returns the id
  of the job at its tail.
\<close>

theorem full_wait_queue_coalesces:
  assumes "lock_name opts args = Some l"
    and "holder (lock_table sched l) = Some h"
    and "lock_queue_size opts = Some (int N)"
    and "length (wait_queue (lock_table sched l)) = N"
  shows "snd (submit opts method args sched) = sched \<and>
         (0 < N \<longrightarrow>
            fst (submit opts method args sched) = Some (last (wait_queue (lock_table sched l))))"
  using assms by (cases "wait_queue (lock_table sched l)") (auto simp: submit_def)

lemma disk_scenario:
  "submit disk_job ''disk.wipe'' [] empty_scheduler =
     (Some 1,
      \<lparr>next_id = 2,
       job_table = [\<lparr>job_id = 1, job_method = ''disk.wipe'', job_args = [],
                     job_lock = Some ''disk:sda'', job_state = RUNNING\<rparr>],
       lock_table = (\<lambda>l. \<lparr>holder = None, wait_queue = []\<rparr>)
         (''disk:sda'' := \<lparr>holder = Some 1, wait_queue = []\<rparr>)\<rparr>)"
  "submit disk_job ''disk.wipe'' []
     \<lparr>next_id = 2,
       job_table = [\<lparr>job_id = 1, job_method = ''disk.wipe'', job_args = [],
                     job_lock = Some ''disk:sda'', job_state = RUNNING\<rparr>],
       lock_table = (\<lambda>l. \<lparr>holder = None, wait_queue = []\<rparr>)
         (''disk:sda'' := \<lparr>holder = Some 1, wait_queue = []\<rparr>)\<rparr> =
     (Some 2,
      \<lparr>next_id = 3,
       job_table = [\<lparr>job_id = 1, job_method = ''disk.wipe'', job_args = [],
                     job_lock = Some ''disk:sda'', job_state = RUNNING\<rparr>,
                    \<lparr>job_id = 2, job_method = ''disk.wipe'', job_args = [],
                     job_lock = Some ''disk:sda'', job_state = WAITING\<rparr>],
       lock_table = (\<lambda>l. \<lparr>holder = None, wait_queue = []\<rparr>)
         (''disk:sda'' := \<lparr>holder = Some 1, wait_queue = [2]\<rparr>)\<rparr>)"
  by (simp_all add: submit_def disk_job_def job_def lock_name_def new_job_def empty_scheduler_def)

theorem full_wait_queue_coalesces_witness:
  "submit disk_job ''disk.wipe'' []
     \<lparr>next_id = 3,
       job_table = [\<lparr>job_id = 1, job_method = ''disk.wipe'', job_args = [],
                     job_lock = Some ''disk:sda'', job_state = RUNNING\<rparr>,
                    \<lparr>job_id = 2, job_method = ''disk.wipe'', job_args = [],
                     job_lock = Some ''disk:sda'', job_state = WAITING\<rparr>],
       lock_table = (\<lambda>l. \<lparr>holder = None, wait_queue = []\<rparr>)
         (''disk:sda'' := \<lparr>holder = Some 1, wait_queue = [2]\<rparr>)\<rparr> =
     (Some 2,
      \<lparr>next_id = 3,
       job_table = [\<lparr>job_id = 1, job_method = ''disk.wipe'', job_args = [],
                     job_lock = Some ''disk:sda'', job_state = RUNNING\<rparr>,
                    \<lparr>job_id = 2, job_method = ''disk.wipe'', job_args = [],
                     job_lock = Some ''disk:sda'', job_state = WAITING\<rparr>],
       lock_table = (\<lambda>l. \<lparr>holder = None, wait_queue = []\<rparr>)
         (''disk:sda'' := \<lparr>holder = Some 1, wait_queue = [2]\<rparr>)\<rparr>)"
proof -
  let ?s = "\<lparr>next_id = 3,
       job_table = [\<lparr>job_id = 1, job_method = ''disk.wipe'', job_args = [],
                     job_lock = Some ''disk:sda'', job_state = RUNNING\<rparr>,
                    \<lparr>job_id = 2, job_method = ''disk.wipe'', job_args = [],
                     job_lock = Some ''disk:sda'', job_state = WAITING\<rparr>],
       lock_table = (\<lambda>l. \<lparr>holder = None, wait_queue = []\<rparr>)
         (''disk:sda'' := \<lparr>holder = Some 1, wait_queue = [2]\<rparr>)\<rparr>"
  have ln: "lock_name disk_job [] = Some ''disk:sda''"
    by (simp add: lock_name_def disk_job_def job_def)
  have h: "holder (lock_table ?s ''disk:sda'') = Some 1" by simp
  have q: "lock_queue_size disk_job = Some (int 1)"
    by (simp add: disk_job_def job_def)
  have len: "length (wait_queue (lock_table ?s ''disk:sda'')) = 1" by simp
  from full_wait_queue_coalesces[OF ln h q len, of "''disk.wipe''"]
  show ?thesis by (simp add: prod_eq_iff)
qed

subsection \<open>Deep copies of the default payload\<close>

lemma those_map_Some:
  "those (map f xs) = Some ys \<Longrightarrow> (\<And>x y. x \<in> set xs \<Longrightarrow> f x = Some y \<Longrightarrow> g x = Some y)
   \<Longrightarrow> those (map g xs) = Some ys"
proof (induction xs arbitrary: ys)
  case Nil
  then show ?case by simp
next
  case (Cons x xs)
  from Cons.prems(1) obtain y ys' where y: "f x = Some y" and ys': "those (map f xs) = Some ys'"
    and ys: "ys = y # ys'"
    by (auto split: option.splits)
  have "g x = Some y" using Cons.prems(2) y by simp
  moreover have "those (map g xs) = Some ys'"
    using Cons.IH [OF ys'] Cons.prems(2) by simp
  ultimately show ?case using ys by simp
qed

lemma those_map_defined:
  "(\<And>x. x \<in> set xs \<Longrightarrow> \<exists>y. f x = Some y) \<Longrightarrow> \<exists>ys. those (map f xs) = Some ys"
proof (induction xs)
  case Nil
  then show ?case by simp
next
  case (Cons x xs)
  from Cons.prems obtain y where "f x = Some y" by auto
  moreover from Cons obtain ys where "those (map f xs) = Some ys" by auto
  ultimately show ?case by simp
qed

lemma take_length_le: "take (length h) h1 = h \<Longrightarrow> length h \<le> length h1"
  by (metis length_take min.cobounded1 min.commute)

lemma take_length_ext: "take (length h1) h2 = h1 \<Longrightarrow> \<exists>ext. h2 = h1 @ ext"
  by (metis append_take_drop_id)

lemma content_mono_prefix:
  "content f h v = Some t \<Longrightarrow> f \<le> g \<Longrightarrow> take (length h) h2 = h \<Longrightarrow> content g h2 v = Some t"
proof (induction f h v arbitrary: t g rule: content.induct)
  case (5 fuel h vs)
  from 5(2) obtain ts where ts: "those (map (content fuel h) vs) = Some ts" and t: "t = PTuple ts"
    by auto
  have "those (map (content g h2) vs) = Some ts"
    by (rule those_map_Some [OF ts]) (rule 5(1) [OF _ _ 5(3) 5(4)])
  then show ?case using t by simp
next
  case (7 fuel h a)
  from 7(4) obtain g' where g: "g = Suc g'" and fg: "fuel \<le> g'"
    by (cases g) simp_all
  from 7(3) have a: "a < length h"
    by (simp split: if_splits)
  have a2: "a < length h2" using a take_length_le [OF 7(5)] by simp
  have nth: "h2 ! a = h ! a"
    using 7(5) a by (metis nth_take)
  show ?case
  proof (cases "h ! a")
    case (HList vs)
    from 7(3) a HList obtain ts where
      ts: "those (map (content fuel h) vs) = Some ts" and t: "t = PList ts"
      by auto
    have "those (map (content g' h2) vs) = Some ts"
      by (rule those_map_Some [OF ts]) (rule 7(1) [OF a HList _ _ fg 7(5)])
    then show ?thesis using g a2 nth HList t by simp
  next
    case (HDict kvs)
    from 7(3) a HDict obtain ts where
      ts: "those (map (\<lambda>kv. map_option (Pair (fst kv)) (content fuel h (snd kv))) kvs) = Some ts"
      and t: "t = PDict ts"
      by auto
    have step: "\<And>kv y. kv \<in> set kvs \<Longrightarrow> content fuel h (snd kv) = Some y
        \<Longrightarrow> content g' h2 (snd kv) = Some y"
      by (rule 7(2) [OF a HDict _ _ fg 7(5)])
    have "those (map (\<lambda>kv. map_option (Pair (fst kv)) (content g' h2 (snd kv))) kvs) = Some ts"
      by (rule those_map_Some [OF ts]) (auto dest: step)
    then show ?thesis using g a2 nth HDict t by simp
  qed
qed simp_all

lemma store_extends:
  "\<exists>ext. snd (store t h) = h @ ext"
  "\<exists>ext. snd (store_list ts h) = h @ ext"
  "\<exists>ext. snd (store_items kts h) = h @ ext"
proof (induction t h and ts h and kts h rule: store_store_list_store_items.induct)
  case (9 x xs h)
  obtain v h1 where s1: "store x h = (v, h1)" by (cases "store x h")
  obtain vs h2 where s2: "store_list xs h1 = (vs, h2)" by (cases "store_list xs h1")
  from 9(1) s1 obtain e1 where e1: "h1 = h @ e1" by auto
  from 9(2) [OF s1 [symmetric]] s2 obtain e2 where e2: "h2 = h1 @ e2" by auto
  show ?case using s1 s2 e1 e2 by simp
next
  case (11 kx kvs h)
  obtain v h1 where s1: "store (snd kx) h = (v, h1)" by (cases "store (snd kx) h")
  obtain vs h2 where s2: "store_items kvs h1 = (vs, h2)" by (cases "store_items kvs h1")
  from 11(1) s1 obtain e1 where e1: "h1 = h @ e1" by auto
  from 11(2) [OF s1 [symmetric]] s2 obtain e2 where e2: "h2 = h1 @ e2" by auto
  show ?case using s1 s2 e1 e2 by simp
qed (auto split: prod.splits)

lemma store_prefix:
  assumes "store t h = (v, h')"
  shows "take (length h) h' = h" and "length h \<le> length h'"
  using store_extends(1) [of t h] assms by auto

lemma store_list_prefix:
  assumes "store_list ts h = (vs, h')"
  shows "take (length h) h' = h" and "length h \<le> length h'"
  using store_extends(2) [of ts h] assms by auto

lemma store_items_prefix:
  assumes "store_items kts h = (kvs, h')"
  shows "take (length h) h' = h" and "length h \<le> length h'"
  using store_extends(3) [of kts h] assms by auto

lemma store_content:
  "content (length (snd (store t h))) (snd (store t h)) (fst (store t h)) = Some t"
  "those (map (content (length (snd (store_list ts h))) (snd (store_list ts h)))
            (fst (store_list ts h))) = Some ts"
  "those (map (\<lambda>kv. map_option (Pair (fst kv))
                       (content (length (snd (store_items kts h))) (snd (store_items kts h)) (snd kv)))
            (fst (store_items kts h))) = Some kts"
proof (induction t h and ts h and kts h rule: store_store_list_store_items.induct)
  case (5 xs h)
  obtain vs h1 where s: "store_list xs h = (vs, h1)" by (cases "store_list xs h")
  from 5 s have ts: "those (map (content (length h1) h1) vs) = Some xs" by simp
  have "those (map (content (length h1) (h1 @ [HList vs])) vs) = Some xs"
    by (rule those_map_Some [OF ts]) (rule content_mono_prefix, assumption, simp, simp)
  then show ?case using s by simp
next
  case (6 xs h)
  obtain vs h1 where s: "store_list xs h = (vs, h1)" by (cases "store_list xs h")
  from 6 s have ts: "those (map (content (length h1) h1) vs) = Some xs" by simp
  then show ?case using s by simp
next
  case (7 kvs h)
  obtain vs h1 where s: "store_items kvs h = (vs, h1)" by (cases "store_items kvs h")
  from 7 s have ts:
    "those (map (\<lambda>kv. map_option (Pair (fst kv)) (content (length h1) h1 (snd kv))) vs) = Some kvs"
    by simp
  have step: "\<And>u y. content (length h1) h1 u = Some y
      \<Longrightarrow> content (length h1) (h1 @ [HDict vs]) u = Some y"
    by (rule content_mono_prefix, assumption, simp, simp)
  have "those (map (\<lambda>kv. map_option (Pair (fst kv))
                 (content (length h1) (h1 @ [HDict vs]) (snd kv))) vs) = Some kvs"
    by (rule those_map_Some [OF ts]) (auto dest: step)
  then show ?case using s by simp
next
  case (9 x xs h)
  obtain v h1 where s1: "store x h = (v, h1)" by (cases "store x h")
  obtain vs h2 where s2: "store_list xs h1 = (vs, h2)" by (cases "store_list xs h1")
  from 9(1) s1 have c1: "content (length h1) h1 v = Some x" by simp
  from 9(2) [OF s1 [symmetric]] s2 have c2: "those (map (content (length h2) h2) vs) = Some xs"
    by simp
  have "content (length h2) h2 v = Some x"
    using content_mono_prefix [OF c1 store_list_prefix(2) [OF s2] store_list_prefix(1) [OF s2]] .
  then show ?case using s1 s2 c2 by simp
next
  case (11 kx kvs h)
  obtain v h1 where s1: "store (snd kx) h = (v, h1)" by (cases "store (snd kx) h")
  obtain vs h2 where s2: "store_items kvs h1 = (vs, h2)" by (cases "store_items kvs h1")
  from 11(1) s1 have c1: "content (length h1) h1 v = Some (snd kx)" by simp
  from 11(2) [OF s1 [symmetric]] s2 have c2:
    "those (map (\<lambda>kv. map_option (Pair (fst kv)) (content (length h2) h2 (snd kv))) vs) = Some kvs"
    by simp
  have "content (length h2) h2 v = Some (snd kx)"
    using content_mono_prefix [OF c1 store_items_prefix(2) [OF s2] store_items_prefix(1) [OF s2]] .
  then show ?case using s1 s2 c2 by simp
qed simp_all

lemma fresh_val_mono: "fresh_val n v \<Longrightarrow> m \<le> n \<Longrightarrow> fresh_val m v"
  by (induction n v rule: fresh_val.induct) simp_all

lemma closed_from_append:
  assumes "closed_from n h" and "closed_from (length h) (h @ ext)" and "n \<le> length h"
  shows "closed_from n (h @ ext)"
  unfolding closed_from_def
proof (intro ballI)
  fix a u
  assume a: "a \<in> {n..<length (h @ ext)}" and u: "u \<in> set (obj_values ((h @ ext) ! a))"
  show "fresh_val n u"
  proof (cases "a < length h")
    case True
    then have "(h @ ext) ! a = h ! a" by (simp add: nth_append)
    then show ?thesis using assms(1) a u True by (auto simp: closed_from_def)
  next
    case False
    then have "fresh_val (length h) u"
      using assms(2) a u by (auto simp: closed_from_def)
    then show ?thesis using assms(3) by (rule fresh_val_mono)
  qed
qed

lemma closed_from_snoc:
  assumes "closed_from n h" and "\<forall>u \<in> set (obj_values obj). fresh_val n u" and "n \<le> length h"
  shows "closed_from n (h @ [obj])"
  unfolding closed_from_def
proof (intro ballI)
  fix a u
  assume a: "a \<in> {n..<length (h @ [obj])}" and u: "u \<in> set (obj_values ((h @ [obj]) ! a))"
  show "fresh_val n u"
  proof (cases "a < length h")
    case True
    then have "(h @ [obj]) ! a = h ! a" by (simp add: nth_append)
    then show ?thesis using assms(1) a u True by (auto simp: closed_from_def)
  next
    case False
    then have "a = length h" using a by simp
    then show ?thesis using assms(2) u by simp
  qed
qed

lemma store_fresh:
  "fresh_val (length h) (fst (store t h)) \<and> closed_from (length h) (snd (store t h))"
  "(\<forall>u \<in> set (fst (store_list ts h)). fresh_val (length h) u) \<and>
     closed_from (length h) (snd (store_list ts h))"
  "(\<forall>u \<in> set (fst (store_items kts h)). fresh_val (length h) (snd u)) \<and>
     closed_from (length h) (snd (store_items kts h))"
proof (induction t h and ts h and kts h rule: store_store_list_store_items.induct)
  case (5 xs h)
  obtain vs h1 where s: "store_list xs h = (vs, h1)" by (cases "store_list xs h")
  have "closed_from (length h) (h1 @ [HList vs])"
    using 5 s store_list_prefix(2) [OF s] by (intro closed_from_snoc) simp_all
  then show ?case using s store_list_prefix(2) [OF s] by simp
next
  case (6 xs h)
  obtain vs h1 where s: "store_list xs h = (vs, h1)" by (cases "store_list xs h")
  show ?case using 6 s by simp
next
  case (7 kvs h)
  obtain vs h1 where s: "store_items kvs h = (vs, h1)" by (cases "store_items kvs h")
  have "closed_from (length h) (h1 @ [HDict vs])"
    using 7 s store_items_prefix(2) [OF s] by (intro closed_from_snoc) auto
  then show ?case using s store_items_prefix(2) [OF s] by simp
next
  case (9 x xs h)
  obtain v h1 where s1: "store x h = (v, h1)" by (cases "store x h")
  obtain vs h2 where s2: "store_list xs h1 = (vs, h2)" by (cases "store_list xs h1")
  obtain e where e: "h2 = h1 @ e" using store_extends(2) [of xs h1] s2 by auto
  from 9(1) s1 have f1: "fresh_val (length h) v" and c1: "closed_from (length h) h1" by simp_all
  from 9(2) [OF s1 [symmetric]] s2 have f2: "\<forall>u \<in> set vs. fresh_val (length h1) u"
    and c2: "closed_from (length h1) h2" by simp_all
  have le: "length h \<le> length h1" by (rule store_prefix(2) [OF s1])
  have "closed_from (length h) h2"
    using closed_from_append [OF c1 _ le] c2 e by simp
  moreover have "\<forall>u \<in> set vs. fresh_val (length h) u"
    using f2 le by (auto intro: fresh_val_mono)
  ultimately show ?case using s1 s2 f1 by simp
next
  case (11 kx kvs h)
  obtain v h1 where s1: "store (snd kx) h = (v, h1)" by (cases "store (snd kx) h")
  obtain vs h2 where s2: "store_items kvs h1 = (vs, h2)" by (cases "store_items kvs h1")
  obtain e where e: "h2 = h1 @ e" using store_extends(3) [of kvs h1] s2 by auto
  from 11(1) s1 have f1: "fresh_val (length h) v" and c1: "closed_from (length h) h1" by simp_all
  from 11(2) [OF s1 [symmetric]] s2 have f2: "\<forall>u \<in> set vs. fresh_val (length h1) (snd u)"
    and c2: "closed_from (length h1) h2" by simp_all
  have le: "length h \<le> length h1" by (rule store_prefix(2) [OF s1])
  have "closed_from (length h) h2"
    using closed_from_append [OF c1 _ le] c2 e by simp
  moreover have "\<forall>u \<in> set vs. fresh_val (length h) (snd u)"
    using f2 le by (auto intro: fresh_val_mono)
  ultimately show ?case using s1 s2 f1 by simp
qed (simp_all add: closed_from_def)

lemma value_of_frame:
  assumes "value_of h d = Some t" and "take (length h) h2 = h"
  shows "value_of h2 d = Some t"
proof -
  have "Suc (length h) \<le> Suc (length h2)"
    using take_length_le [OF assms(2)] by simp
  then show ?thesis
    using content_mono_prefix [of "Suc (length h)" h d t "Suc (length h2)" h2] assms
    by (simp add: value_of_def)
qed

lemma store_fresh_copy:
  assumes "store t h = (v, h')"
  shows "fresh_copy h t v h'"
proof -
  have "content (length h') h' v = Some t" using store_content(1) [of t h] assms by simp
  then have v: "value_of h' v = Some t"
    unfolding value_of_def by (rule content_mono_prefix) simp_all
  have f: "fresh_val (length h) v" and c: "closed_from (length h) h'"
    using store_fresh(1) [of h t] assms by simp_all
  show ?thesis
    unfolding fresh_copy_def by (intro conjI store_prefix(1) [OF assms] v f c)
qed

lemma deepcopy_fresh:
  assumes "value_of h d = Some t"
  shows "\<exists>v h'. deepcopy h d = Some (v, h') \<and> fresh_copy h t v h'"
proof -
  obtain v h' where s: "store t h = (v, h')" by (cases "store t h")
  have "deepcopy h d = Some (v, h')" using assms s by (simp add: deepcopy_def)
  then show ?thesis using store_fresh_copy [OF s] by blast
qed

lemma fresh_copy_trans:
  assumes "fresh_copy h t1 v1 h1" and "fresh_copy h1 t v2 h2"
  shows "fresh_copy h t v2 h2"
proof -
  have p1: "take (length h) h1 = h" and c1: "closed_from (length h) h1"
    using assms(1) unfolding fresh_copy_def by blast+
  have p2: "take (length h1) h2 = h1" and c2: "closed_from (length h1) h2"
    and f2: "fresh_val (length h1) v2" and v2: "value_of h2 v2 = Some t"
    using assms(2) unfolding fresh_copy_def by blast+
  have le: "length h \<le> length h1"
    by (rule take_length_le [OF p1])
  obtain ext where e: "h2 = h1 @ ext"
    using take_length_ext [OF p2] by blast
  have "take (length h) (h1 @ ext) = take (length h) h1"
    using le by simp
  then have p: "take (length h) h2 = h" unfolding e using p1 by simp
  have c2': "closed_from (length h1) (h1 @ ext)" using c2 unfolding e .
  have c: "closed_from (length h) h2"
    unfolding e by (rule closed_from_append [OF c1 c2' le])
  have f: "fresh_val (length h) v2" by (rule fresh_val_mono [OF f2 le])
  show ?thesis unfolding fresh_copy_def by (intro conjI p v2 f c)
qed

text \<open>
  The depth \<open>value_of\<close> reads to is enough on every heap whose objects refer to older
  objects only.
\<close>

lemma below_content:
  assumes "\<And>r. r < n \<Longrightarrow> \<exists>t. content f h (HRef r) = Some t"
  shows "below n u \<Longrightarrow> \<exists>y. content f h u = Some y"
proof (induction u)
  case (HTup vs)
  then have "\<And>v. v \<in> set vs \<Longrightarrow> \<exists>y. content f h v = Some y" by simp
  then obtain ts where "those (map (content f h) vs) = Some ts"
    using those_map_defined [of vs "content f h"] by blast
  then show ?case by simp
next
  case (HRef r)
  then show ?case using assms by simp
qed simp_all

lemma older_refs_content:
  assumes "older_refs h"
  shows "a < length h \<Longrightarrow> \<exists>t. content (Suc a) h (HRef a) = Some t"
proof (induction a rule: less_induct)
  case (less a)
  have ref: "\<exists>t. content a h (HRef r) = Some t" if r: "r < a" for r
  proof -
    obtain y where "content (Suc r) h (HRef r) = Some y"
      using less.IH [OF r] less.prems r by auto
    moreover have "Suc r \<le> a" using r by simp
    ultimately have "content a h (HRef r) = Some y"
      by (rule content_mono_prefix) simp
    then show ?thesis by blast
  qed
  have child: "\<exists>y. content a h u = Some y" if u: "u \<in> set (obj_values (h ! a))" for u
  proof -
    have "below a u" using assms less.prems u by (simp add: older_refs_def)
    then show ?thesis using below_content [of a a h u] ref by blast
  qed
  show ?case
  proof (cases "h ! a")
    case (HList vs)
    then obtain ts where "those (map (content a h) vs) = Some ts"
      using those_map_defined [of vs "content a h"] child by auto
    then show ?thesis using HList less.prems by simp
  next
    case (HDict kvs)
    have "\<exists>y. map_option (Pair (fst kv)) (content a h (snd kv)) = Some y"
      if "kv \<in> set kvs" for kv
      using child [of "snd kv"] that HDict by auto
    then obtain ts where
      "those (map (\<lambda>kv. map_option (Pair (fst kv)) (content a h (snd kv))) kvs) = Some ts"
      using those_map_defined
        [of kvs "\<lambda>kv. map_option (Pair (fst kv)) (content a h (snd kv))"] by auto
    then show ?thesis using HDict less.prems by simp
  qed
qed

lemma value_of_defined:
  assumes "older_refs h" and "below (length h) d"
  shows "\<exists>t. value_of h d = Some t"
proof -
  have "\<exists>t. content (Suc (length h)) h (HRef r) = Some t" if r: "r < length h" for r
  proof -
    obtain t where "content (Suc r) h (HRef r) = Some t"
      using older_refs_content [OF assms(1) r] by blast
    moreover have "Suc r \<le> Suc (length h)" using r by simp
    ultimately have "content (Suc (length h)) h (HRef r) = Some t"
      by (rule content_mono_prefix) simp
    then show ?thesis by blast
  qed
  then show ?thesis
    unfolding value_of_def using below_content [of "length h" "Suc (length h)" h d] assms(2)
    by blast
qed

lemma sample_value: "value_of sample_heap (HRef 1) = Some sample_defaults"
  by (simp add: value_of_def sample_heap_def sample_defaults_def)

text \<open>
  Let \<open>tdb_defaults\<close> denote the value \<open>t\<close>, and let the read fall back to the default
  payload: unhealthy cluster, absent stored data, or version mismatch. Then \<open>query\<close>, and
  \<open>config\<close> of a service without an extend method, return a fresh deep copy of
  \<open>tdb_defaults\<close>: an object that denotes \<open>t\<close> and reaches only objects allocated by the
  call, in a heap that keeps every earlier object, those of \<open>tdb_defaults\<close> among them,
  as it was. So does \<open>config\<close> of a service with an extend method on an unhealthy
  cluster; in the two other cases the fresh deep copy is what the extend method is
  called on. In every heap that keeps the objects that existed before the call, whatever
  has been written to the later ones, \<open>tdb_defaults\<close> still denotes \<open>t\<close>.
\<close>

lemma fallback_fresh_deep_copy:
  assumes "value_of h d = Some t" and "falls_back sv gate"
  shows "(\<exists>v h'. query_objects sv d rest gate h = Some (Inr v, h') \<and> fresh_copy h t v h')
    \<and> (\<exists>v h'. config_objects sv d None gate h = Some (Inr v, h') \<and> fresh_copy h t v h')
    \<and> (\<exists>v h'. fresh_copy h t v h' \<and>
          config_objects sv d (Some f) gate h =
            (if gate = Unhealthy then Some (Inr v, h') else Some (f v h')))
    \<and> (\<forall>h2. take (length h) h2 = h \<longrightarrow> value_of h2 d = Some t)"
proof -
  obtain v1 h1 where d1: "deepcopy h d = Some (v1, h1)" and f1: "fresh_copy h t v1 h1"
    using deepcopy_fresh [OF assms(1)] by blast
  have p1: "take (length h) h1 = h" using f1 unfolding fresh_copy_def by blast
  have t1: "value_of h1 d = Some t" by (rule value_of_frame [OF assms(1) p1])
  obtain v2 h2 where d2: "deepcopy h1 d = Some (v2, h2)" and f2': "fresh_copy h1 t v2 h2"
    using deepcopy_fresh [OF t1] by blast
  have f2: "fresh_copy h t v2 h2" by (rule fresh_copy_trans [OF f1 f2'])
  have q: "query_objects sv d rest gate h = Some (Inr v1, h1)"
    using assms(2) d1 by (cases gate) (auto simp add: query_objects_def falls_back_def)
  have a: "\<exists>v h'. query_objects sv d rest gate h = Some (Inr v, h') \<and> fresh_copy h t v h'"
    using q f1 by blast
  have c: "\<exists>v h'. fresh_copy h t v h' \<and>
      config_objects sv d None gate h = Some (Inr v, h') \<and>
      config_objects sv d (Some f) gate h =
        (if gate = Unhealthy then Some (Inr v, h') else Some (f v h'))"
  proof (cases gate)
    case Unhealthy
    then have "config_objects sv d None gate h = Some (Inr v1, h1)"
      and "config_objects sv d (Some f) gate h = Some (Inr v1, h1)"
      using d1 by (simp_all add: config_objects_def)
    then show ?thesis using f1 Unhealthy by auto
  next
    case (Fetched ver data)
    show ?thesis
    proof (cases "ver \<noteq> None \<and> Some sv \<noteq> ver")
      case True
      show ?thesis
      proof (cases "data = HNone")
        case True
        have "config_objects sv d None gate h = Some (Inr v2, h2)"
          and "config_objects sv d (Some f) gate h = Some (f v2 h2)"
          using Fetched True \<open>ver \<noteq> None \<and> Some sv \<noteq> ver\<close> d1 d2
          by (simp_all add: config_objects_def)
        then show ?thesis using f2 Fetched by auto
      next
        case False
        have "config_objects sv d None gate h = Some (Inr v1, h1)"
          and "config_objects sv d (Some f) gate h = Some (f v1 h1)"
          using Fetched False \<open>ver \<noteq> None \<and> Some sv \<noteq> ver\<close> d1
          by (simp_all add: config_objects_def)
        then show ?thesis using f1 Fetched by auto
      qed
    next
      case False
      then have n: "data = HNone" using assms(2) Fetched by (auto simp add: falls_back_def)
      have "config_objects sv d None gate h = Some (Inr v1, h1)"
        and "config_objects sv d (Some f) gate h = Some (f v1 h1)"
        using Fetched False n d1 by (auto simp add: config_objects_def)
      then show ?thesis using f1 Fetched by auto
    qed
  qed
  have b: "\<exists>v h'. config_objects sv d None gate h = Some (Inr v, h') \<and> fresh_copy h t v h'"
    using c by blast
  have c': "\<exists>v h'. fresh_copy h t v h' \<and>
          config_objects sv d (Some f) gate h =
            (if gate = Unhealthy then Some (Inr v, h') else Some (f v h'))"
    using c by blast
  have e: "\<forall>h2. take (length h) h2 = h \<longrightarrow> value_of h2 d = Some t"
    using value_of_frame [OF assms(1)] by blast
  show ?thesis by (rule conjI [OF a conjI [OF b conjI [OF c' e]]])
qed

text \<open>
  The same on the sample heap, with a stamp that differs from the service version; the
  last heap is the one left by a caller that emptied the returned list and replaced the
  returned dictionary's items.
\<close>

lemma fallback_fresh_deep_copy_example:
  "value_of sample_heap (HRef 1) = Some sample_defaults
   \<and> falls_back \<lparr>major = 0, minor = 2\<rparr> (Fetched (Some \<lparr>major = 0, minor = 1\<rparr>) (HRef 2))
   \<and> (\<exists>v h'. query_objects \<lparr>major = 0, minor = 2\<rparr> (HRef 1) (\<lambda>v h. (Inr v, h))
                 (Fetched (Some \<lparr>major = 0, minor = 1\<rparr>) (HRef 2)) sample_heap = Some (Inr v, h')
               \<and> fresh_copy sample_heap sample_defaults v h')
   \<and> (\<exists>v h'. config_objects \<lparr>major = 0, minor = 2\<rparr> (HRef 1) None
                 (Fetched (Some \<lparr>major = 0, minor = 1\<rparr>) (HRef 2)) sample_heap = Some (Inr v, h')
               \<and> fresh_copy sample_heap sample_defaults v h')
   \<and> (\<exists>v h'. fresh_copy sample_heap sample_defaults v h'
               \<and> config_objects \<lparr>major = 0, minor = 2\<rparr> (HRef 1) (Some add_key)
                   (Fetched (Some \<lparr>major = 0, minor = 1\<rparr>) (HRef 2)) sample_heap
                 = Some (add_key v h'))
   \<and> value_of (sample_heap @ [HList [], HDict [(''enabled'', HBool True)]]) (HRef 1)
       = Some sample_defaults"
proof -
  have fb: "falls_back \<lparr>major = 0, minor = 2\<rparr> (Fetched (Some \<lparr>major = 0, minor = 1\<rparr>) (HRef 2))"
    by (simp add: falls_back_def)
  note main = fallback_fresh_deep_copy
    [where h = sample_heap and d = "HRef 1" and t = sample_defaults
       and sv = "\<lparr>major = 0, minor = 2\<rparr>"
       and gate = "Fetched (Some \<lparr>major = 0, minor = 1\<rparr>) (HRef 2)"
       and rest = "\<lambda>v h. (Inr v, h)" and f = add_key, OF sample_value fb]
  have c: "\<exists>v h'. fresh_copy sample_heap sample_defaults v h'
               \<and> config_objects \<lparr>major = 0, minor = 2\<rparr> (HRef 1) (Some add_key)
                   (Fetched (Some \<lparr>major = 0, minor = 1\<rparr>) (HRef 2)) sample_heap
                 = Some (add_key v h')"
    using main [THEN conjunct2, THEN conjunct2, THEN conjunct1] by simp
  have e: "value_of (sample_heap @ [HList [], HDict [(''enabled'', HBool True)]]) (HRef 1)
       = Some sample_defaults"
    using main [THEN conjunct2, THEN conjunct2, THEN conjunct2, rule_format,
        of "sample_heap @ [HList [], HDict [(''enabled'', HBool True)]]"]
    by simp
  show ?thesis
    by (rule conjI [OF sample_value conjI [OF fb conjI [OF main [THEN conjunct1]
          conjI [OF main [THEN conjunct2, THEN conjunct1] conjI [OF c e]]]]])
qed

text \<open>
  Claim C10. Whenever \<open>config\<close> or \<open>query\<close> falls back to the default payload, the
  returned value is a fresh deep copy of \<open>tdb_defaults\<close>. \<open>config\<close> of a service that
  registers an extend method departs from this on absent stored data and on a version
  mismatch: the deep copy is handed to the extend method and what the method returns is
  returned, where the unhealthy branch of the same method and the three fallback
  returns of \<open>query\<close> return the deep copy itself, and the class documents
  \<open>tdb_defaults\<close> as the value returned. The run below is \<open>config\<close> on a version mismatch
  with an extend method that adds the key \<open>state\<close>: the object returned denotes the
  defaults and that key.
\<close>

theorem config_fallback_returns_extended_copy:
  "config_objects \<lparr>major = 0, minor = 2\<rparr> (HRef 1) (Some add_key)
     (Fetched (Some \<lparr>major = 0, minor = 1\<rparr>) (HRef 2)) sample_heap
   = Some (Inr (HRef 4),
       sample_heap @
       [HList [HStr ''ntp''],
        HDict [(''enabled'', HBool False), (''servers'', HRef 3),
               (''port'', HTup [HInt 1, HInt 2]), (''state'', HStr ''STOPPED'')]])
   \<and> value_of (sample_heap @
       [HList [HStr ''ntp''],
        HDict [(''enabled'', HBool False), (''servers'', HRef 3),
               (''port'', HTup [HInt 1, HInt 2]), (''state'', HStr ''STOPPED'')]])
       (HRef 4)
     = Some (PDict [(''enabled'', PBool False), (''servers'', PList [PStr ''ntp'']),
                    (''port'', PTuple [PInt 1, PInt 2]), (''state'', PStr ''STOPPED'')])
   \<and> value_of sample_heap (HRef 1)
     = Some (PDict [(''enabled'', PBool False), (''servers'', PList [PStr ''ntp'']),
                    (''port'', PTuple [PInt 1, PInt 2])])"
  by (simp add: config_objects_def deepcopy_def value_of_def sample_heap_def add_key_def)

end
